theory Spec2Isabelle
  imports Complex_Main "HOL-Library.Sublist" "HOL-Library.AList" "HOL-Library.Word"
begin

section \<open>JavaScript values\<close>

text \<open>
  The client passes plain JavaScript objects around: request parameters, parsed JSON
  bodies, alias tables, caches. They are modelled by one datatype of values. An object is
  the list of its own properties in enumeration order; the keys the code itself writes
  are never array indices, so writing a new key appends it. A string is the list of the
  bytes of its UTF-8 encoding. Numbers are the integral ones.
\<close>

datatype jsval =
    Undefined
  | Null
  | Bool bool
  | Num int
  | Str string
  | Arr "jsval list"
  | Obj "(string \<times> jsval) list"

fun truthy :: "jsval \<Rightarrow> bool" where
  "truthy Undefined = False"
| "truthy Null = False"
| "truthy (Bool b) = b"
| "truthy (Num n) = (n \<noteq> 0)"
| "truthy (Str s) = (s \<noteq> [])"
| "truthy (Arr xs) = True"
| "truthy (Obj kvs) = True"

text \<open>\<open>a || b\<close>\<close>

definition js_or :: "jsval \<Rightarrow> jsval \<Rightarrow> jsval" where
  "js_or a b = (if truthy a then a else b)"

text \<open>
  \<open>v.k\<close> for a property name \<open>k\<close> that no built-in prototype defines (\<open>choices\<close>,
  \<open>delta\<close>, \<open>model\<close>, \<open>stop\<close>, ...): only an object can have it. Reading a property of
  \<open>null\<close> or \<open>undefined\<close> throws a TypeError, which the callers make explicit.
\<close>

fun js_get :: "jsval \<Rightarrow> string \<Rightarrow> jsval" where
  "js_get (Obj kvs) k = (case map_of kvs k of None \<Rightarrow> Undefined | Some v \<Rightarrow> v)"
| "js_get v k = Undefined"

fun nullish :: "jsval \<Rightarrow> bool" where
  "nullish Undefined = True"
| "nullish Null = True"
| "nullish v = False"

text \<open>\<open>s.includes(sub)\<close>\<close>

fun str_includes :: "string \<Rightarrow> string \<Rightarrow> bool" where
  "str_includes [] sub = (sub = [])"
| "str_includes (c # cs) sub = (prefix sub (c # cs) \<or> str_includes cs sub)"

section \<open>Percent-encoding\<close>

definition uri_unreserved :: "char \<Rightarrow> bool" where
  "uri_unreserved c =
     (c \<in> set ''ABCDEFGHIJKLMNOPQRSTUVWXYZabcdefghijklmnopqrstuvwxyz0123456789-_.!~*()''
      \<or> c = CHR 0x27)"

definition hex_digit :: "nat \<Rightarrow> char" where
  "hex_digit n = ''0123456789ABCDEF'' ! (n mod 16)"

definition pct :: "char \<Rightarrow> string" where
  "pct c = [CHR ''%'', hex_digit (of_char c div 16), hex_digit (of_char c mod 16)]"

text \<open>\<open>encodeURIComponent\<close>, on the UTF-8 bytes of a well-formed string.\<close>

definition encodeURIComponent :: "string \<Rightarrow> string" where
  "encodeURIComponent s = concat (map (\<lambda>c. if uri_unreserved c then [c] else pct c) s)"

section \<open>The network\<close>

text \<open>
  \<open>fetch\<close> is the only way out of the program. A response carries what the client reads
  of it; the network answers a request knowing every request issued before, and answers
  \<open>None\<close> when the promise rejects. The trace records the requests in the order they
  were issued.
\<close>

record response =
  status :: nat
  content_type :: "string option"
  final_url :: string
  json_body :: "jsval option"
  body :: "8 word list list option"

definition ok :: "response \<Rightarrow> bool" where
  "ok r = (200 \<le> status r \<and> status r \<le> 299)"

record request_init =
  http_method :: "string option"
  headers :: "(string \<times> jsval) list"
  payload :: "jsval option"

type_synonym trace = "(string \<times> request_init) list"
type_synonym network = "trace \<Rightarrow> string \<Rightarrow> request_init \<Rightarrow> response option"

definition fetch :: "network \<Rightarrow> string \<Rightarrow> request_init \<Rightarrow> trace \<Rightarrow> response option \<times> trace" where
  "fetch net u init tr = (net tr u init, tr @ [(u, init)])"

datatype error =
    NetworkError
  | ProxyStatus nat
  | UnexpectedContentType string
  | ProxyExhausted string
  | UpstreamStatus nat
  | StreamUnsupported
  | ModelResolutionFailed string
  | TypeError
  | SyntaxError

section \<open>CorsProxyManager\<close>

record CorsProxyManager =
  proxies :: "string list"
  currentIndex :: nat

text \<open>
  The constructor refuses an empty list and starts at index 0; \<open>rotateProxy\<close> is the only
  writer of the index, so \<open>currentIndex < length proxies\<close> always holds on a manager the
  program holds. Out of range JavaScript reads \<open>undefined\<close>, which concatenates as the text
  \<open>undefined\<close>.
\<close>

definition new_CorsProxyManager :: "string list \<Rightarrow> error + CorsProxyManager" where
  "new_CorsProxyManager ps =
     (if ps = [] then Inl TypeError else Inr \<lparr>proxies = ps, currentIndex = 0\<rparr>)"

definition getProxiedUrl :: "CorsProxyManager \<Rightarrow> string \<Rightarrow> string" where
  "getProxiedUrl pm targetUrl =
     (if currentIndex pm < length (proxies pm) then proxies pm ! currentIndex pm
      else ''undefined'') @ encodeURIComponent targetUrl"

definition rotateProxy :: "CorsProxyManager \<Rightarrow> CorsProxyManager" where
  "rotateProxy pm = pm\<lparr>currentIndex := (currentIndex pm + 1) mod length (proxies pm)\<rparr>"

section \<open>Client: fetching through the proxies\<close>

text \<open>
  The body of the \<open>try\<close> in \<open>_fetchWithProxyRotation\<close>: a rejected fetch, a status outside
  200..299, and a Content-Type that is truthy (neither \<open>null\<close> nor the empty string) and
  does not include \<open>application/json\<close> all throw.
\<close>

definition proxy_try :: "response option \<Rightarrow> error + response" where
  "proxy_try out =
     (case out of
        None \<Rightarrow> Inl NetworkError
      | Some r \<Rightarrow>
          if \<not> ok r then Inl (ProxyStatus (status r))
          else (case content_type r of
                  None \<Rightarrow> Inr r
                | Some ct \<Rightarrow>
                    if ct \<noteq> [] \<and> \<not> str_includes ct ''application/json''
                    then Inl (UnexpectedContentType ct) else Inr r))"

text \<open>
  \<open>_fetchWithProxyRotation\<close> is an async function: a call runs to its \<open>await fetch\<close> and
  hands the control back, and what follows the \<open>await\<close> runs when the fetch has settled,
  up to the next \<open>await\<close> or to the end of the call. In between, the other calls of the
  client run, on the same \<open>this.proxyManager\<close>. A call in flight is its local variables
  \<open>targetUrl\<close>, \<open>requestConfig\<close>, \<open>maxAttempts\<close> and \<open>attempt\<close> together with what its
  fetch will settle with; a call that has ended is its outcome.
\<close>

datatype call =
    Awaiting string request_init nat nat "response option"
  | Settled "error + response"

text \<open>
  The head of the \<open>for\<close> loop: the test of \<open>attempt\<close>, \<open>getProxiedUrl\<close> with the index the
  manager has at that moment, and the fetch. After the last round the call throws.
\<close>

definition loop_head ::
  "network \<Rightarrow> string \<Rightarrow> request_init \<Rightarrow> nat \<Rightarrow> nat \<Rightarrow> CorsProxyManager \<Rightarrow> trace
     \<Rightarrow> call \<times> CorsProxyManager \<times> trace" where
  "loop_head net targetUrl cfg maxAttempts attempt pm tr =
     (if attempt < maxAttempts then
        let proxiedUrl = getProxiedUrl pm targetUrl;
            (out, tr1) = fetch net proxiedUrl cfg tr
        in (Awaiting targetUrl cfg maxAttempts attempt out, pm, tr1)
      else (Settled (Inl (ProxyExhausted targetUrl)), pm, tr))"

text \<open>
  What follows the \<open>await\<close>: the rest of the \<open>try\<close> on the response, or the \<open>catch\<close> with
  \<open>rotateProxy\<close> on the manager as it is by then, and the next round of the loop.
\<close>

fun resume :: "network \<Rightarrow> call \<Rightarrow> CorsProxyManager \<Rightarrow> trace \<Rightarrow> call \<times> CorsProxyManager \<times> trace" where
  "resume net (Awaiting targetUrl cfg maxAttempts attempt out) pm tr =
     (case proxy_try out of
        Inr r \<Rightarrow> (Settled (Inr r), pm, tr)
      | Inl e \<Rightarrow> loop_head net targetUrl cfg maxAttempts (Suc attempt) (rotateProxy pm) tr)"
| "resume net (Settled res) pm tr = (Settled res, pm, tr)"

text \<open>
  The calls a client has made, in the order it made them, with the manager and the trace
  they share. The call expression \<open>this._fetchWithProxyRotation(targetUrl, requestConfig)\<close>
  reads \<open>maxAttempts\<close>, runs the call to its first \<open>await\<close> and returns with the call in
  flight.
\<close>

type_synonym calls = "call list \<times> CorsProxyManager \<times> trace"

definition fetchWithProxyRotation :: "network \<Rightarrow> string \<Rightarrow> request_init \<Rightarrow> calls \<Rightarrow> calls" where
  "fetchWithProxyRotation net targetUrl cfg st =
     (case st of (cs, pm, tr) \<Rightarrow>
        (case loop_head net targetUrl cfg (length (proxies pm)) 0 pm tr of
           (c, pm1, tr1) \<Rightarrow> (cs @ [c], pm1, tr1)))"

text \<open>The fetch that call number \<open>i\<close> awaits settles, and the call goes on.\<close>

definition settle :: "network \<Rightarrow> nat \<Rightarrow> calls \<Rightarrow> calls" where
  "settle net i st =
     (case st of (cs, pm, tr) \<Rightarrow>
        if i < length cs
        then (case resume net (cs ! i) pm tr of (c, pm1, tr1) \<Rightarrow> (cs[i := c], pm1, tr1))
        else st)"

text \<open>
  The order in which the fetches in flight settle is the network's: a schedule lists the
  calls in the order their fetches settle.
\<close>

definition run :: "network \<Rightarrow> nat list \<Rightarrow> calls \<Rightarrow> calls" where
  "run net sched st = fold (settle net) sched st"

text \<open>
  A call awaited to its end while no other call runs. Every round either ends the call
  or takes the next value of \<open>attempt\<close>, so the call ends.
\<close>

fun rounds_left :: "call \<Rightarrow> nat" where
  "rounds_left (Awaiting targetUrl cfg maxAttempts attempt out) = Suc (maxAttempts - Suc attempt)"
| "rounds_left (Settled res) = 0"

function await_call ::
  "network \<Rightarrow> call \<Rightarrow> CorsProxyManager \<Rightarrow> trace \<Rightarrow> (error + response) \<times> CorsProxyManager \<times> trace" where
  "await_call net (Settled res) pm tr = (res, pm, tr)"
| "await_call net (Awaiting targetUrl cfg maxAttempts attempt out) pm tr =
     (case resume net (Awaiting targetUrl cfg maxAttempts attempt out) pm tr of
        (c, pm1, tr1) \<Rightarrow> await_call net c pm1 tr1)"
  by pat_completeness auto
termination
  by (relation "measure (\<lambda>(net, c, pm, tr). rounds_left c)")
     (auto simp: loop_head_def fetch_def Let_def split: sum.splits if_splits)

text \<open>
  \<open>await Promise.all(...)\<close> on the calls made: the fetches settle as the schedule says, and
  the calls still in flight after it are awaited one after the other. The outcomes come
  in the order of the calls.
\<close>

fun await_rest ::
  "network \<Rightarrow> call list \<Rightarrow> CorsProxyManager \<Rightarrow> trace
     \<Rightarrow> (error + response) list \<times> CorsProxyManager \<times> trace" where
  "await_rest net [] pm tr = ([], pm, tr)"
| "await_rest net (c # cs) pm tr =
     (case await_call net c pm tr of
        (res, pm1, tr1) \<Rightarrow>
          (case await_rest net cs pm1 tr1 of (rs, pm2, tr2) \<Rightarrow> (res # rs, pm2, tr2)))"

definition await_all ::
  "network \<Rightarrow> nat list \<Rightarrow> calls \<Rightarrow> (error + response) list \<times> CorsProxyManager \<times> trace" where
  "await_all net sched st = (case run net sched st of (cs, pm, tr) \<Rightarrow> await_rest net cs pm tr)"

text \<open>
  A call is quiet when it will not move the index any more: it has ended, or the fetch it
  awaits settles with a response that passes the checks.
\<close>

fun quiet :: "call \<Rightarrow> bool" where
  "quiet (Awaiting targetUrl cfg maxAttempts attempt out) = (\<not> isl (proxy_try out))"
| "quiet (Settled res) = True"

text \<open>
  The loop from the round \<open>attempt\<close> on, for a call that is alone: nothing runs between
  its rounds.
\<close>

definition uninterrupted ::
  "network \<Rightarrow> string \<Rightarrow> request_init \<Rightarrow> nat \<Rightarrow> nat \<Rightarrow> CorsProxyManager \<Rightarrow> trace
     \<Rightarrow> (error + response) \<times> CorsProxyManager \<times> trace" where
  "uninterrupted net targetUrl cfg maxAttempts attempt pm tr =
     (case loop_head net targetUrl cfg maxAttempts attempt pm tr of
        (c, pm1, tr1) \<Rightarrow> await_call net c pm1 tr1)"

text \<open>
  Vocabulary for the attempts of one call that starts with manager \<open>pm\<close> and trace
  \<open>tr\<close> while nothing else moves the index or sends a request: the slot, the URL and
  the outcome of attempt number \<open>j\<close> (from 0), given that the attempts before it failed.
\<close>

definition attempt_slot :: "CorsProxyManager \<Rightarrow> nat \<Rightarrow> nat" where
  "attempt_slot pm j = (currentIndex pm + j) mod length (proxies pm)"

definition attempt_url :: "CorsProxyManager \<Rightarrow> string \<Rightarrow> nat \<Rightarrow> string" where
  "attempt_url pm targetUrl j = proxies pm ! attempt_slot pm j @ encodeURIComponent targetUrl"

definition attempt_trace :: "CorsProxyManager \<Rightarrow> string \<Rightarrow> request_init \<Rightarrow> trace \<Rightarrow> nat \<Rightarrow> trace" where
  "attempt_trace pm targetUrl cfg tr j = tr @ map (\<lambda>i. (attempt_url pm targetUrl i, cfg)) [0..<j]"

definition attempt_result ::
  "network \<Rightarrow> CorsProxyManager \<Rightarrow> string \<Rightarrow> request_init \<Rightarrow> trace \<Rightarrow> nat \<Rightarrow> error + response" where
  "attempt_result net pm targetUrl cfg tr j =
     proxy_try (net (attempt_trace pm targetUrl cfg tr j) (attempt_url pm targetUrl j) cfg)"

definition attempt_failed ::
  "network \<Rightarrow> CorsProxyManager \<Rightarrow> string \<Rightarrow> request_init \<Rightarrow> trace \<Rightarrow> nat \<Rightarrow> bool" where
  "attempt_failed net pm targetUrl cfg tr j = isl (attempt_result net pm targetUrl cfg tr j)"

section \<open>The stream decoder\<close>

text \<open>
  \<open>v[0]\<close>: the first element of an array, the property \<open>0\<close> of an object, the first
  character of a string (a string again, with no further properties).
\<close>

fun js_index0 :: "jsval \<Rightarrow> jsval" where
  "js_index0 (Arr xs) = (case xs of [] \<Rightarrow> Undefined | x # _ \<Rightarrow> x)"
| "js_index0 (Obj kvs) = js_get (Obj kvs) ''0''"
| "js_index0 (Str s) = (if s = [] then Undefined else Str (take 1 s))"
| "js_index0 v = Undefined"

text \<open>\<open>v?.k\<close>\<close>

definition opt_get :: "jsval \<Rightarrow> string \<Rightarrow> jsval" where
  "opt_get v k = (if nullish v then Undefined else js_get v k)"

text \<open>
  \<open>o.k = v\<close> on an object: an existing key keeps its place, a new key goes last. The code
  assigns to objects only.
\<close>

fun js_set :: "jsval \<Rightarrow> string \<Rightarrow> jsval \<Rightarrow> jsval" where
  "js_set (Obj kvs) k v = Obj (AList.update k v kvs)"
| "js_set w k v = w"

text \<open>
  Parsed JSON is a tree, so a write to a nested object is the tree with that one node
  replaced: \<open>upd_prop k f\<close> applies \<open>f\<close> to the value of the property \<open>k\<close>, and
  \<open>upd_index0 f\<close> to what \<open>v[0]\<close> reads.
\<close>

fun upd_first :: "string \<Rightarrow> (jsval \<Rightarrow> jsval) \<Rightarrow> (string \<times> jsval) list \<Rightarrow> (string \<times> jsval) list" where
  "upd_first k f [] = []"
| "upd_first k f (p # ps) = (if fst p = k then (k, f (snd p)) # ps else p # upd_first k f ps)"

fun upd_prop :: "string \<Rightarrow> (jsval \<Rightarrow> jsval) \<Rightarrow> jsval \<Rightarrow> jsval" where
  "upd_prop k f (Obj kvs) = Obj (upd_first k f kvs)"
| "upd_prop k f v = v"

fun upd_index0 :: "(jsval \<Rightarrow> jsval) \<Rightarrow> jsval \<Rightarrow> jsval" where
  "upd_index0 f (Arr xs) = (case xs of [] \<Rightarrow> Arr [] | x # r \<Rightarrow> Arr (f x # r))"
| "upd_index0 f (Obj kvs) = upd_prop ''0'' f (Obj kvs)"
| "upd_index0 f v = v"

text \<open>
  Lines 194 to 196 of \<open>_streamCompletion\<close>:
  \<^verbatim>\<open>if (data.choices && data.choices[0]?.delta?.reasoning) {
      data.choices[0].delta.reasoning_content = data.choices[0].delta.reasoning; }\<close>
  \<open>data.choices\<close> throws a TypeError when \<open>data\<close> is \<open>null\<close>.
\<close>

definition copy_reasoning :: "jsval \<Rightarrow> error + jsval" where
  "copy_reasoning data =
     (if nullish data then Inl TypeError
      else let choices = js_get data ''choices'' in
        if \<not> truthy choices then Inr data
        else let reasoning = opt_get (opt_get (js_index0 choices) ''delta'') ''reasoning'' in
          if truthy reasoning
          then Inr (upd_prop ''choices''
                      (upd_index0 (upd_prop ''delta''
                         (\<lambda>delta. js_set delta ''reasoning_content'' reasoning))) data)
          else Inr data)"

text \<open>
  \<open>!part.trim()\<close>: the part holds white space and line terminators only (TAB, LF, VT, FF,
  CR, SP, and in UTF-8 U+00A0, U+1680, U+2000 to U+200A, U+2028, U+2029, U+202F, U+205F,
  U+3000, U+FEFF).
\<close>

definition ascii_ws :: "char \<Rightarrow> bool" where
  "ascii_ws c = (c \<in> set [CHR 0x09, CHR 0x0A, CHR 0x0B, CHR 0x0C, CHR 0x0D, CHR 0x20])"

fun blank :: "string \<Rightarrow> bool" where
  "blank [] = True"
| "blank (c # cs) =
     (if ascii_ws c then blank cs
      else if c = CHR 0xC2 then (case cs of d # r \<Rightarrow> d = CHR 0xA0 \<and> blank r | _ \<Rightarrow> False)
      else if c = CHR 0xE1 then
        (case cs of d # e # r \<Rightarrow> d = CHR 0x9A \<and> e = CHR 0x80 \<and> blank r | _ \<Rightarrow> False)
      else if c = CHR 0xE2 then
        (case cs of d # e # r \<Rightarrow>
           ((d = CHR 0x80 \<and> (of_char e \<in> {0x80..0x8A::nat} \<or> e \<in> set [CHR 0xA8, CHR 0xA9, CHR 0xAF]))
            \<or> (d = CHR 0x81 \<and> e = CHR 0x9F)) \<and> blank r
         | _ \<Rightarrow> False)
      else if c = CHR 0xE3 then
        (case cs of d # e # r \<Rightarrow> d = CHR 0x80 \<and> e = CHR 0x80 \<and> blank r | _ \<Rightarrow> False)
      else if c = CHR 0xEF then
        (case cs of d # e # r \<Rightarrow> d = CHR 0xBB \<and> e = CHR 0xBF \<and> blank r | _ \<Rightarrow> False)
      else False)"

text \<open>
  The body of \<open>for (const part of parts)\<close>: what one complete line yields. \<open>JSON.parse\<close>
  is a parameter, \<open>None\<close> where it throws; the \<open>catch\<close> swallows its SyntaxError and the
  TypeError of \<open>copy_reasoning\<close> alike.
\<close>

definition process_part :: "(string \<Rightarrow> jsval option) \<Rightarrow> string \<Rightarrow> jsval list" where
  "process_part parse part =
     (if blank part \<or> part = ''data: [DONE]'' then []
      else if prefix ''data: '' part then
        (case parse (drop 6 part) of
           None \<Rightarrow> []
         | Some data \<Rightarrow> (case copy_reasoning data of Inl e \<Rightarrow> [] | Inr ev \<Rightarrow> [ev]))
      else [])"

text \<open>
  \<open>s.split(x)\<close> for a one-character separator: never empty; the last element is what
  follows the last separator. \<open>split_nl\<close> is \<open>buffer.split('\n')\<close>.
\<close>

fun split_on :: "char \<Rightarrow> string \<Rightarrow> string list" where
  "split_on x [] = [[]]"
| "split_on x (c # cs) =
     (if c = x then [] # split_on x cs
      else (case split_on x cs of [] \<Rightarrow> [[c]] | p # ps \<Rightarrow> (c # p) # ps))"

abbreviation split_nl :: "string \<Rightarrow> string list" where
  "split_nl \<equiv> split_on (CHR 0x0A)"

text \<open>
  \<open>decoder.decode(value, {stream: true})\<close>: a \<open>TextDecoder\<close> in streaming mode consumes
  its input byte by byte and keeps its state between calls. The byte handler \<open>dec\<close> and
  its initial state are parameters.
\<close>

fun decode :: "('d \<Rightarrow> 8 word \<Rightarrow> 'd \<times> string) \<Rightarrow> 'd \<Rightarrow> 8 word list \<Rightarrow> 'd \<times> string" where
  "decode dec d [] = (d, [])"
| "decode dec d (b # bs) =
     (let (d1, out) = dec d b; (d2, rest) = decode dec d1 bs in (d2, out @ rest))"

text \<open>
  The \<open>while (true)\<close> loop over the chunks the reader delivers, ending at \<open>done\<close>: the
  events yielded, in order, and the buffer left over.
\<close>

fun read_loop ::
  "('d \<Rightarrow> 8 word \<Rightarrow> 'd \<times> string) \<Rightarrow> (string \<Rightarrow> jsval option) \<Rightarrow> 8 word list list \<Rightarrow> 'd \<Rightarrow> string
     \<Rightarrow> jsval list \<times> string" where
  "read_loop dec parse [] d buffer = ([], buffer)"
| "read_loop dec parse (v # rest) d buffer =
     (let (d1, text) = decode dec d v;
          parts = split_nl (buffer @ text);
          buffer1 = last parts;
          yielded = concat (map (process_part parse) (butlast parts));
          (later, buffer2) = read_loop dec parse rest d1 buffer1
      in (yielded @ later, buffer2))"

text \<open>
  \<open>_streamCompletion\<close>: the sequence a consumer receives when it reads the generator to
  its end.
\<close>

definition streamCompletion ::
  "('d \<Rightarrow> 8 word \<Rightarrow> 'd \<times> string) \<Rightarrow> 'd \<Rightarrow> (string \<Rightarrow> jsval option) \<Rightarrow> response \<Rightarrow> error + jsval list" where
  "streamCompletion dec d0 parse response =
     (if \<not> ok response then Inl (UpstreamStatus (status response))
      else case body response of
             None \<Rightarrow> Inl StreamUnsupported
           | Some chunks \<Rightarrow> Inr (fst (read_loop dec parse chunks d0 [])))"

text \<open>The first choice's delta of a parsed event: \<open>data.choices[0].delta\<close>.\<close>

definition first_delta :: "jsval \<Rightarrow> jsval" where
  "first_delta data = js_get (js_index0 (js_get data ''choices'')) ''delta''"

section \<open>Strings of values\<close>

text \<open>
  \<open>String(v)\<close>, as a property key, in a template and in \<open>URLSearchParams\<close>: an element of
  an array that is \<open>null\<close> or \<open>undefined\<close> joins as the empty string; a number prints in
  decimal (the integers of magnitude below \<open>10^21\<close>).
\<close>

definition digit_char :: "nat \<Rightarrow> char" where
  "digit_char n = ''0123456789'' ! (n mod 10)"

fun show_nat :: "nat \<Rightarrow> string" where
  "show_nat n = (if n < 10 then [digit_char n] else show_nat (n div 10) @ [digit_char n])"

declare show_nat.simps [simp del]

definition show_int :: "int \<Rightarrow> string" where
  "show_int i = (if i < 0 then CHR ''-'' # show_nat (nat (- i)) else show_nat (nat i))"

fun join :: "string \<Rightarrow> string list \<Rightarrow> string" where
  "join sep [] = []"
| "join sep [x] = x"
| "join sep (x # y # r) = x @ sep @ join sep (y # r)"

fun to_string :: "jsval \<Rightarrow> string" where
  "to_string Undefined = ''undefined''"
| "to_string Null = ''null''"
| "to_string (Bool b) = (if b then ''true'' else ''false'')"
| "to_string (Num n) = show_int n"
| "to_string (Str s) = s"
| "to_string (Arr xs) = join '','' (map (\<lambda>x. if nullish x then [] else to_string x) xs)"
| "to_string (Obj kvs) = ''[object Object]''"

text \<open>
  \<open>o[v]\<close> on an object \<open>o\<close>: the key is the string of \<open>v\<close>. Keys that name a
  member of \<open>Object.prototype\<close> (\<open>constructor\<close>, \<open>toString\<close>, ...) are not model ids and
  are left out.
\<close>

definition js_lookup :: "(string \<times> jsval) list \<Rightarrow> jsval \<Rightarrow> jsval" where
  "js_lookup kvs v = js_get (Obj kvs) (to_string v)"

text \<open>\<open>xs[i]\<close> on an array\<close>

definition js_nth :: "jsval list \<Rightarrow> nat \<Rightarrow> jsval" where
  "js_nth xs i = (if i < length xs then xs ! i else Undefined)"

text \<open>
  \<open>s.replaceAll(pat, rep)\<close> for a non-empty \<open>pat\<close>, left to right; \<open>k\<close> counts the
  characters of a match still to be skipped.
\<close>

fun replaceAll_from :: "string \<Rightarrow> string \<Rightarrow> nat \<Rightarrow> string \<Rightarrow> string" where
  "replaceAll_from pat rep k [] = []"
| "replaceAll_from pat rep k (c # cs) =
     (if 0 < k then replaceAll_from pat rep (k - 1) cs
      else if prefix pat (c # cs) then rep @ replaceAll_from pat rep (length pat - 1) cs
      else c # replaceAll_from pat rep 0 cs)"

definition replaceAll :: "string \<Rightarrow> string \<Rightarrow> string \<Rightarrow> string" where
  "replaceAll pat rep s = replaceAll_from pat rep 0 s"

text \<open>
  \<open>s.replace(pat, rep)\<close> with a string pattern replaces the first occurrence. The
  replacement the code passes is percent-encoded, so it holds no \<open>$\<close> pattern.
\<close>

fun replace_first :: "string \<Rightarrow> string \<Rightarrow> string \<Rightarrow> string" where
  "replace_first pat rep [] = (if pat = [] then rep else [])"
| "replace_first pat rep (c # cs) =
     (if prefix pat (c # cs) then rep @ drop (length pat) (c # cs)
      else c # replace_first pat rep cs)"

text \<open>
  \<open>new URLSearchParams(obj).toString()\<close>: every property as a pair of strings, serialised
  as \<open>application/x-www-form-urlencoded\<close>.
\<close>

definition form_unreserved :: "char \<Rightarrow> bool" where
  "form_unreserved c =
     (c \<in> set ''ABCDEFGHIJKLMNOPQRSTUVWXYZabcdefghijklmnopqrstuvwxyz0123456789*-._'')"

definition form_encode :: "string \<Rightarrow> string" where
  "form_encode s =
     concat (map (\<lambda>c. if c = CHR '' '' then ''+'' else if form_unreserved c then [c] else pct c) s)"

definition search_params :: "(string \<times> jsval) list \<Rightarrow> (string \<times> string) list" where
  "search_params kvs = map (\<lambda>(k, v). (k, to_string v)) kvs"

definition urlencoded :: "(string \<times> string) list \<Rightarrow> string" where
  "urlencoded pairs = join ''&'' (map (\<lambda>(k, v). form_encode k @ ''='' @ form_encode v) pairs)"

section \<open>Client\<close>

text \<open>
  The fields of a \<open>Client\<close> after its constructor. \<open>_models\<close> is \<open>cached_models\<close>. The
  parameters of a call are an object, the list of its properties.
\<close>

record Client =
  proxyManager :: CorsProxyManager
  baseUrl :: string
  apiEndpoint :: string
  imageEndpoint :: string
  defaultModel :: jsval
  defaulImageModel :: jsval
  apiKey :: jsval
  referrer :: jsval
  extraHeaders :: "(string \<times> jsval) list"
  modelAliases :: "(string \<times> jsval) list"
  swapAliases :: "(string \<times> jsval) list"
  cached_models :: "jsval list"

text \<open>
  The constructor's loop \<open>this.swapAliases[this.modelAliases[key]] = key\<close> over the keys of
  the alias table: a later key wins.
\<close>

definition make_swapAliases :: "(string \<times> jsval) list \<Rightarrow> (string \<times> jsval) list" where
  "make_swapAliases aliases =
     fold (\<lambda>(key, v) swap. AList.update (to_string v) (Str key) swap) aliases []"

text \<open>
  The platform a client runs on: the network, the byte handler of \<open>TextDecoder\<close> with its
  initial state, and \<open>JSON.parse\<close>.
\<close>

record 'd platform =
  pf_net :: network
  pf_dec :: "'d \<Rightarrow> 8 word \<Rightarrow> 'd \<times> string"
  pf_dec0 :: 'd
  pf_parse :: "string \<Rightarrow> jsval option"

text \<open>
  The first lines of \<open>chat.completions.create\<close> and of \<open>images.generate\<close>:
  \<^verbatim>\<open>let modelId = params.model || this.defaultModel;
  if (this.modelAliases[modelId]) { modelId = this.modelAliases[modelId]; }\<close>
\<close>

definition resolve_alias :: "(string \<times> jsval) list \<Rightarrow> jsval \<Rightarrow> jsval \<Rightarrow> jsval" where
  "resolve_alias aliases model dflt =
     (let modelId = js_or model dflt
      in if truthy (js_lookup aliases modelId) then js_lookup aliases modelId else modelId)"

definition regularCompletion :: "response \<Rightarrow> error + jsval" where
  "regularCompletion response =
     (if \<not> ok response then Inl (UpstreamStatus (status response))
      else case json_body response of None \<Rightarrow> Inl SyntaxError | Some j \<Rightarrow> Inr j)"

text \<open>
  What \<open>create\<close> hands back: the events of the stream (an error of \<open>_streamCompletion\<close>
  surfaces when the consumer starts to read), or the parsed body.
\<close>

datatype completion = Streamed "jsval list" | Completed jsval

definition complete :: "'d platform \<Rightarrow> jsval \<Rightarrow> response \<Rightarrow> error + completion" where
  "complete pf stream response =
     (if truthy stream
      then map_sum id Streamed (streamCompletion (pf_dec pf) (pf_dec0 pf) (pf_parse pf) response)
      else map_sum id Completed (regularCompletion response))"

text \<open>
  \<open>Client.chat.completions.create\<close>. The result comes with the caller's \<open>params\<close> object
  as the call leaves it, and the trace. The request body is the value handed to
  \<open>JSON.stringify\<close>.
\<close>

definition Client_chat_create ::
  "'d platform \<Rightarrow> Client \<Rightarrow> (string \<times> jsval) list \<Rightarrow> trace
     \<Rightarrow> (error + completion) \<times> (string \<times> jsval) list \<times> trace" where
  "Client_chat_create pf c params tr =
     (let modelId = resolve_alias (modelAliases c) (js_get (Obj params) ''model'') (defaultModel c);
          params1 = AList.update ''model'' modelId params;
          params2 = (if truthy (referrer c) then AList.update ''referrer'' (referrer c) params1
                     else params1);
          requestOptions =
            \<lparr>http_method = Some ''POST'', headers = extraHeaders c, payload = Some (Obj params2)\<rparr>;
          (out, tr1) = fetch (pf_net pf) (apiEndpoint c) requestOptions tr
      in case out of
           None \<Rightarrow> (Inl NetworkError, params2, tr1)
         | Some response \<Rightarrow> (complete pf (js_get (Obj params2) ''stream'') response, params2, tr1))"

text \<open>
  The object \<open>_defaultImageGeneration\<close> hands to \<open>URLSearchParams\<close>: the shallow copy
  \<open>{...params}\<close> after the function's edits. \<open>params.size.split\<close> is a TypeError when
  \<open>size\<close> is truthy and not a string.
\<close>

definition image_query :: "Client \<Rightarrow> (string \<times> jsval) list \<Rightarrow> error + (string \<times> jsval) list" where
  "image_query c params =
     (let copy = params;
          p1 = AList.delete ''prompt'' copy;
          p2 = (if js_get (Obj p1) ''nologo'' = Undefined
                then AList.update ''nologo'' (Bool True) p1 else p1);
          p3 = (if truthy (referrer c) then AList.update ''referrer'' (referrer c) p2 else p2)
      in if truthy (js_get (Obj p3) ''size'') then
           (case js_get (Obj p3) ''size'' of
              Str s \<Rightarrow>
                let p4 = AList.update ''width'' (js_nth (map Str (split_on CHR ''x'' s)) 0) p3;
                    p5 = AList.update ''height'' (js_nth (map Str (split_on CHR ''x'' s)) 1) p4
                in Inr (AList.delete ''size'' p5)
            | _ \<Rightarrow> Inl TypeError)
         else Inr p3)"

definition image_prompt :: "(string \<times> jsval) list \<Rightarrow> string" where
  "image_prompt params =
     replaceAll ''%20'' ''+''
       (encodeURIComponent
          (to_string (if truthy (js_get (Obj params) ''prompt'')
                      then js_get (Obj params) ''prompt'' else Str '''')))"

definition image_result :: "string \<Rightarrow> jsval" where
  "image_result u = Obj [(''data'', Arr [Obj [(''url'', Str u)]])]"

text \<open>
  \<open>_defaultImageGeneration\<close>. It works on its copy; the object it was given is not
  written to, so the function returns the result and the trace only.
\<close>

definition defaultImageGeneration ::
  "'d platform \<Rightarrow> Client \<Rightarrow> (string \<times> jsval) list \<Rightarrow> request_init \<Rightarrow> trace
     \<Rightarrow> (error + jsval) \<times> trace" where
  "defaultImageGeneration pf c params requestOptions tr =
     (let prompt = image_prompt params
      in case image_query c params of
           Inl e \<Rightarrow> (Inl e, tr)
         | Inr q \<Rightarrow>
             let u = replace_first ''{prompt}'' prompt (imageEndpoint c)
                       @ ''?'' @ urlencoded (search_params q);
                 (out, tr1) = fetch (pf_net pf) u requestOptions tr
             in case out of
                  None \<Rightarrow> (Inl NetworkError, tr1)
                | Some response \<Rightarrow>
                    if \<not> ok response then (Inl (UpstreamStatus (status response)), tr1)
                    else (Inr (image_result (final_url response)), tr1))"

text \<open>\<open>Client._regularImageGeneration\<close>: \<open>{method: 'POST', body, ...requestOptions}\<close>.\<close>

definition regularImageGeneration ::
  "'d platform \<Rightarrow> Client \<Rightarrow> (string \<times> jsval) list \<Rightarrow> request_init \<Rightarrow> trace
     \<Rightarrow> (error + jsval) \<times> trace" where
  "regularImageGeneration pf c params requestOptions tr =
     (let init = \<lparr>http_method = (case http_method requestOptions of None \<Rightarrow> Some ''POST'' | Some m \<Rightarrow> Some m),
                  headers = headers requestOptions,
                  payload = (case payload requestOptions of None \<Rightarrow> Some (Obj params) | Some b \<Rightarrow> Some b)\<rparr>;
          (out, tr1) = fetch (pf_net pf) (imageEndpoint c) init tr
      in case out of
           None \<Rightarrow> (Inl NetworkError, tr1)
         | Some response \<Rightarrow>
             if \<not> ok response then (Inl (UpstreamStatus (status response)), tr1)
             else (case json_body response of
                     None \<Rightarrow> (Inl SyntaxError, tr1)
                   | Some j \<Rightarrow> (Inr j, tr1)))"

text \<open>
  \<open>Client.images.generate\<close>, with the caller's \<open>params\<close> object as the call leaves it:
  \<open>params.model = modelId\<close> is written before either path is taken.
\<close>

definition Client_images_generate ::
  "'d platform \<Rightarrow> Client \<Rightarrow> (string \<times> jsval) list \<Rightarrow> trace
     \<Rightarrow> (error + jsval) \<times> (string \<times> jsval) list \<times> trace" where
  "Client_images_generate pf c params tr =
     (let modelId = resolve_alias (modelAliases c) (js_get (Obj params) ''model'') (defaulImageModel c);
          params1 = AList.update ''model'' modelId params;
          requestOptions = \<lparr>http_method = None, headers = extraHeaders c, payload = None\<rparr>
      in if str_includes (imageEndpoint c) ''{prompt}''
         then (let (res, tr1) = defaultImageGeneration pf c params1 requestOptions tr
               in (res, params1, tr1))
         else (let (res, tr1) = regularImageGeneration pf c params1 requestOptions tr
               in (res, params1, tr1)))"

section \<open>Together\<close>

record Together = Client +
  modelsEndpoint :: string
  modelConfigs :: "(string \<times> jsval) list"
  cachedModels :: jsval

text \<open>\<open>xs[i]\<close> for an integral number \<open>i\<close>\<close>

definition js_nth_int :: "jsval list \<Rightarrow> int \<Rightarrow> jsval" where
  "js_nth_int xs i = (if 0 \<le> i \<and> i < int (length xs) then xs ! nat i else Undefined)"

text \<open>
  \<open>Together._getModel\<close>. \<open>rnd\<close> is the value \<open>Math.random()\<close> returns in this call, a
  real number in \<open>[0, 1)\<close>; the function keeps no state.
\<close>

definition Together_getModel :: "real \<Rightarrow> (string \<times> jsval) list \<Rightarrow> jsval \<Rightarrow> jsval \<Rightarrow> jsval" where
  "Together_getModel rnd aliases model dflt =
     (let model1 = (if \<not> truthy model then dflt else model)
      in if truthy (js_lookup aliases model1) then
           (case js_lookup aliases model1 of
              Arr alias \<Rightarrow> js_nth_int alias \<lfloor>rnd * real (length alias)\<rfloor>
            | alias \<Rightarrow> alias)
         else model1)"

text \<open>
  \<open>v.length\<close> of a value that is neither \<open>null\<close> nor \<open>undefined\<close>, \<open>!v\<close>, and the
  comparisons \<open>v > 0\<close> and \<open>v < 1\<close> on the values that reach them (\<open>true\<close> counts as
  1, \<open>false\<close> as 0, \<open>undefined\<close> compares false).
\<close>

fun js_length :: "jsval \<Rightarrow> jsval" where
  "js_length (Arr xs) = Num (int (length xs))"
| "js_length (Str s) = Num (int (length s))"
| "js_length v = Undefined"

definition js_not :: "jsval \<Rightarrow> jsval" where
  "js_not v = Bool (\<not> truthy v)"

fun gt_0 :: "jsval \<Rightarrow> bool" where
  "gt_0 (Num n) = (0 < n)"
| "gt_0 (Bool b) = b"
| "gt_0 v = False"

fun lt_1 :: "jsval \<Rightarrow> bool" where
  "lt_1 (Num n) = (n < 1)"
| "lt_1 (Bool b) = (\<not> b)"
| "lt_1 v = False"

text \<open>\<open>for (const model of modelsData)\<close>: the elements, or \<open>None\<close> when the value is not iterable.\<close>

fun iterate :: "jsval \<Rightarrow> jsval list option" where
  "iterate (Arr xs) = Some xs"
| "iterate (Str s) = Some (map (\<lambda>c. Str [c]) s)"
| "iterate v = None"

text \<open>The body of that loop.\<close>

definition add_config :: "jsval \<Rightarrow> (string \<times> jsval) list \<Rightarrow> (string \<times> jsval) list" where
  "add_config model configs =
     (if \<not> truthy (opt_get model ''id'') then configs
      else let modelId = to_string (js_get model ''id''); config = js_get model ''config''
           in if truthy config then
                AList.update modelId
                  (Obj [(''stop'', js_or (js_get config ''stop'') (Arr [])),
                        (''chatTemplate'', js_get config ''chat_template''),
                        (''bosToken'', js_get config ''bos_token''),
                        (''eosToken'', js_get config ''eos_token''),
                        (''contextLength'', js_get model ''context_length'')]) configs
              else AList.update modelId (Obj []) configs)"

text \<open>
  \<open>Together._loadModels\<close>. Its \<open>try\<close> block starts with \<open>await this.getApiKey()\<close>, a
  method that neither \<open>Together\<close> nor \<open>Client\<close> defines: as the classes stand the call
  is a TypeError, which the \<open>catch\<close> turns into returning the cache. \<open>getApiKey_resolves\<close>
  says whether an instance has been given such a method and it resolves; it is \<open>False\<close>
  for the classes of this repository. Every failure inside the \<open>try\<close> returns the cache.
\<close>

definition Together_loadModels ::
  "'d platform \<Rightarrow> bool \<Rightarrow> Together \<Rightarrow> trace \<Rightarrow> (error + jsval) \<times> Together \<times> trace" where
  "Together_loadModels pf getApiKey_resolves t tr =
     (if nullish (cachedModels t) then (Inl TypeError, t, tr)
      else if gt_0 (js_length (cachedModels t)) then (Inr (cachedModels t), t, tr)
      else if \<not> getApiKey_resolves then (Inr (cachedModels t), t, tr)
      else
        let (out, tr1) = fetch (pf_net pf) (modelsEndpoint t)
                           \<lparr>http_method = Some ''GET'', headers = extraHeaders t, payload = None\<rparr> tr
        in case out of
             None \<Rightarrow> (Inr (cachedModels t), t, tr1)
           | Some response \<Rightarrow>
               if \<not> ok response then (Inr (cachedModels t), t, tr1)
               else (case json_body response of
                       None \<Rightarrow> (Inr (cachedModels t), t, tr1)
                     | Some modelsData \<Rightarrow>
                         (case iterate modelsData of
                            None \<Rightarrow>
                              (Inr modelsData, t\<lparr>modelConfigs := [], cachedModels := modelsData\<rparr>, tr1)
                          | Some models \<Rightarrow>
                              (Inr modelsData,
                               t\<lparr>modelConfigs := fold add_config models [],
                                 cachedModels := modelsData\<rparr>, tr1))))"

definition getModelConfig :: "Together \<Rightarrow> jsval \<Rightarrow> jsval" where
  "getModelConfig t model = js_or (js_lookup (modelConfigs t) model) (Obj [])"

text \<open>
  \<open>Together.chat.completions.create\<close>. The condition of its first statement is
  \<open>!this._cachedModels.length < 1\<close>, that is \<open>(!length) < 1\<close>.
\<close>

definition Together_chat_create ::
  "'d platform \<Rightarrow> bool \<Rightarrow> real \<Rightarrow> Together \<Rightarrow> (string \<times> jsval) list \<Rightarrow> trace
     \<Rightarrow> (error + completion) \<times> (string \<times> jsval) list \<times> Together \<times> trace" where
  "Together_chat_create pf getApiKey_resolves rnd t params tr =
     (if nullish (cachedModels t) then (Inl TypeError, params, t, tr)
      else
        let (loaded, t1, tr1) =
              (if lt_1 (js_not (js_length (cachedModels t)))
               then Together_loadModels pf getApiKey_resolves t tr
               else (Inr Undefined, t, tr))
        in case loaded of
             Inl e \<Rightarrow> (Inl e, params, t1, tr1)
           | Inr loaded_models \<Rightarrow>
               let params1 = AList.update ''model''
                               (Together_getModel rnd (modelAliases t1)
                                  (js_get (Obj params) ''model'') (defaultModel t1)) params;
                   modelConfig = getModelConfig t1 (js_get (Obj params1) ''model'');
                   params2 =
                     (if \<not> truthy (js_get (Obj params1) ''stop'')
                         \<and> truthy (js_get modelConfig ''stop'')
                         \<and> gt_0 (js_length (js_get modelConfig ''stop''))
                      then AList.update ''stop'' (js_get modelConfig ''stop'') params1
                      else params1);
                   requestOptions =
                     \<lparr>http_method = Some ''POST'',
                      headers = AList.update ''Authorization''
                                  (Str (''Bearer '' @ to_string (apiKey t1))) (extraHeaders t1),
                      payload = Some (Obj params2)\<rparr>;
                   (out, tr2) = fetch (pf_net pf) (apiEndpoint t1) requestOptions tr1
               in case out of
                    None \<Rightarrow> (Inl NetworkError, params2, t1, tr2)
                  | Some response \<Rightarrow>
                      (complete pf (js_get (Obj params2) ''stream'') response, params2, t1, tr2))"

section \<open>HuggingFace\<close>

record HuggingFace = Client +
  providerMapping :: "(string \<times> jsval) list"

definition mapping_url :: "jsval \<Rightarrow> string" where
  "mapping_url model =
     ''https://huggingface.co/api/models/'' @ to_string model
       @ ''?expand[]=inferenceProviderMapping''"

text \<open>
  \<open>HuggingFace._getMapping\<close>: a truthy cached entry is returned as it is; otherwise the
  map is fetched and whatever \<open>modelData.inferenceProviderMapping\<close> holds is stored under
  the model id.
\<close>

definition HuggingFace_getMapping ::
  "'d platform \<Rightarrow> HuggingFace \<Rightarrow> jsval \<Rightarrow> trace \<Rightarrow> (error + jsval) \<times> HuggingFace \<times> trace" where
  "HuggingFace_getMapping pf h model tr =
     (if truthy (js_lookup (providerMapping h) model)
      then (Inr (js_lookup (providerMapping h) model), h, tr)
      else
        let (out, tr1) = fetch (pf_net pf) (mapping_url model)
                           \<lparr>http_method = None, headers = extraHeaders h, payload = None\<rparr> tr
        in case out of
             None \<Rightarrow> (Inl NetworkError, h, tr1)
           | Some response \<Rightarrow>
               if \<not> ok response then (Inl (UpstreamStatus (status response)), h, tr1)
               else (case json_body response of
                       None \<Rightarrow> (Inl SyntaxError, h, tr1)
                     | Some modelData \<Rightarrow>
                         if nullish modelData then (Inl TypeError, h, tr1)
                         else
                           let m = js_get modelData ''inferenceProviderMapping''
                           in (Inr m,
                               h\<lparr>providerMapping :=
                                    AList.update (to_string model) m (providerMapping h)\<rparr>,
                               tr1)))"

text \<open>
  The first property \<open>for (const providerKey in providerMapping)\<close> visits, with its
  value: the loop body ends in \<open>break\<close> or \<open>throw\<close>, so no other is visited.
\<close>

fun first_entry :: "jsval \<Rightarrow> (string \<times> jsval) option" where
  "first_entry (Obj kvs) = (case kvs of [] \<Rightarrow> None | kv # _ \<Rightarrow> Some kv)"
| "first_entry (Arr xs) = (case xs of [] \<Rightarrow> None | x # _ \<Rightarrow> Some (''0'', x))"
| "first_entry (Str s) = (if s = [] then None else Some (''0'', Str (take 1 s)))"
| "first_entry v = None"

definition router_base :: "string \<Rightarrow> jsval \<Rightarrow> string" where
  "router_base providerKey model =
     ''https://router.huggingface.co/''
       @ (if providerKey = ''novita'' then ''novita/v3/openai''
          else if providerKey = ''hf-inference''
               then providerKey @ ''/models/'' @ to_string model @ ''/v1''
          else providerKey @ ''/v1'')"

text \<open>
  The loop of \<open>chat.completions.create\<close> over its local \<open>providerMapping\<close>: the base URL and the model id the request will
  carry. \<open>this.apiBase\<close>, the value before the loop, is a property no class assigns.
\<close>

definition route :: "jsval \<Rightarrow> jsval \<Rightarrow> error + (string \<times> jsval)" where
  "route model mapping =
     (case first_entry mapping of
        None \<Rightarrow> Inr (to_string Undefined, model)
      | Some (providerKey, entry) \<Rightarrow>
          if nullish entry then Inl TypeError
          else if js_get entry ''task'' \<noteq> Str ''conversational''
          then Inl (ModelResolutionFailed
                 (''Model is not supported: '' @ to_string model
                    @ '' task: '' @ to_string (js_get entry ''task'')))
          else Inr (router_base providerKey model, js_get entry ''providerId''))"

definition HuggingFace_model :: "HuggingFace \<Rightarrow> (string \<times> jsval) list \<Rightarrow> jsval" where
  "HuggingFace_model h params =
     (let model = js_get (Obj params) ''model'';
          model1 = (if \<not> truthy model then defaultModel h else model)
      in if truthy (js_lookup (modelAliases h) model1)
         then js_lookup (modelAliases h) model1 else model1)"

text \<open>\<open>HuggingFace.chat.completions.create\<close>; \<open>params\<close> is only read.\<close>

definition HuggingFace_chat_create ::
  "'d platform \<Rightarrow> HuggingFace \<Rightarrow> (string \<times> jsval) list \<Rightarrow> trace
     \<Rightarrow> (error + completion) \<times> HuggingFace \<times> trace" where
  "HuggingFace_chat_create pf h params tr =
     (let options = AList.delete ''model'' params;
          model = HuggingFace_model h params;
          (found, h1, tr1) = HuggingFace_getMapping pf h model tr
      in case found of
           Inl e \<Rightarrow> (Inl e, h1, tr1)
         | Inr mapping \<Rightarrow>
             if \<not> truthy mapping
             then (Inl (ModelResolutionFailed (''Model is not supported: '' @ to_string model)),
                   h1, tr1)
             else (case route model mapping of
                     Inl e \<Rightarrow> (Inl e, h1, tr1)
                   | Inr (apiBase, model1) \<Rightarrow>
                       let requestOptions =
                             \<lparr>http_method = Some ''POST'', headers = extraHeaders h1,
                              payload = Some (Obj ((''model'', model1) # options))\<rparr>;
                           (out, tr2) = fetch (pf_net pf) (apiBase @ ''/chat/completions'')
                                          requestOptions tr1
                       in case out of
                            None \<Rightarrow> (Inl NetworkError, h1, tr2)
                          | Some response \<Rightarrow>
                              (complete pf (js_get (Obj params) ''stream'') response, h1, tr2)))"

section \<open>PollinationsAI\<close>

text \<open>
  What \<open>await Promise.all([...])\<close> delivers for one of the two fetches: the response, or
  the plain value its \<open>.catch\<close> handler returns. The two calls of
  \<open>_fetchWithProxyRotation\<close> run interleaved on one proxy manager: \<open>models_try\<close> and
  \<open>Pollinations_models_list\<close> take their outcomes, and \<open>models_list\<close> below runs the
  calls.
\<close>

datatype awaited = Fetched response | Substitute jsval

text \<open>\<open>x.json()\<close>: a plain object or array has no such method.\<close>

fun json_method :: "awaited \<Rightarrow> error + jsval" where
  "json_method (Fetched r) = (case json_body r of None \<Rightarrow> Inl SyntaxError | Some j \<Rightarrow> Inr j)"
| "json_method (Substitute v) = Inl TypeError"

fun traverse :: "('a \<Rightarrow> error + 'b) \<Rightarrow> 'a list \<Rightarrow> error + 'b list" where
  "traverse f [] = Inr []"
| "traverse f (x # xs) =
     (case f x of
        Inl e \<Rightarrow> Inl e
      | Inr y \<Rightarrow> (case traverse f xs of Inl e \<Rightarrow> Inl e | Inr ys \<Rightarrow> Inr (y # ys)))"

text \<open>
  The callback on a text model. The file is a module, hence strict: assigning a property
  to a number, string or boolean throws, as reading one of \<open>null\<close> does. The properties
  written on an array are not part of its elements, and the array is returned.
\<close>

fun tag_text_model :: "(string \<times> jsval) list \<Rightarrow> jsval \<Rightarrow> error + jsval" where
  "tag_text_model swap (Obj kvs) =
     (let kvs1 = AList.update ''id''
                   (js_or (js_get (Obj kvs) ''id'')
                      (js_or (js_lookup swap (js_get (Obj kvs) ''name'')) (js_get (Obj kvs) ''name'')))
                   kvs
      in Inr (Obj (AList.update ''type'' (js_or (js_get (Obj kvs1) ''type'') (Str ''chat'')) kvs1)))"
| "tag_text_model swap (Arr xs) = Inr (Arr xs)"
| "tag_text_model swap v = Inl TypeError"

definition tag_image_model :: "(string \<times> jsval) list \<Rightarrow> jsval \<Rightarrow> jsval" where
  "tag_image_model swap model =
     Obj [(''id'', js_or (js_lookup swap model) model), (''type'', Str ''image'')]"

definition static_fallback :: "jsval list" where
  "static_fallback =
     [Obj [(''id'', Str ''gpt-4.1-mini''), (''type'', Str ''chat'')],
      Obj [(''id'', Str ''deepseek-v3''), (''type'', Str ''chat'')],
      Obj [(''id'', Str ''flux''), (''type'', Str ''image'')],
      Obj [(''id'', Str ''gpt-image''), (''type'', Str ''image'')]]"

text \<open>The \<open>try\<close> block of \<open>PollinationsAI.models.list\<close>.\<close>

definition models_try :: "Client \<Rightarrow> error + response \<Rightarrow> error + response \<Rightarrow> error + jsval list" where
  "models_try c text_fetch image_fetch =
     (let textModelsResponse =
            (case text_fetch of Inr r \<Rightarrow> Fetched r | Inl e \<Rightarrow> Substitute (Obj [(''data'', Arr [])]));
          imageModelsResponse =
            (case image_fetch of Inr r \<Rightarrow> Fetched r | Inl e \<Rightarrow> Substitute (Arr []))
      in case json_method textModelsResponse of
           Inl e \<Rightarrow> Inl e
         | Inr t \<Rightarrow>
             (case json_method imageModelsResponse of
                Inl e \<Rightarrow> Inl e
              | Inr i \<Rightarrow>
                  if nullish t then Inl TypeError
                  else (case js_or (js_get t ''data'') (js_or t (Arr [])) of
                          Arr textModels \<Rightarrow>
                            (case traverse (tag_text_model (swapAliases c)) textModels of
                               Inl e \<Rightarrow> Inl e
                             | Inr tagged \<Rightarrow>
                                 (case i of
                                    Arr imageModels \<Rightarrow>
                                      Inr (tagged @ map (tag_image_model (swapAliases c)) imageModels)
                                  | _ \<Rightarrow> Inl TypeError))
                        | _ \<Rightarrow> Inl TypeError)))"

text \<open>
  \<open>PollinationsAI.models.list\<close>, from the outcomes of the two fetches: the list returned and
  the client with its cache. The \<open>catch\<close> returns the static catalog for any error.
\<close>

definition Pollinations_models_list ::
  "Client \<Rightarrow> error + response \<Rightarrow> error + response \<Rightarrow> (error + jsval list) \<times> Client" where
  "Pollinations_models_list c text_fetch image_fetch =
     (if 0 < length (cached_models c) then (Inr (cached_models c), c)
      else (case models_try c text_fetch image_fetch of
              Inl err \<Rightarrow> (Inr static_fallback, c)
            | Inr models \<Rightarrow> (Inr models, c\<lparr>cached_models := models\<rparr>)))"

text \<open>
  \<open>models.list\<close> on a client with no other call in flight: with an empty cache the two
  calls are made one after the other with the default \<open>requestConfig\<close>, their fetches
  settle as the schedule says, and the outcomes go to the \<open>try\<close> block.
\<close>

definition models_list ::
  "network \<Rightarrow> nat list \<Rightarrow> Client \<Rightarrow> trace \<Rightarrow> (error + jsval list) \<times> Client \<times> trace" where
  "models_list net sched c tr =
     (if 0 < length (cached_models c) then (Inr (cached_models c), c, tr)
      else
        let cfg = \<lparr>http_method = None, headers = [], payload = None\<rparr>;
            st1 = fetchWithProxyRotation net ''https://text.pollinations.ai/models'' cfg
                    ([], proxyManager c, tr);
            st2 = fetchWithProxyRotation net ''https://image.pollinations.ai/models'' cfg st1
        in case await_all net sched st2 of
             (rs, pm1, tr1) \<Rightarrow>
               (case Pollinations_models_list (c\<lparr>proxyManager := pm1\<rparr>) (rs ! 0) (rs ! 1) of
                  (res, c1) \<Rightarrow> (res, c1, tr1)))"

section \<open>Concrete inputs\<close>

text \<open>Inputs at which the theorems below are evaluated.\<close>

definition test_pm :: CorsProxyManager where
  "test_pm = \<lparr>proxies = [''https://p1/?'', ''https://p2/?''], currentIndex = 0\<rparr>"

definition test_init :: request_init where
  "test_init = \<lparr>http_method = None, headers = [], payload = None\<rparr>"

definition test_response :: "nat \<Rightarrow> string option \<Rightarrow> response" where
  "test_response st ct =
     \<lparr>status = st, content_type = ct, final_url = [], json_body = None, body = None\<rparr>"

definition test_net :: network where
  "test_net tr u init =
     (if prefix ''https://p1/?'' u then Some (test_response 500 None)
      else Some (test_response 200 (Some ''application/json'')))"

text \<open>
  A network on which the first proxy fails for the image catalog only, one that answers
  200 with an empty Content-Type value, and a manager whose list names one proxy twice.
\<close>

definition half_net :: network where
  "half_net tr u init =
     (if u = ''https://p1/?https%3A%2F%2Fimage.pollinations.ai%2Fmodels''
      then Some (test_response 500 None)
      else Some (test_response 200 (Some ''application/json'')))"

definition untyped_net :: network where
  "untyped_net tr u init = Some (test_response 200 (Some ''''))"

definition twin_pm :: CorsProxyManager where
  "twin_pm = \<lparr>proxies = [''https://p1/?'', ''https://p1/?''], currentIndex = 0\<rparr>"

text \<open>A decoder for ASCII input, and the bytes of an ASCII text.\<close>

definition ascii_dec :: "unit \<Rightarrow> 8 word \<Rightarrow> unit \<times> string" where
  "ascii_dec d b = (d, [char_of (unat b)])"

definition bytes :: "string \<Rightarrow> 8 word list" where
  "bytes s = map (\<lambda>c. of_nat (of_char c)) s"

definition stream_response :: "8 word list list \<Rightarrow> response" where
  "stream_response chunks =
     \<lparr>status = 200, content_type = None, final_url = [], json_body = None, body = Some chunks\<rparr>"

text \<open>
  A finite part of \<open>JSON.parse\<close>: the payloads the examples use; any other text is
  rejected.
\<close>

definition reasoning_payload :: string where
  "reasoning_payload = ''{\"choices\":[{\"delta\":{\"reasoning\":\"x\"}}]}''"

definition reasoning_event :: "jsval \<Rightarrow> jsval" where
  "reasoning_event r = Obj [(''choices'', Arr [Obj [(''delta'', Obj [(''reasoning'', r)])]])]"

definition empty_reasoning_payload :: string where
  "empty_reasoning_payload = ''{\"choices\":[{\"delta\":{\"reasoning\":\"\"}}]}''"

definition test_parse :: "string \<Rightarrow> jsval option" where
  "test_parse = map_of
     [(''1'', Num 1), (''2'', Num 2), (''null'', Null),
      (reasoning_payload, reasoning_event (Str ''x'')),
      (empty_reasoning_payload, reasoning_event (Str ''''))]"

definition noisy_stream :: string where
  "noisy_stream = ''event: ping\<newline>\<newline>data: 1\<newline>data: {oops\<newline>data: [DONE]\<newline>data: 2\<newline>data: 1''"

text \<open>An alias table with a single-string entry, a sequence, and two degenerate entries.\<close>

definition test_aliases :: "(string \<times> jsval) list" where
  "test_aliases =
     [(''llama-3.2-3b'', Str ''meta-llama/Llama-3.2-3B-Instruct-Turbo''),
      (''llama-3-70b'', Arr [Str ''meta-llama/Meta-Llama-3-70B-Instruct-Turbo'',
                             Str ''meta-llama/Llama-3-70b-chat-hf'']),
      (''none'', Arr []),
      (''blank'', Str '''')]"

text \<open>
  A client configured like \<open>PollinationsAI\<close> (with two of its aliases), a network on
  which the first proxy is down and the second serves both catalogs, a fresh
  \<open>Together\<close> adapter with a key, and a network on which the Together catalog has a
  model with a stop list.
\<close>

definition json_response :: "nat \<Rightarrow> jsval \<Rightarrow> response" where
  "json_response st j =
     \<lparr>status = st, content_type = Some ''application/json'', final_url = [],
      json_body = Some j, body = None\<rparr>"

definition test_client :: Client where
  "test_client =
     \<lparr>proxyManager = test_pm,
      baseUrl = ''https://text.pollinations.ai'',
      apiEndpoint = ''https://text.pollinations.ai/openai'',
      imageEndpoint = ''https://image.pollinations.ai/prompt/{prompt}'',
      defaultModel = Str ''gpt-oss'',
      defaulImageModel = Str ''flux'',
      apiKey = Undefined,
      referrer = Str ''https://g4f.dev'',
      extraHeaders = [(''Content-Type'', Str ''application/json'')],
      modelAliases = [(''deepseek-v3'', Str ''deepseek''), (''sdxl-turbo'', Str ''turbo'')],
      swapAliases = make_swapAliases [(''deepseek-v3'', Str ''deepseek''), (''sdxl-turbo'', Str ''turbo'')],
      cached_models = []\<rparr>"

definition backup_net :: network where
  "backup_net tr u init =
     (if prefix ''https://p1/?'' u then Some (test_response 500 None)
      else if u = ''https://p2/?https%3A%2F%2Fimage.pollinations.ai%2Fmodels''
      then Some (json_response 200 (Arr [Str ''flux'', Str ''turbo'']))
      else Some (json_response 200 (Arr [Obj [(''name'', Str ''deepseek'')]])))"

definition test_together :: Together where
  "test_together =
     \<lparr>proxyManager = test_pm,
      baseUrl = ''https://api.together.xyz/v1'',
      apiEndpoint = ''https://api.together.xyz/v1/chat/completions'',
      imageEndpoint = ''https://api.together.xyz/v1/images/generations'',
      defaultModel = Str ''meta-llama/Llama-4-Maverick-17B-128E-Instruct-FP8'',
      defaulImageModel = Str ''flux'',
      apiKey = Str ''k'',
      referrer = Undefined,
      extraHeaders = [(''Content-Type'', Str ''application/json''), (''Authorization'', Str ''Bearer k'')],
      modelAliases = [(''deepseek-r1'', Str ''deepseek-ai/DeepSeek-R1'')],
      swapAliases = [(''deepseek-ai/DeepSeek-R1'', Str ''deepseek-r1'')],
      cached_models = [],
      modelsEndpoint = ''https://api.together.xyz/v1/models'',
      modelConfigs = [],
      cachedModels = Arr []\<rparr>"

definition test_catalog :: jsval where
  "test_catalog =
     Arr [Obj [(''id'', Str ''deepseek-ai/DeepSeek-R1''),
               (''config'', Obj [(''stop'', Arr [Str ''</s>''])])]]"

definition catalog_net :: network where
  "catalog_net tr u init =
     (if u = ''https://api.together.xyz/v1/models'' then Some (json_response 200 test_catalog)
      else Some (json_response 200 (Obj [(''choices'', Arr [])])))"

definition test_pf :: "network \<Rightarrow> unit platform" where
  "test_pf n = \<lparr>pf_net = n, pf_dec = ascii_dec, pf_dec0 = (), pf_parse = test_parse\<rparr>"

text \<open>
  A \<open>HuggingFace\<close> adapter as constructed, with its one static mapping, and a network on
  which the model data carries no provider mapping.
\<close>

definition test_hf :: HuggingFace where
  "test_hf =
     \<lparr>proxyManager = test_pm,
      baseUrl = ''https://api-inference.huggingface.co/v1'',
      apiEndpoint = ''https://api-inference.huggingface.co/v1/chat/completions'',
      imageEndpoint = ''https://api-inference.huggingface.co/v1/images/generations'',
      defaultModel = Str ''meta-llama/Meta-Llama-3-8B-Instruct'',
      defaulImageModel = Str ''flux'',
      apiKey = Str ''k'',
      referrer = Undefined,
      extraHeaders = [(''Content-Type'', Str ''application/json''), (''Authorization'', Str ''Bearer k'')],
      modelAliases = [(''gemma-3-27b'', Str ''google/gemma-3-27b-it'')],
      swapAliases = [(''google/gemma-3-27b-it'', Str ''gemma-3-27b'')],
      cached_models = [],
      providerMapping =
        [(''google/gemma-3-27b-it'',
          Obj [(''hf-inference/models/google/gemma-3-27b-it'',
                Obj [(''task'', Str ''conversational''),
                     (''providerId'', Str ''google/gemma-3-27b-it'')])])]\<rparr>"

definition nomap_net :: network where
  "nomap_net tr u init = Some (json_response 200 (Obj [(''id'', Str ''x/y'')]))"

definition hf_headers :: request_init where
  "hf_headers =
     \<lparr>http_method = None,
      headers = [(''Content-Type'', Str ''application/json''), (''Authorization'', Str ''Bearer k'')],
      payload = None\<rparr>"

text \<open>
  An image server that answers 200 at the URL it was asked for, and the parameters of the
  specification's image scenario.
\<close>

definition image_net :: network where
  "image_net tr u init =
     Some \<lparr>status = 200, content_type = Some ''image/jpeg'', final_url = u,
           json_body = None, body = None\<rparr>"

definition cat_params :: "(string \<times> jsval) list" where
  "cat_params = [(''model'', Str ''flux''), (''prompt'', Str ''a cat''), (''size'', Str ''512x512'')]"

text \<open>A server that answers 500, and a network on which every fetch is rejected.\<close>

definition failing_net :: network where
  "failing_net tr u init = Some (test_response 500 None)"

definition rejecting_net :: network where
  "rejecting_net tr u init = None"

section \<open>Proxy rotation: proofs\<close>

lemma attempt_slot_rotate:
  "attempt_slot (rotateProxy pm) j = attempt_slot pm (Suc j)"
  by (simp add: attempt_slot_def rotateProxy_def mod_add_left_eq)

lemma attempt_url_rotate:
  "attempt_url (rotateProxy pm) t j = attempt_url pm t (Suc j)"
  using attempt_slot_rotate [of pm j]
  by (simp add: attempt_url_def rotateProxy_def)

lemma getProxiedUrl_attempt:
  "currentIndex pm < length (proxies pm) \<Longrightarrow> getProxiedUrl pm t = attempt_url pm t 0"
  by (simp add: getProxiedUrl_def attempt_url_def attempt_slot_def)

lemma attempt_trace_rotate:
  "attempt_trace (rotateProxy pm) t cfg (tr @ [(attempt_url pm t 0, cfg)]) j
     = attempt_trace pm t cfg tr (Suc j)"
proof -
  have "map (\<lambda>i. (attempt_url pm t i, cfg)) [0..<Suc j]
          = (attempt_url pm t 0, cfg) # map (\<lambda>i. (attempt_url pm t (Suc i), cfg)) [0..<j]"
    by (simp only: upt_conv_Cons [of 0 "Suc j"] map_Suc_upt [symmetric]) (simp add: comp_def)
  then show ?thesis
    by (simp add: attempt_trace_def attempt_url_rotate)
qed

lemma attempt_result_rotate:
  "attempt_result net (rotateProxy pm) t cfg (tr @ [(attempt_url pm t 0, cfg)]) j
     = attempt_result net pm t cfg tr (Suc j)"
  by (simp add: attempt_result_def attempt_trace_rotate attempt_url_rotate)

lemma rotate_in_range:
  assumes "currentIndex pm < length (proxies pm)"
  shows "currentIndex (rotateProxy pm) < length (proxies (rotateProxy pm))"
proof -
  have "0 < length (proxies pm)" using assms by linarith
  then have "Suc (currentIndex pm) mod length (proxies pm) < length (proxies pm)"
    by (rule mod_less_divisor)
  then show ?thesis by (simp add: rotateProxy_def)
qed

lemma rotate_index_shift:
  "(rotateProxy pm)\<lparr>currentIndex := attempt_slot (rotateProxy pm) j\<rparr>
     = pm\<lparr>currentIndex := attempt_slot pm (Suc j)\<rparr>"
  using attempt_slot_rotate [of pm j] by (simp add: rotateProxy_def)

lemma uninterrupted_round:
  "uninterrupted net t cfg m a pm tr =
     (if a < m then
        (case proxy_try (net tr (getProxiedUrl pm t) cfg) of
           Inr r \<Rightarrow> (Inr r, pm, tr @ [(getProxiedUrl pm t, cfg)])
         | Inl e \<Rightarrow> uninterrupted net t cfg m (Suc a) (rotateProxy pm) (tr @ [(getProxiedUrl pm t, cfg)]))
      else (Inl (ProxyExhausted t), pm, tr))"
  by (simp add: uninterrupted_def loop_head_def fetch_def Let_def split: sum.splits)

lemma uninterrupted_all_fail:
  "currentIndex pm < length (proxies pm) \<Longrightarrow>
   (\<forall>j<k. attempt_failed net pm t cfg tr j) \<Longrightarrow> a + k = m \<Longrightarrow>
   uninterrupted net t cfg m a pm tr
     = (Inl (ProxyExhausted t), pm\<lparr>currentIndex := attempt_slot pm k\<rparr>, attempt_trace pm t cfg tr k)"
proof (induction k arbitrary: a pm tr)
  case 0
  then have "\<not> a < m" by simp
  then show ?case
    using 0(1) by (subst uninterrupted_round) (simp add: attempt_slot_def attempt_trace_def)
next
  case (Suc k)
  from Suc.prems have f0: "attempt_failed net pm t cfg tr 0" by simp
  then obtain e where e: "proxy_try (net tr (attempt_url pm t 0) cfg) = Inl e"
    by (cases "proxy_try (net tr (attempt_url pm t 0) cfg)")
       (simp_all add: attempt_failed_def attempt_result_def attempt_trace_def)
  have rest: "\<forall>j<k. attempt_failed net (rotateProxy pm) t cfg (tr @ [(attempt_url pm t 0, cfg)]) j"
    using Suc.prems(2) by (simp add: attempt_failed_def attempt_result_rotate)
  have am: "a < m" "Suc a + k = m" using Suc.prems(3) by simp_all
  have "uninterrupted net t cfg m a pm tr
          = uninterrupted net t cfg m (Suc a) (rotateProxy pm) (tr @ [(attempt_url pm t 0, cfg)])"
    using e Suc.prems(1) am(1)
    by (simp add: uninterrupted_round [of net t cfg m a] getProxiedUrl_attempt)
  also have "\<dots> = (Inl (ProxyExhausted t),
                    (rotateProxy pm)\<lparr>currentIndex := attempt_slot (rotateProxy pm) k\<rparr>,
                    attempt_trace (rotateProxy pm) t cfg (tr @ [(attempt_url pm t 0, cfg)]) k)"
    using Suc.IH [OF rotate_in_range [OF Suc.prems(1)] rest am(2)] .
  finally show ?case
    by (simp add: rotate_index_shift attempt_trace_rotate)
qed

lemma uninterrupted_first_success:
  "currentIndex pm < length (proxies pm) \<Longrightarrow> a + j < m \<Longrightarrow>
   (\<forall>i<j. attempt_failed net pm t cfg tr i) \<Longrightarrow>
   attempt_result net pm t cfg tr j = Inr r \<Longrightarrow>
   uninterrupted net t cfg m a pm tr
     = (Inr r, pm\<lparr>currentIndex := attempt_slot pm j\<rparr>, attempt_trace pm t cfg tr (Suc j))"
proof (induction j arbitrary: a pm tr)
  case 0
  then have "proxy_try (net tr (attempt_url pm t 0) cfg) = Inr r"
    by (simp add: attempt_result_def attempt_trace_def)
  with 0 show ?case
    by (simp add: uninterrupted_round [of net t cfg m a] getProxiedUrl_attempt
        attempt_slot_def attempt_trace_def)
next
  case (Suc j')
  then have f0: "attempt_failed net pm t cfg tr 0" by simp
  then obtain e where e: "proxy_try (net tr (attempt_url pm t 0) cfg) = Inl e"
    by (cases "proxy_try (net tr (attempt_url pm t 0) cfg)")
       (simp_all add: attempt_failed_def attempt_result_def attempt_trace_def)
  have rest: "\<forall>i<j'. attempt_failed net (rotateProxy pm) t cfg (tr @ [(attempt_url pm t 0, cfg)]) i"
    using Suc.prems(3) by (simp add: attempt_failed_def attempt_result_rotate)
  have succ: "attempt_result net (rotateProxy pm) t cfg (tr @ [(attempt_url pm t 0, cfg)]) j' = Inr r"
    using Suc.prems(4) by (simp add: attempt_result_rotate)
  have am: "a < m" "Suc a + j' < m" using Suc.prems(2) by simp_all
  have "uninterrupted net t cfg m a pm tr
          = uninterrupted net t cfg m (Suc a) (rotateProxy pm) (tr @ [(attempt_url pm t 0, cfg)])"
    using e Suc.prems(1) am(1)
    by (simp add: uninterrupted_round [of net t cfg m a] getProxiedUrl_attempt)
  also have "\<dots> = (Inr r, (rotateProxy pm)\<lparr>currentIndex := attempt_slot (rotateProxy pm) j'\<rparr>,
                    attempt_trace (rotateProxy pm) t cfg (tr @ [(attempt_url pm t 0, cfg)]) (Suc j'))"
    using Suc.IH [OF rotate_in_range [OF Suc.prems(1)] am(2) rest succ] .
  finally show ?case
    by (simp add: rotate_index_shift attempt_trace_rotate)
qed

lemma await_call_resume:
  "(case resume net c pm tr of (c1, pm1, tr1) \<Rightarrow> await_call net c1 pm1 tr1) = await_call net c pm tr"
  by (cases c) simp_all

lemma quiet_resume:
  "quiet c \<Longrightarrow> \<exists>res. resume net c pm tr = (Settled res, pm, tr)"
  by (cases c) (auto split: sum.splits)

lemma quiet_await:
  "quiet c \<Longrightarrow> snd (await_call net c pm tr) = (pm, tr)"
  by (cases c) (auto split: sum.splits)

lemma await_rest_quiet:
  "\<forall>c\<in>set cs. quiet c \<Longrightarrow>
   length (fst (await_rest net cs pm tr)) = length cs \<and> snd (await_rest net cs pm tr) = (pm, tr)"
proof (induction cs)
  case Nil
  then show ?case by simp
next
  case (Cons c cs)
  obtain res where r: "await_call net c pm tr = (res, pm, tr)"
    using quiet_await [of c net pm tr] Cons.prems by (cases "await_call net c pm tr") simp
  show ?case using Cons r by (auto split: prod.splits)
qed

lemma await_rest_one:
  "n < length cs \<Longrightarrow> \<forall>i<length cs. i \<noteq> n \<longrightarrow> quiet (cs ! i) \<Longrightarrow>
   length (fst (await_rest net cs pm tr)) = length cs
   \<and> (fst (await_rest net cs pm tr) ! n, snd (await_rest net cs pm tr)) = await_call net (cs ! n) pm tr"
proof (induction cs arbitrary: n)
  case Nil
  then show ?case by simp
next
  case (Cons c cs)
  show ?case
  proof (cases n)
    case 0
    have q: "\<forall>c\<in>set cs. quiet c"
    proof
      fix x assume "x \<in> set cs"
      then obtain i where "i < length cs" "cs ! i = x" by (auto simp: in_set_conv_nth)
      then show "quiet x" using Cons.prems(2) [rule_format, of "Suc i"] 0 by simp
    qed
    obtain res pm1 tr1 where r: "await_call net c pm tr = (res, pm1, tr1)"
      by (cases "await_call net c pm tr") auto
    from await_rest_quiet [OF q, of net pm1 tr1] show ?thesis
      using 0 r by (auto split: prod.splits)
  next
    case (Suc n')
    have qc: "quiet c" using Cons.prems(2) [rule_format, of 0] Suc by simp
    obtain res where r: "await_call net c pm tr = (res, pm, tr)"
      using quiet_await [OF qc, of net pm tr] by (cases "await_call net c pm tr") simp
    have n': "n' < length cs" using Cons.prems(1) Suc by simp
    have q: "\<forall>i<length cs. i \<noteq> n' \<longrightarrow> quiet (cs ! i)"
    proof (intro allI impI)
      fix i assume "i < length cs" "i \<noteq> n'"
      then show "quiet (cs ! i)" using Cons.prems(2) [rule_format, of "Suc i"] Suc by simp
    qed
    from Cons.IH [OF n' q] show ?thesis
      using Suc r by (auto split: prod.splits)
  qed
qed

lemma settle_one:
  assumes "n < length cs" "\<forall>i<length cs. i \<noteq> n \<longrightarrow> quiet (cs ! i)"
  shows "\<exists>cs1 pm1 tr1. settle net i (cs, pm, tr) = (cs1, pm1, tr1) \<and> length cs1 = length cs
           \<and> (\<forall>i<length cs1. i \<noteq> n \<longrightarrow> quiet (cs1 ! i))
           \<and> await_call net (cs1 ! n) pm1 tr1 = await_call net (cs ! n) pm tr"
proof (cases "i < length cs")
  case False
  then show ?thesis using assms by (simp add: settle_def)
next
  case True
  show ?thesis
  proof (cases "i = n")
    case True
    obtain c pm1 tr1 where r: "resume net (cs ! n) pm tr = (c, pm1, tr1)"
      by (cases "resume net (cs ! n) pm tr") auto
    have "await_call net c pm1 tr1 = await_call net (cs ! n) pm tr"
      using await_call_resume [of net "cs ! n" pm tr] r by simp
    then show ?thesis using assms True r by (simp add: settle_def)
  next
    case False
    then have "quiet (cs ! i)" using assms(2) True by simp
    then obtain res where r: "resume net (cs ! i) pm tr = (Settled res, pm, tr)"
      using quiet_resume by blast
    show ?thesis using assms True False r by (simp add: settle_def nth_list_update)
  qed
qed

lemma run_one:
  "n < length cs \<Longrightarrow> \<forall>i<length cs. i \<noteq> n \<longrightarrow> quiet (cs ! i) \<Longrightarrow>
   \<exists>cs1 pm1 tr1. run net sched (cs, pm, tr) = (cs1, pm1, tr1) \<and> length cs1 = length cs
           \<and> (\<forall>i<length cs1. i \<noteq> n \<longrightarrow> quiet (cs1 ! i))
           \<and> await_call net (cs1 ! n) pm1 tr1 = await_call net (cs ! n) pm tr"
proof (induction sched arbitrary: cs pm tr)
  case Nil
  then show ?case by (simp add: run_def)
next
  case (Cons i sched)
  from settle_one [OF Cons.prems, of net i pm tr] obtain cs1 pm1 tr1 where
    s: "settle net i (cs, pm, tr) = (cs1, pm1, tr1)" "length cs1 = length cs"
       "\<forall>i<length cs1. i \<noteq> n \<longrightarrow> quiet (cs1 ! i)"
       "await_call net (cs1 ! n) pm1 tr1 = await_call net (cs ! n) pm tr"
    by blast
  have n1: "n < length cs1" using Cons.prems(1) s(2) by simp
  from Cons.IH [OF n1 s(3), of pm1 tr1] obtain cs2 pm2 tr2 where
    r: "run net sched (cs1, pm1, tr1) = (cs2, pm2, tr2)" "length cs2 = length cs1"
       "\<forall>i<length cs2. i \<noteq> n \<longrightarrow> quiet (cs2 ! i)"
       "await_call net (cs2 ! n) pm2 tr2 = await_call net (cs1 ! n) pm1 tr1"
    by blast
  have "run net (i # sched) (cs, pm, tr) = (cs2, pm2, tr2)"
    using s(1) r(1) by (simp add: run_def)
  then show ?case using r s by simp
qed

lemma await_all_one:
  assumes "n < length cs" "\<forall>i<length cs. i \<noteq> n \<longrightarrow> quiet (cs ! i)"
  shows "length (fst (await_all net sched (cs, pm, tr))) = length cs
   \<and> (fst (await_all net sched (cs, pm, tr)) ! n, snd (await_all net sched (cs, pm, tr)))
        = await_call net (cs ! n) pm tr"
proof -
  from run_one [OF assms, of net sched pm tr] obtain cs1 pm1 tr1 where
    r: "run net sched (cs, pm, tr) = (cs1, pm1, tr1)" "length cs1 = length cs"
       "\<forall>i<length cs1. i \<noteq> n \<longrightarrow> quiet (cs1 ! i)"
       "await_call net (cs1 ! n) pm1 tr1 = await_call net (cs ! n) pm tr"
    by blast
  have n1: "n < length cs1" using assms(1) r(2) by simp
  from await_rest_one [OF n1 r(3), of net pm1 tr1] show ?thesis
    using r by (simp add: await_all_def)
qed

lemma call_among_quiet:
  assumes "\<forall>c\<in>set cs. quiet c"
  shows "length (fst (await_all net sched (fetchWithProxyRotation net t cfg (cs, pm, tr)))) = Suc (length cs)
   \<and> (fst (await_all net sched (fetchWithProxyRotation net t cfg (cs, pm, tr))) ! length cs,
      snd (await_all net sched (fetchWithProxyRotation net t cfg (cs, pm, tr))))
        = uninterrupted net t cfg (length (proxies pm)) 0 pm tr"
proof -
  obtain c pm1 tr1 where l: "loop_head net t cfg (length (proxies pm)) 0 pm tr = (c, pm1, tr1)"
    by (cases "loop_head net t cfg (length (proxies pm)) 0 pm tr") auto
  have f: "fetchWithProxyRotation net t cfg (cs, pm, tr) = (cs @ [c], pm1, tr1)"
    using l by (simp add: fetchWithProxyRotation_def)
  have n: "length cs < length (cs @ [c])" by simp
  have q: "\<forall>i<length (cs @ [c]). i \<noteq> length cs \<longrightarrow> quiet ((cs @ [c]) ! i)"
    using assms by (auto simp: nth_append)
  from await_all_one [OF n q, of net sched pm1 tr1] show ?thesis
    using f l by (simp add: uninterrupted_def)
qed

lemma slots_differ:
  assumes "i < length (proxies pm)" "j < length (proxies pm)" "i \<noteq> j"
  shows "attempt_slot pm i \<noteq> attempt_slot pm j"
proof -
  let ?n = "length (proxies pm)"
  have aux: "(currentIndex pm + a) mod ?n \<noteq> (currentIndex pm + b) mod ?n"
    if "a < b" "b < ?n" for a b
  proof
    assume "(currentIndex pm + a) mod ?n = (currentIndex pm + b) mod ?n"
    then have "(currentIndex pm + b) mod ?n = (currentIndex pm + a) mod ?n" by simp
    moreover have "currentIndex pm + a \<le> currentIndex pm + b" using that by simp
    ultimately have "?n dvd (currentIndex pm + b) - (currentIndex pm + a)"
      by (simp only: mod_eq_dvd_iff_nat)
    then have "?n dvd b - a" by simp
    moreover have "0 < b - a" "b - a < ?n" using that by simp_all
    ultimately show False using nat_dvd_not_less by blast
  qed
  show ?thesis
  proof (cases "i < j")
    case True
    then show ?thesis using aux [of i j] assms by (simp add: attempt_slot_def)
  next
    case False
    then have "j < i" using assms(3) by simp
    then show ?thesis using aux [of j i] assms by (simp add: attempt_slot_def)
  qed
qed

lemma slot_in_range: "0 < length (proxies pm) \<Longrightarrow> attempt_slot pm j < length (proxies pm)"
  by (simp add: attempt_slot_def)

lemma proxies_differ:
  assumes "distinct (proxies pm)" "i < length (proxies pm)" "j < length (proxies pm)" "i \<noteq> j"
  shows "proxies pm ! attempt_slot pm i \<noteq> proxies pm ! attempt_slot pm j"
proof -
  have n: "0 < length (proxies pm)" using assms(2) by linarith
  show ?thesis
    using slots_differ [OF assms(2,3,4)] slot_in_range [OF n] assms(1)
    by (simp add: nth_eq_iff_index_eq)
qed

lemma urls_differ:
  assumes "distinct (proxies pm)" "i < length (proxies pm)" "j < length (proxies pm)" "i \<noteq> j"
  shows "attempt_url pm t i \<noteq> attempt_url pm t j"
  using proxies_differ [OF assms] by (simp add: attempt_url_def)

text \<open>Every call made has an outcome, whatever the schedule.\<close>

lemma settle_length: "length (fst (settle net i st)) = length (fst st)"
  by (cases st) (simp add: settle_def split: prod.splits)

lemma run_length: "length (fst (run net sched st)) = length (fst st)"
proof (induction sched arbitrary: st)
  case Nil
  then show ?case by (simp add: run_def)
next
  case (Cons i sched)
  have "run net (i # sched) st = run net sched (settle net i st)" by (simp add: run_def)
  then show ?case using Cons.IH [of "settle net i st"] by (simp add: settle_length)
qed

lemma await_rest_length: "length (fst (await_rest net cs pm tr)) = length cs"
proof (induction cs arbitrary: pm tr)
  case Nil
  then show ?case by simp
next
  case (Cons c cs)
  obtain res pm1 tr1 where r: "await_call net c pm tr = (res, pm1, tr1)"
    by (cases "await_call net c pm tr") auto
  show ?case using Cons.IH [of pm1 tr1] r by (auto split: prod.splits)
qed

lemma await_all_length: "length (fst (await_all net sched st)) = length (fst st)"
  using run_length [of net sched st]
  by (cases "run net sched st") (simp add: await_all_def await_rest_length)

lemma models_list_outcomes:
  "length (fst (await_all net sched
      (fetchWithProxyRotation net t2 cfg2 (fetchWithProxyRotation net t1 cfg1 ([], pm, tr))))) = 2"
  by (simp add: await_all_length fetchWithProxyRotation_def split: prod.splits)

text \<open>
  The index of a manager stays within its list: it does so after the constructor, and
  every step of every call keeps it so and leaves the list as it is, whatever the order
  in which the calls run.
\<close>

lemma new_manager_in_range:
  "new_CorsProxyManager ps = Inr pm \<Longrightarrow> currentIndex pm < length (proxies pm)"
  by (auto simp: new_CorsProxyManager_def split: if_splits)

lemma loop_head_manager: "fst (snd (loop_head net t cfg m a pm tr)) = pm"
  by (simp add: loop_head_def fetch_def Let_def)

lemma resume_in_range:
  assumes "currentIndex pm < length (proxies pm)"
  shows "proxies (fst (snd (resume net c pm tr))) = proxies pm
         \<and> currentIndex (fst (snd (resume net c pm tr))) < length (proxies pm)"
proof (cases c)
  case (Settled res)
  then show ?thesis using assms by simp
next
  case (Awaiting t cfg m a out)
  have r: "proxies (rotateProxy pm) = proxies pm" by (simp add: rotateProxy_def)
  show ?thesis
    using Awaiting assms rotate_in_range [OF assms]
    by (simp add: loop_head_manager r split: sum.splits)
qed

lemma settle_in_range:
  assumes "currentIndex (fst (snd st)) < length (proxies (fst (snd st)))"
  shows "proxies (fst (snd (settle net i st))) = proxies (fst (snd st))
         \<and> currentIndex (fst (snd (settle net i st))) < length (proxies (fst (snd st)))"
proof -
  obtain cs pm tr where st: "st = (cs, pm, tr)" by (cases st) auto
  have pm: "currentIndex pm < length (proxies pm)" using assms st by simp
  show ?thesis
    using resume_in_range [OF pm, of net "cs ! i" tr] pm st
    by (auto simp: settle_def split: prod.splits)
qed

lemma run_in_range:
  "currentIndex (fst (snd st)) < length (proxies (fst (snd st))) \<Longrightarrow>
   proxies (fst (snd (run net sched st))) = proxies (fst (snd st))
   \<and> currentIndex (fst (snd (run net sched st))) < length (proxies (fst (snd st)))"
proof (induction sched arbitrary: st)
  case Nil
  then show ?case by (simp add: run_def)
next
  case (Cons i sched)
  note s = settle_in_range [OF Cons.prems, of net i]
  have "currentIndex (fst (snd (settle net i st))) < length (proxies (fst (snd (settle net i st))))"
    using s by simp
  from Cons.IH [OF this] show ?case using s by (simp add: run_def)
qed

lemma await_call_in_range:
  "currentIndex pm < length (proxies pm) \<Longrightarrow>
   proxies (fst (snd (await_call net c pm tr))) = proxies pm
   \<and> currentIndex (fst (snd (await_call net c pm tr))) < length (proxies pm)"
proof (induction net c pm tr rule: await_call.induct)
  case (1 net res pm tr)
  then show ?case by simp
next
  case (2 net t cfg m a out pm tr)
  obtain c1 pm1 tr1 where r: "resume net (Awaiting t cfg m a out) pm tr = (c1, pm1, tr1)"
    by (cases "resume net (Awaiting t cfg m a out) pm tr") auto
  have p: "proxies pm1 = proxies pm" "currentIndex pm1 < length (proxies pm)"
    using resume_in_range [OF "2.prems", of net "Awaiting t cfg m a out" tr] r by simp_all
  have "currentIndex pm1 < length (proxies pm1)" using p by simp
  from "2.IH" [OF r [symmetric] refl this] show ?case
    using r p by simp
qed

lemma await_rest_in_range:
  "currentIndex pm < length (proxies pm) \<Longrightarrow>
   proxies (fst (snd (await_rest net cs pm tr))) = proxies pm
   \<and> currentIndex (fst (snd (await_rest net cs pm tr))) < length (proxies pm)"
proof (induction cs arbitrary: pm tr)
  case Nil
  then show ?case by simp
next
  case (Cons c cs)
  obtain res pm1 tr1 where r: "await_call net c pm tr = (res, pm1, tr1)"
    by (cases "await_call net c pm tr") auto
  have p: "proxies pm1 = proxies pm" "currentIndex pm1 < length (proxies pm)"
    using await_call_in_range [OF Cons.prems, of net c tr] r by simp_all
  have "currentIndex pm1 < length (proxies pm1)" using p by simp
  from Cons.IH [OF this, of tr1] show ?case
    using r p by (auto split: prod.splits)
qed

lemma await_all_in_range:
  assumes "currentIndex (fst (snd st)) < length (proxies (fst (snd st)))"
  shows "proxies (fst (snd (await_all net sched st))) = proxies (fst (snd st))
   \<and> currentIndex (fst (snd (await_all net sched st))) < length (proxies (fst (snd st)))"
proof -
  obtain cs pm tr where r: "run net sched st = (cs, pm, tr)" by (cases "run net sched st") auto
  have p: "proxies pm = proxies (fst (snd st))" "currentIndex pm < length (proxies (fst (snd st)))"
    using run_in_range [OF assms, of net sched] r by simp_all
  have "currentIndex pm < length (proxies pm)" using p by simp
  from await_rest_in_range [OF this, of net cs tr] show ?thesis
    using r p by (simp add: await_all_def)
qed

lemma fetchWithProxyRotation_manager:
  "fst (snd (fetchWithProxyRotation net t cfg st)) = fst (snd st)"
  by (cases st) (simp add: fetchWithProxyRotation_def loop_head_def fetch_def Let_def)
lemma enc_test:
  "encodeURIComponent ''https://api.test/models'' = ''https%3A%2F%2Fapi.test%2Fmodels''"
  by (simp add: encodeURIComponent_def uri_unreserved_def pct_def hex_digit_def)

lemma enc_text:
  "encodeURIComponent ''https://text.pollinations.ai/models''
     = ''https%3A%2F%2Ftext.pollinations.ai%2Fmodels''"
  by (simp add: encodeURIComponent_def uri_unreserved_def pct_def hex_digit_def)

lemma enc_image:
  "encodeURIComponent ''https://image.pollinations.ai/models''
     = ''https%3A%2F%2Fimage.pollinations.ai%2Fmodels''"
  by (simp add: encodeURIComponent_def uri_unreserved_def pct_def hex_digit_def)

lemma text_call_in_flight:
  "fetchWithProxyRotation half_net ''https://text.pollinations.ai/models'' test_init ([], test_pm, [])
     = ([Awaiting ''https://text.pollinations.ai/models'' test_init 2 0
           (Some (test_response 200 (Some ''application/json'')))],
        test_pm,
        [(''https://p1/?https%3A%2F%2Ftext.pollinations.ai%2Fmodels'', test_init)])"
  by (simp add: fetchWithProxyRotation_def loop_head_def fetch_def getProxiedUrl_def enc_text
      test_pm_def half_net_def)

text \<open>
  Claim C1, as amended. A call of \<open>_fetchWithProxyRotation\<close> made on a manager with \<open>N\<close>
  proxies while every other call in flight on the client is quiet (a call made alone in
  particular), whatever the order in which the fetches settle: the call issues at most
  \<open>N\<close> fetches, attempt \<open>j\<close> through the proxy in slot \<open>(currentIndex + j) mod N\<close>, so
  that each failed attempt has advanced the cursor exactly once before the next one; no
  two attempts of the call use the same slot and, when the entries of the list are
  pairwise different, no two attempts use the same proxy, consecutive ones in particular.
  When all \<open>N\<close> attempts fail the call fails with ProxyExhausted, the cursor having gone
  once round; when attempt \<open>k\<close> is the first to succeed the call returns its response
  and leaves the cursor on slot \<open>k\<close> for the calls that follow. An attempt fails exactly
  when the fetch rejects, the status is not a success, or the Content-Type header is
  present, not empty, and does not contain \<open>application/json\<close>. What calls that handle
  their failures in the same span of time do to each other is not part of the statement.
\<close>

theorem C1_proxy_rotation:
  assumes inv: "currentIndex pm < length (proxies pm)"
    and others: "\<forall>c\<in>set cs. quiet c"
  shows
   "length (fst (await_all net sched (fetchWithProxyRotation net t cfg (cs, pm, tr)))) = Suc (length cs)
    \<and> (\<exists>k\<le>length (proxies pm).
        snd (snd (await_all net sched (fetchWithProxyRotation net t cfg (cs, pm, tr))))
          = attempt_trace pm t cfg tr k)
    \<and> ((\<forall>j<length (proxies pm). attempt_failed net pm t cfg tr j) \<longrightarrow>
          fst (await_all net sched (fetchWithProxyRotation net t cfg (cs, pm, tr))) ! length cs
            = Inl (ProxyExhausted t)
          \<and> snd (await_all net sched (fetchWithProxyRotation net t cfg (cs, pm, tr)))
            = (pm, attempt_trace pm t cfg tr (length (proxies pm))))
    \<and> (\<forall>k r. k < length (proxies pm) \<and> (\<forall>j<k. attempt_failed net pm t cfg tr j)
               \<and> attempt_result net pm t cfg tr k = Inr r \<longrightarrow>
          fst (await_all net sched (fetchWithProxyRotation net t cfg (cs, pm, tr))) ! length cs
            = Inr r
          \<and> snd (await_all net sched (fetchWithProxyRotation net t cfg (cs, pm, tr)))
            = (pm\<lparr>currentIndex := attempt_slot pm k\<rparr>, attempt_trace pm t cfg tr (Suc k)))
    \<and> (\<forall>i<length (proxies pm). \<forall>j<length (proxies pm). i \<noteq> j \<longrightarrow>
          attempt_slot pm i \<noteq> attempt_slot pm j
          \<and> (distinct (proxies pm) \<longrightarrow>
                proxies pm ! attempt_slot pm i \<noteq> proxies pm ! attempt_slot pm j
                \<and> attempt_url pm t i \<noteq> attempt_url pm t j))
    \<and> (\<forall>j. attempt_failed net pm t cfg tr j \<longleftrightarrow>
          (case net (attempt_trace pm t cfg tr j) (attempt_url pm t j) cfg of
             None \<Rightarrow> True
           | Some r \<Rightarrow> \<not> ok r \<or>
               (\<exists>ct. content_type r = Some ct \<and> ct \<noteq> [] \<and> \<not> str_includes ct ''application/json'')))"
proof -
  let ?N = "length (proxies pm)"
  let ?F = "await_all net sched (fetchWithProxyRotation net t cfg (cs, pm, tr))"
  note q = call_among_quiet [OF others, of net sched t cfg pm tr]
  have len: "length (fst ?F) = Suc (length cs)" using q by blast
  have un: "(fst ?F ! length cs, snd ?F) = uninterrupted net t cfg ?N 0 pm tr" using q by blast
  have all_fail: "fst ?F ! length cs = Inl (ProxyExhausted t)
                  \<and> snd ?F = (pm, attempt_trace pm t cfg tr ?N)"
    if "\<forall>j<?N. attempt_failed net pm t cfg tr j"
  proof -
    have "attempt_slot pm ?N = currentIndex pm"
      using inv by (simp add: attempt_slot_def)
    then show ?thesis
      using uninterrupted_all_fail [OF inv that, of 0 ?N] un by simp
  qed
  have succ: "fst ?F ! length cs = Inr r
              \<and> snd ?F = (pm\<lparr>currentIndex := attempt_slot pm k\<rparr>, attempt_trace pm t cfg tr (Suc k))"
    if "k < ?N" "\<forall>j<k. attempt_failed net pm t cfg tr j" "attempt_result net pm t cfg tr k = Inr r"
    for k r
    using uninterrupted_first_success [OF inv _ that(2,3), of 0 ?N] that(1) un by simp
  have bound: "\<exists>k\<le>?N. snd (snd ?F) = attempt_trace pm t cfg tr k"
  proof (cases "\<forall>j<?N. attempt_failed net pm t cfg tr j")
    case True
    then show ?thesis using all_fail by auto
  next
    case False
    then obtain j where j: "j < ?N" "\<not> attempt_failed net pm t cfg tr j" by blast
    define k where "k = (LEAST j. \<not> attempt_failed net pm t cfg tr j)"
    have k1: "\<not> attempt_failed net pm t cfg tr k"
      unfolding k_def using j(2) by (rule LeastI)
    have k2: "k \<le> j" unfolding k_def using j(2) by (rule Least_le)
    have k3: "\<forall>i<k. attempt_failed net pm t cfg tr i"
      unfolding k_def using not_less_Least by blast
    obtain r where r: "attempt_result net pm t cfg tr k = Inr r"
      using k1 by (cases "attempt_result net pm t cfg tr k") (simp_all add: attempt_failed_def)
    have kN: "k < ?N" using k2 j(1) by linarith
    from succ [OF kN k3 r]
    have "snd (snd ?F) = attempt_trace pm t cfg tr (Suc k)"
      by simp
    moreover have "Suc k \<le> ?N" using kN by simp
    ultimately show ?thesis by blast
  qed
  have differ: "attempt_slot pm i \<noteq> attempt_slot pm j
                \<and> (distinct (proxies pm) \<longrightarrow>
                      proxies pm ! attempt_slot pm i \<noteq> proxies pm ! attempt_slot pm j
                      \<and> attempt_url pm t i \<noteq> attempt_url pm t j)"
    if "i < ?N" "j < ?N" "i \<noteq> j" for i j
    using slots_differ [OF that] proxies_differ [OF _ that] urls_differ [OF _ that] by blast
  have char: "attempt_failed net pm t cfg tr j \<longleftrightarrow>
          (case net (attempt_trace pm t cfg tr j) (attempt_url pm t j) cfg of
             None \<Rightarrow> True
           | Some r \<Rightarrow> \<not> ok r \<or>
               (\<exists>ct. content_type r = Some ct \<and> ct \<noteq> [] \<and> \<not> str_includes ct ''application/json''))" for j
    by (simp add: attempt_failed_def attempt_result_def proxy_try_def split: option.splits)
  show ?thesis
    using len bound all_fail succ differ char by blast
qed

text \<open>
  The two calls of \<open>models.list\<close> on two proxies: the text catalog call is in flight and
  its response will be accepted; the image catalog call is made, gets 500 through the
  first proxy and 200 with \<open>application/json\<close> through the second. Its failure is handled
  before the text call's response.
\<close>

theorem C1_proxy_rotation_witness:
  "fst (await_all half_net [1, 0, 1]
          (fetchWithProxyRotation half_net ''https://image.pollinations.ai/models'' test_init
             (fetchWithProxyRotation half_net ''https://text.pollinations.ai/models'' test_init
                ([], test_pm, [])))) ! 1
     = Inr (test_response 200 (Some ''application/json''))
   \<and> snd (await_all half_net [1, 0, 1]
          (fetchWithProxyRotation half_net ''https://image.pollinations.ai/models'' test_init
             (fetchWithProxyRotation half_net ''https://text.pollinations.ai/models'' test_init
                ([], test_pm, []))))
     = (\<lparr>proxies = [''https://p1/?'', ''https://p2/?''], currentIndex = 1\<rparr>,
        [(''https://p1/?https%3A%2F%2Ftext.pollinations.ai%2Fmodels'', test_init),
         (''https://p1/?https%3A%2F%2Fimage.pollinations.ai%2Fmodels'', test_init),
         (''https://p2/?https%3A%2F%2Fimage.pollinations.ai%2Fmodels'', test_init)])"
proof -
  let ?cs = "[Awaiting ''https://text.pollinations.ai/models'' test_init 2 0
               (Some (test_response 200 (Some ''application/json'')))]"
  let ?tr = "[(''https://p1/?https%3A%2F%2Ftext.pollinations.ai%2Fmodels'', test_init)]"
  let ?t = "''https://image.pollinations.ai/models''"
  have inv: "currentIndex test_pm < length (proxies test_pm)"
    by (simp add: test_pm_def)
  have others: "\<forall>c\<in>set ?cs. quiet c"
    by (simp add: proxy_try_def ok_def test_response_def)
  have f0: "\<forall>j<1. attempt_failed half_net test_pm ?t test_init ?tr j"
    by (simp add: attempt_failed_def attempt_result_def attempt_trace_def attempt_url_def
        attempt_slot_def test_pm_def half_net_def proxy_try_def ok_def test_response_def enc_image)
  have s1: "attempt_result half_net test_pm ?t test_init ?tr 1
              = Inr (test_response 200 (Some ''application/json''))"
    by (simp add: attempt_result_def attempt_trace_def attempt_url_def
        attempt_slot_def test_pm_def half_net_def proxy_try_def ok_def test_response_def enc_image)
  have kN: "1 < length (proxies test_pm)" by (simp add: test_pm_def)
  have "fst (await_all half_net [1, 0, 1]
               (fetchWithProxyRotation half_net ?t test_init (?cs, test_pm, ?tr))) ! length ?cs
          = Inr (test_response 200 (Some ''application/json''))
        \<and> snd (await_all half_net [1, 0, 1]
               (fetchWithProxyRotation half_net ?t test_init (?cs, test_pm, ?tr)))
          = (test_pm\<lparr>currentIndex := attempt_slot test_pm 1\<rparr>,
             attempt_trace test_pm ?t test_init ?tr (Suc 1))"
    using C1_proxy_rotation [OF inv others, of half_net "[1, 0, 1]" ?t test_init ?tr] f0 s1 kN
    by blast
  then show ?thesis
    unfolding text_call_in_flight
    by (simp add: attempt_trace_def attempt_url_def attempt_slot_def
        test_pm_def enc_image upt_rec [of 0] upt_rec [of 1])
qed

text \<open>
  The claim as stated fails. A response with status 200 whose Content-Type header is
  present with an empty value does not contain \<open>application/json\<close>, yet the attempt is a
  success and the cursor stays where it was. And when the list names one proxy twice, the
  two attempts of a call go through the same proxy.
\<close>

theorem C1_content_type_counterexample:
  "content_type (test_response 200 (Some '''')) = Some ''''
   \<and> \<not> str_includes '''' ''application/json''
   \<and> await_all untyped_net []
        (fetchWithProxyRotation untyped_net ''https://api.test/models'' test_init ([], test_pm, []))
     = ([Inr (test_response 200 (Some ''''))], test_pm,
        [(''https://p1/?https%3A%2F%2Fapi.test%2Fmodels'', test_init)])
   \<and> await_all test_net []
        (fetchWithProxyRotation test_net ''https://api.test/models'' test_init ([], twin_pm, []))
     = ([Inl (ProxyExhausted ''https://api.test/models'')], twin_pm,
        [(''https://p1/?https%3A%2F%2Fapi.test%2Fmodels'', test_init),
         (''https://p1/?https%3A%2F%2Fapi.test%2Fmodels'', test_init)])"
  by (simp add: await_all_def run_def fetchWithProxyRotation_def loop_head_def test_pm_def
      twin_pm_def getProxiedUrl_def rotateProxy_def enc_test fetch_def test_net_def
      untyped_net_def proxy_try_def ok_def test_response_def numeral_2_eq_2 Let_def)

text \<open>
  Two calls in flight on one manager, as \<open>models.list\<close> makes them, with the first proxy
  down and the second one up. Both calls send their first request through the first
  proxy. The call whose failure is handled first moves the index to the second proxy and
  succeeds there; the failure of the other call then moves the index back, so that call
  asks the first proxy again and gives up without having tried the second.
\<close>

lemma interleaved_calls_repeat_proxy:
  "await_all test_net [0, 1, 0, 1]
     (fetchWithProxyRotation test_net ''https://image.pollinations.ai/models'' test_init
        (fetchWithProxyRotation test_net ''https://text.pollinations.ai/models'' test_init
           ([], test_pm, [])))
     = ([Inr (test_response 200 (Some ''application/json'')),
         Inl (ProxyExhausted ''https://image.pollinations.ai/models'')],
        \<lparr>proxies = [''https://p1/?'', ''https://p2/?''], currentIndex = 1\<rparr>,
        [(''https://p1/?https%3A%2F%2Ftext.pollinations.ai%2Fmodels'', test_init),
         (''https://p1/?https%3A%2F%2Fimage.pollinations.ai%2Fmodels'', test_init),
         (''https://p2/?https%3A%2F%2Ftext.pollinations.ai%2Fmodels'', test_init),
         (''https://p1/?https%3A%2F%2Fimage.pollinations.ai%2Fmodels'', test_init)])
   \<and> await_all test_net [1, 0, 1, 0]
     (fetchWithProxyRotation test_net ''https://image.pollinations.ai/models'' test_init
        (fetchWithProxyRotation test_net ''https://text.pollinations.ai/models'' test_init
           ([], test_pm, [])))
     = ([Inl (ProxyExhausted ''https://text.pollinations.ai/models''),
         Inr (test_response 200 (Some ''application/json''))],
        \<lparr>proxies = [''https://p1/?'', ''https://p2/?''], currentIndex = 1\<rparr>,
        [(''https://p1/?https%3A%2F%2Ftext.pollinations.ai%2Fmodels'', test_init),
         (''https://p1/?https%3A%2F%2Fimage.pollinations.ai%2Fmodels'', test_init),
         (''https://p2/?https%3A%2F%2Fimage.pollinations.ai%2Fmodels'', test_init),
         (''https://p1/?https%3A%2F%2Ftext.pollinations.ai%2Fmodels'', test_init)])"
  by (simp add: await_all_def run_def settle_def fetchWithProxyRotation_def loop_head_def
      test_pm_def getProxiedUrl_def rotateProxy_def enc_text enc_image fetch_def test_net_def
      proxy_try_def ok_def test_response_def numeral_2_eq_2 Let_def)

section \<open>Stream decoder: proofs\<close>

lemma split_nl_nonempty [simp]: "split_nl s \<noteq> []"
  by (induction s) (auto split: list.splits)

lemma split_nl_append:
  "split_nl (a @ b) = butlast (split_nl a) @ split_nl (last (split_nl a) @ b)"
proof (induction a)
  case Nil
  then show ?case by simp
next
  case (Cons c cs)
  show ?case
  proof (cases "c = CHR 0x0A")
    case True
    then show ?thesis using Cons.IH by simp
  next
    case False
    obtain p ps where s: "split_nl cs = p # ps"
      by (cases "split_nl cs") simp_all
    show ?thesis
    proof (cases ps)
      case Nil
      with s False Cons.IH show ?thesis by simp
    next
      case (Cons q qs)
      with s False Cons.IH show ?thesis by simp
    qed
  qed
qed

lemma decode_append:
  "decode dec d (a @ b) =
     (let (d1, t1) = decode dec d a; (d2, t2) = decode dec d1 b in (d2, t1 @ t2))"
  by (induction a arbitrary: d) (auto split: prod.splits)

lemma split_nl_last: "split_nl (last (split_nl a)) = [last (split_nl a)]"
proof (induction a)
  case Nil
  then show ?case by simp
next
  case (Cons c cs)
  obtain p ps where s: "split_nl cs = p # ps"
    by (cases "split_nl cs") simp_all
  show ?case
  proof (cases ps)
    case Nil
    with s Cons.IH show ?thesis by simp
  next
    case (Cons q qs)
    with s Cons.IH show ?thesis by simp
  qed
qed

lemma read_loop_spec:
  "split_nl buffer = [buffer] \<Longrightarrow>
   read_loop dec parse chunks d buffer =
     (let text = snd (decode dec d (concat chunks)) in
        (concat (map (process_part parse) (butlast (split_nl (buffer @ text)))),
         last (split_nl (buffer @ text))))"
proof (induction chunks arbitrary: d buffer)
  case Nil
  then show ?case by simp
next
  case (Cons v rest)
  obtain d1 t1 where v: "decode dec d v = (d1, t1)" by (cases "decode dec d v")
  obtain d2 t2 where r: "decode dec d1 (concat rest) = (d2, t2)" by (cases "decode dec d1 (concat rest)")
  have all: "snd (decode dec d (concat (v # rest))) = t1 @ t2"
    using v r by (simp add: decode_append)
  have sp: "split_nl (buffer @ t1 @ t2)
              = butlast (split_nl (buffer @ t1)) @ split_nl (last (split_nl (buffer @ t1)) @ t2)"
    using split_nl_append [of "buffer @ t1" t2] by simp
  show ?case
    using v r Cons.IH [of "last (split_nl (buffer @ t1))" d1, OF split_nl_last]
    by (simp add: all sp butlast_append Let_def del: concat.simps decode.simps split_on.simps)
qed

lemma blank_data [simp]: "blank (''data: '' @ p) = False" by (simp add: ascii_ws_def)

lemma decode_ascii: "decode ascii_dec d (bytes s) = (d, s)"
  by (induction s) (simp_all add: ascii_dec_def bytes_def unat_of_nat)

text \<open>
  Claim C2. Whatever the way a byte sequence is cut into chunks, the decoder yields the
  events it yields for the sequence in one chunk, in the same order; and once the chunks
  are read the carry-over buffer is all the text after the last newline, while every
  complete line before it has been processed.
\<close>

theorem C2_chunk_independence:
  "streamCompletion dec d0 parse (response\<lparr>body := Some chunks\<rparr>)
     = streamCompletion dec d0 parse (response\<lparr>body := Some [concat chunks]\<rparr>)
   \<and> read_loop dec parse chunks d0 []
       = (concat (map (process_part parse) (butlast (split_nl (snd (decode dec d0 (concat chunks)))))),
          last (split_nl (snd (decode dec d0 (concat chunks)))))"
proof -
  have e: "split_nl [] = [[]]" by simp
  show ?thesis
    using read_loop_spec [OF e, of dec parse chunks d0] read_loop_spec [OF e, of dec parse "[concat chunks]" d0]
    by (simp add: streamCompletion_def ok_def Let_def del: read_loop.simps)
qed


text \<open>An example with chunk boundaries inside the lines.\<close>

theorem C2_chunk_independence_witness:
  "streamCompletion ascii_dec () test_parse
      (stream_response [bytes ''da'', bytes ''ta: 1\<newline>dat'', bytes ''a: 2\<newline>data: 1''])
     = Inr [Num 1, Num 2]
   \<and> snd (read_loop ascii_dec test_parse [bytes ''da'', bytes ''ta: 1\<newline>dat'', bytes ''a: 2\<newline>data: 1''] () [])
     = ''data: 1''"
proof -
  let ?chunks = "[bytes ''da'', bytes ''ta: 1\<newline>dat'', bytes ''a: 2\<newline>data: 1'']"
  have c: "concat ?chunks = bytes ''data: 1\<newline>data: 2\<newline>data: 1''"
    by (simp add: bytes_def)
  have s: "stream_response ?chunks = (stream_response ?chunks)\<lparr>body := Some ?chunks\<rparr>"
    by (simp add: stream_response_def)
  have "streamCompletion ascii_dec () test_parse (stream_response ?chunks)
     = streamCompletion ascii_dec () test_parse ((stream_response ?chunks)\<lparr>body := Some [concat ?chunks]\<rparr>)
   \<and> read_loop ascii_dec test_parse ?chunks () []
       = (concat (map (process_part test_parse) (butlast (split_nl (snd (decode ascii_dec () (concat ?chunks)))))),
          last (split_nl (snd (decode ascii_dec () (concat ?chunks)))))"
    using C2_chunk_independence [where dec = ascii_dec and ?d0.0 = "()" and parse = test_parse
        and response = "stream_response ?chunks" and chunks = ?chunks] s
    by simp
  then show ?thesis
    unfolding c
    by (simp add: streamCompletion_def ok_def stream_response_def decode_ascii process_part_def
      test_parse_def ascii_ws_def copy_reasoning_def reasoning_payload_def empty_reasoning_payload_def)
qed

section \<open>Stream decoder: the events of a line\<close>

lemma opt_get_eq: "opt_get v k = js_get v k"
  by (cases v) (simp_all add: opt_get_def)

lemma js_get_defined: "js_get v k \<noteq> Undefined \<Longrightarrow> \<exists>kvs. v = Obj kvs"
  by (cases v) simp_all

lemma map_of_upd_first:
  "map_of (upd_first k f kvs) k' = (if k' = k then map_option f (map_of kvs k) else map_of kvs k')"
  by (induction kvs) auto

lemma js_get_upd_prop:
  "js_get v k \<noteq> Undefined \<Longrightarrow> js_get (upd_prop k f v) k = f (js_get v k)"
  by (cases v) (auto simp: map_of_upd_first split: option.splits)

lemma js_index0_upd:
  "js_index0 v = Obj c \<Longrightarrow> js_index0 (upd_index0 f v) = f (Obj c)"
  by (cases v) (auto simp: map_of_upd_first split: option.splits list.splits if_splits)

lemma js_get_js_set:
  "js_get (js_set (Obj kvs) k v) k' = (if k' = k then v else js_get (Obj kvs) k')"
  by (simp add: update_conv')

lemma copy_reasoning_truthy:
  assumes t: "truthy (js_get (first_delta data) ''reasoning'')"
  shows "\<exists>ev. copy_reasoning data = Inr ev
            \<and> js_get (first_delta ev) ''reasoning'' = js_get (first_delta data) ''reasoning''
            \<and> js_get (first_delta ev) ''reasoning_content'' = js_get (first_delta data) ''reasoning''"
proof -
  let ?r = "js_get (first_delta data) ''reasoning''"
  let ?choices = "js_get data ''choices''"
  let ?c0 = "js_index0 ?choices"
  have r: "?r \<noteq> Undefined" using t by auto
  then obtain dk where dk: "first_delta data = Obj dk" using js_get_defined by blast
  then have "js_get ?c0 ''delta'' \<noteq> Undefined" by (simp add: first_delta_def)
  then obtain ck where ck: "?c0 = Obj ck" using js_get_defined by blast
  have delta: "js_get (Obj ck) ''delta'' = Obj dk" using dk ck by (simp add: first_delta_def)
  have ch: "truthy ?choices \<and> ?choices \<noteq> Undefined"
    using ck by (cases ?choices) (simp_all split: if_splits)
  then obtain kvs where data: "data = Obj kvs" using js_get_defined by blast
  let ?f = "\<lambda>delta. js_set delta ''reasoning_content'' ?r"
  let ?ev = "upd_prop ''choices'' (upd_index0 (upd_prop ''delta'' ?f)) data"
  have cr: "copy_reasoning data = Inr ?ev"
    using ch t data by (simp add: copy_reasoning_def opt_get_eq first_delta_def Let_def)
  have "js_get ?ev ''choices'' = upd_index0 (upd_prop ''delta'' ?f) ?choices"
    using ch by (simp add: js_get_upd_prop)
  then have "js_index0 (js_get ?ev ''choices'') = upd_prop ''delta'' ?f (Obj ck)"
    using ck by (simp add: js_index0_upd)
  then have "first_delta ?ev = ?f (Obj dk)"
    using delta js_get_upd_prop [of "Obj ck" "''delta''" ?f]
    by (simp add: first_delta_def del: upd_prop.simps js_set.simps js_get.simps)
  then have "js_get (first_delta ?ev) ''reasoning'' = ?r
           \<and> js_get (first_delta ?ev) ''reasoning_content'' = ?r"
    using dk by (simp add: js_get_js_set del: js_set.simps js_get.simps)
  with cr show ?thesis by blast
qed

text \<open>
  Claim C7, as amended. When the first choice's delta of a streamed event carries a
  reasoning field whose value is truthy (not \<open>null\<close>, \<open>false\<close>, 0 or the empty string), the
  event the decoder yields has both the reasoning field and a \<open>reasoning_content\<close> field
  with the same value on that delta.
\<close>

theorem C7_reasoning_copied:
  assumes "parse src = Some data"
    and "src \<noteq> ''[DONE]''"
    and "truthy (js_get (first_delta data) ''reasoning'')"
  shows "\<exists>ev. process_part parse (''data: '' @ src) = [ev]
            \<and> js_get (first_delta ev) ''reasoning'' = js_get (first_delta data) ''reasoning''
            \<and> js_get (first_delta ev) ''reasoning_content'' = js_get (first_delta data) ''reasoning''"
proof -
  from copy_reasoning_truthy [OF assms(3)] obtain ev where
    ev: "copy_reasoning data = Inr ev"
        "js_get (first_delta ev) ''reasoning'' = js_get (first_delta data) ''reasoning''"
        "js_get (first_delta ev) ''reasoning_content'' = js_get (first_delta data) ''reasoning''"
    by blast
  have "process_part parse (''data: '' @ src) = [ev]"
    using assms(1,2) ev(1) by (simp add: process_part_def ascii_ws_def)
  with ev show ?thesis by blast
qed

theorem C7_reasoning_copied_witness:
  "process_part test_parse (''data: '' @ reasoning_payload)
     = [Obj [(''choices'', Arr [Obj [(''delta'',
          Obj [(''reasoning'', Str ''x''), (''reasoning_content'', Str ''x'')])]])]]"
proof -
  have p: "test_parse reasoning_payload = Some (reasoning_event (Str ''x''))"
    by (simp add: test_parse_def reasoning_payload_def)
  have d: "reasoning_payload \<noteq> ''[DONE]''" by (simp add: reasoning_payload_def)
  have t: "truthy (js_get (first_delta (reasoning_event (Str ''x''))) ''reasoning'')"
    by (simp add: first_delta_def reasoning_event_def)
  from C7_reasoning_copied [of test_parse reasoning_payload "reasoning_event (Str ''x'')", OF p d t] obtain ev where
    "process_part test_parse (''data: '' @ reasoning_payload) = [ev]" by blast
  moreover have "process_part test_parse (''data: '' @ reasoning_payload)
     = [Obj [(''choices'', Arr [Obj [(''delta'',
          Obj [(''reasoning'', Str ''x''), (''reasoning_content'', Str ''x'')])]])]]"
    using p d by (simp add: process_part_def copy_reasoning_def reasoning_event_def opt_get_def ascii_ws_def reasoning_payload_def Let_def)
  ultimately show ?thesis by simp
qed

text \<open>
  The claim as stated fails: a delta whose reasoning field is the empty string is yielded
  as it came, without a \<open>reasoning_content\<close> field (\<open>null\<close> behaves the same).
\<close>

theorem C7_empty_reasoning_counterexample:
  "test_parse empty_reasoning_payload = Some (reasoning_event (Str ''''))
   \<and> js_get (first_delta (reasoning_event (Str ''''))) ''reasoning'' = Str ''''
   \<and> process_part test_parse (''data: '' @ empty_reasoning_payload) = [reasoning_event (Str '''')]
   \<and> js_get (first_delta (reasoning_event (Str ''''))) ''reasoning_content'' = Undefined"
  by (simp add: test_parse_def empty_reasoning_payload_def reasoning_payload_def process_part_def
      copy_reasoning_def reasoning_event_def opt_get_def first_delta_def ascii_ws_def)

text \<open>
  Claim C8, as amended. On a successful response with a body the decoder never fails:
  it yields, in the order of the lines, what each complete line yields. A line that is
  blank, is the sentinel, lacks the prefix \<open>data: \<close>, or whose payload does not parse or
  parses to \<open>null\<close> yields nothing; every other line yields exactly one event, its parsed
  payload after the reasoning copy.
\<close>

theorem C8_line_skipping:
  "(ok response \<and> body response = Some chunks \<longrightarrow>
      streamCompletion dec d0 parse response
        = Inr (concat (map (process_part parse)
                 (butlast (split_nl (snd (decode dec d0 (concat chunks))))))))
   \<and> (blank part \<or> part = ''data: [DONE]'' \<or> \<not> prefix ''data: '' part
        \<or> parse (drop 6 part) = None \<or> parse (drop 6 part) = Some Null \<longrightarrow>
      process_part parse part = [])
   \<and> (\<not> blank part \<and> part \<noteq> ''data: [DONE]'' \<and> prefix ''data: '' part
        \<and> parse (drop 6 part) = Some data \<and> \<not> nullish data \<longrightarrow>
      (\<exists>ev. process_part parse part = [ev] \<and> copy_reasoning data = Inr ev))"
proof -
  have e: "split_nl [] = [[]]" by simp
  have a: "streamCompletion dec d0 parse response
        = Inr (concat (map (process_part parse)
                 (butlast (split_nl (snd (decode dec d0 (concat chunks)))))))"
    if "ok response" "body response = Some chunks"
    using that read_loop_spec [OF e, of dec parse chunks d0]
    by (simp add: streamCompletion_def Let_def)
  have b: "process_part parse part = []"
    if "blank part \<or> part = ''data: [DONE]'' \<or> \<not> prefix ''data: '' part
        \<or> parse (drop 6 part) = None \<or> parse (drop 6 part) = Some Null"
    using that by (auto simp: process_part_def copy_reasoning_def)
  have c: "\<exists>ev. process_part parse part = [ev] \<and> copy_reasoning data = Inr ev"
    if "\<not> blank part" "part \<noteq> ''data: [DONE]''" "prefix ''data: '' part"
       "parse (drop 6 part) = Some data" "\<not> nullish data"
    using that by (auto simp: process_part_def copy_reasoning_def Let_def)
  show ?thesis using a b c by blast
qed

lemma split_noisy:
  "split_nl noisy_stream = [''event: ping'', '''', ''data: 1'', ''data: {oops'', ''data: [DONE]'', ''data: 2'', ''data: 1'']"
  by (simp add: noisy_stream_def)

theorem C8_line_skipping_witness:
  "streamCompletion ascii_dec () test_parse (stream_response [bytes noisy_stream]) = Inr [Num 1, Num 2]"
proof -
  have o: "ok (stream_response [bytes noisy_stream]) \<and> body (stream_response [bytes noisy_stream]) = Some [bytes noisy_stream]"
    by (simp add: ok_def stream_response_def)
  have "streamCompletion ascii_dec () test_parse (stream_response [bytes noisy_stream])
        = Inr (concat (map (process_part test_parse)
                 (butlast (split_nl (snd (decode ascii_dec () (concat [bytes noisy_stream])))))))"
    using C8_line_skipping [where response = "stream_response [bytes noisy_stream]"
        and chunks = "[bytes noisy_stream]" and dec = ascii_dec and ?d0.0 = "()" and parse = test_parse] o
    by blast
  then show ?thesis
    by (simp add: decode_ascii split_noisy process_part_def test_parse_def ascii_ws_def
        copy_reasoning_def reasoning_payload_def empty_reasoning_payload_def)
qed

text \<open>
  The claim as stated fails: the line \<open>data: null\<close> has the prefix, is neither blank nor
  the sentinel, and its payload parses, yet nothing is yielded for it; the TypeError of
  reading \<open>null.choices\<close> is swallowed by the handler of parse errors.
\<close>

theorem C8_null_payload_counterexample:
  "\<not> blank ''data: null'' \<and> ''data: null'' \<noteq> ''data: [DONE]'' \<and> prefix ''data: '' ''data: null''
   \<and> test_parse (drop 6 ''data: null'') = Some Null
   \<and> streamCompletion ascii_dec () test_parse (stream_response [bytes ''data: null\<newline>data: 1\<newline>''])
       = Inr [Num 1]"
  by (simp add: streamCompletion_def ok_def stream_response_def decode_ascii process_part_def
      test_parse_def ascii_ws_def copy_reasoning_def reasoning_payload_def empty_reasoning_payload_def)

section \<open>Alias resolution\<close>

lemma floor_index:
  fixes r :: real
  assumes "0 \<le> r" "r < 1" "0 < k"
  shows "0 \<le> \<lfloor>r * real k\<rfloor> \<and> \<lfloor>r * real k\<rfloor> < int k
         \<and> real (nat \<lfloor>r * real k\<rfloor>) / real k \<le> r \<and> r < real (nat \<lfloor>r * real k\<rfloor> + 1) / real k"
proof -
  let ?f = "\<lfloor>r * real k\<rfloor>"
  have k: "0 < real k" using assms(3) by simp
  have nn: "0 \<le> r * real k" using assms(1) by simp
  then have f0: "0 \<le> ?f" by simp
  have "r * real k < real k" using assms(2) k by simp
  then have f1: "?f < int k" by (simp add: floor_less_iff)
  have le: "real_of_int ?f \<le> r * real k" by (rule of_int_floor_le)
  have lt: "r * real k < real_of_int ?f + 1" by linarith
  have eq: "real (nat ?f) = real_of_int ?f" using f0 by simp
  have le': "real (nat ?f) \<le> r * real k" using le eq by linarith
  have a: "real (nat ?f) / real k \<le> r"
    using le' by (simp only: pos_divide_le_eq [OF k])
  have lt': "r * real k < real (nat ?f + 1)" using lt eq by linarith
  have b: "r < real (nat ?f + 1) / real k"
    using lt' by (simp only: pos_less_divide_eq [OF k])
  show ?thesis using f0 f1 a b by blast
qed

text \<open>
  Claim C4, as amended. In the resolution of \<open>Together\<close> (\<open>_getModel\<close>), in that of the
  base client (the first lines of \<open>chat.completions.create\<close> and \<open>images.generate\<close>, which
  the other adapters inherit) and in that of \<open>HuggingFace\<close>, which is the base client's:
  a name that is absent (falsy) resolves as the default does, a name whose entry is a
  non-empty string resolves to that string, and a name without a (truthy) entry is
  returned unchanged. In the resolution of \<open>Together\<close>, the one that looks for sequences, a
  name whose entry is a non-empty sequence of \<open>k\<close> ids resolves to the member with index
  \<open>i\<close> exactly when the random number of that call lies in \<open>[i/k, (i+1)/k)\<close>, so the
  members have equal chances under a uniform \<open>Math.random\<close> and nothing is remembered
  between calls. What the other resolutions make of a sequence-valued entry is not part
  of the statement.
\<close>

theorem C4_alias_resolution:
  "(\<not> truthy name \<longrightarrow> Together_getModel r A name d = Together_getModel r A d d)
   \<and> (truthy name \<and> js_lookup A name = Str s \<and> s \<noteq> [] \<longrightarrow> Together_getModel r A name d = Str s)
   \<and> (truthy name \<and> js_lookup A name = Arr xs \<and> xs \<noteq> [] \<and> 0 \<le> r \<and> r < 1 \<longrightarrow>
        (\<exists>i<length xs. Together_getModel r A name d = xs ! i
            \<and> real i / real (length xs) \<le> r \<and> r < real (i + 1) / real (length xs)))
   \<and> (truthy name \<and> \<not> truthy (js_lookup A name) \<longrightarrow> Together_getModel r A name d = name)
   \<and> (\<not> truthy name \<longrightarrow> resolve_alias A name d = resolve_alias A d d)
   \<and> (truthy name \<and> js_lookup A name = Str s \<and> s \<noteq> [] \<longrightarrow> resolve_alias A name d = Str s)
   \<and> (truthy name \<and> \<not> truthy (js_lookup A name) \<longrightarrow> resolve_alias A name d = name)
   \<and> HuggingFace_model h params
        = resolve_alias (modelAliases h) (js_get (Obj params) ''model'') (defaultModel h)"
proof -
  have a: "Together_getModel r A name d = Together_getModel r A d d" if "\<not> truthy name"
    using that by (simp add: Together_getModel_def)
  have b: "Together_getModel r A name d = Str s"
    if "truthy name" "js_lookup A name = Str s" "s \<noteq> []"
    using that by (simp add: Together_getModel_def)
  have c: "\<exists>i<length xs. Together_getModel r A name d = xs ! i
            \<and> real i / real (length xs) \<le> r \<and> r < real (i + 1) / real (length xs)"
    if "truthy name" "js_lookup A name = Arr xs" "xs \<noteq> []" "0 \<le> r" "r < 1"
  proof -
    have k: "0 < length xs" using that(3) by simp
    note fi = floor_index [OF that(4) that(5) k]
    let ?i = "nat \<lfloor>r * real (length xs)\<rfloor>"
    have "?i < length xs" using fi by linarith
    moreover have "Together_getModel r A name d = xs ! ?i"
      using that(1,2) fi by (simp add: Together_getModel_def js_nth_int_def)
    ultimately show ?thesis using fi by blast
  qed
  have e: "Together_getModel r A name d = name" if "truthy name" "\<not> truthy (js_lookup A name)"
    using that by (simp add: Together_getModel_def)
  have a': "resolve_alias A name d = resolve_alias A d d" if "\<not> truthy name"
    using that by (simp add: resolve_alias_def js_or_def)
  have b': "resolve_alias A name d = Str s"
    if "truthy name" "js_lookup A name = Str s" "s \<noteq> []"
    using that by (simp add: resolve_alias_def js_or_def)
  have e': "resolve_alias A name d = name" if "truthy name" "\<not> truthy (js_lookup A name)"
    using that by (simp add: resolve_alias_def js_or_def)
  have hf: "HuggingFace_model h params
        = resolve_alias (modelAliases h) (js_get (Obj params) ''model'') (defaultModel h)"
    by (simp add: HuggingFace_model_def resolve_alias_def js_or_def Let_def)
  show ?thesis using a b c e a' b' e' hf by blast
qed

lemma lookup_llama: "js_lookup test_aliases (Str ''llama-3-70b'')
    = Arr [Str ''meta-llama/Meta-Llama-3-70B-Instruct-Turbo'', Str ''meta-llama/Llama-3-70b-chat-hf'']"
  by (simp add: js_lookup_def test_aliases_def)

theorem C4_alias_resolution_witness:
  "Together_getModel (1/2) test_aliases (Str ''llama-3-70b'') Null = Str ''meta-llama/Llama-3-70b-chat-hf''"
proof -
  let ?xs = "[Str ''meta-llama/Meta-Llama-3-70B-Instruct-Turbo'', Str ''meta-llama/Llama-3-70b-chat-hf'']"
  have h: "truthy (Str ''llama-3-70b'') \<and> js_lookup test_aliases (Str ''llama-3-70b'') = Arr ?xs
           \<and> ?xs \<noteq> [] \<and> (0::real) \<le> 1/2 \<and> (1/2::real) < 1"
    by (simp add: lookup_llama)
  from C4_alias_resolution [of "Str ''llama-3-70b''" "1/2" test_aliases Null _ ?xs] h
  obtain i where i: "i < length ?xs"
      "Together_getModel (1/2) test_aliases (Str ''llama-3-70b'') Null = ?xs ! i"
      "(1/2::real) < real (i + 1) / real (length ?xs)"
    by blast
  have "i = 1"
  proof (rule ccontr)
    assume "i \<noteq> 1"
    then have "i = 0" using i(1) by simp
    then show False using i(3) by simp
  qed
  then show ?thesis using i(2) by simp
qed

text \<open>
  The claim as stated fails. In \<open>Together\<close> a name whose entry is the empty sequence
  resolves to \<open>undefined\<close>, which is no member of it, and a name whose entry is the empty
  string resolves to the name, not to that string. And the resolution of the base client
  hands a sequence-valued entry on as it is: the name resolves to the whole sequence,
  which is none of its members.
\<close>

theorem C4_degenerate_alias_counterexample:
  "js_lookup test_aliases (Str ''none'') = Arr []
   \<and> Together_getModel (1/2) test_aliases (Str ''none'') Null = Undefined
   \<and> js_lookup test_aliases (Str ''blank'') = Str ''''
   \<and> Together_getModel (1/2) test_aliases (Str ''blank'') Null = Str ''blank''
   \<and> js_lookup test_aliases (Str ''llama-3-70b'')
        = Arr [Str ''meta-llama/Meta-Llama-3-70B-Instruct-Turbo'', Str ''meta-llama/Llama-3-70b-chat-hf'']
   \<and> resolve_alias test_aliases (Str ''llama-3-70b'') Null
        = Arr [Str ''meta-llama/Meta-Llama-3-70B-Instruct-Turbo'', Str ''meta-llama/Llama-3-70b-chat-hf'']
   \<and> resolve_alias test_aliases (Str ''llama-3-70b'') Null
        \<notin> set [Str ''meta-llama/Meta-Llama-3-70B-Instruct-Turbo'', Str ''meta-llama/Llama-3-70b-chat-hf'']"
  by (simp add: js_lookup_def test_aliases_def Together_getModel_def js_nth_int_def
      resolve_alias_def js_or_def)
section \<open>Together: the catalog and the stop list\<close>

lemma guard_inverted:
  "lt_1 (js_not (js_length (Arr xs))) \<longleftrightarrow> xs \<noteq> []"
  by (simp add: js_not_def)

text \<open>
  Claim C5, what the code does. On an adapter whose catalog is not cached (the cache and
  the configs are empty, as after construction) \<open>chat.completions.create\<close> does not
  load the catalog: whether or not a \<open>getApiKey\<close> method exists, the call issues one
  request, the POST of the chat, sent with the resolved model and with no stop list
  added, and leaves the adapter as it was. The guard \<open>!this._cachedModels.length < 1\<close>
  is false on an empty cache and true on a filled one.
\<close>

theorem C5_catalog_not_loaded:
  assumes "cachedModels t = Arr []" and "modelConfigs t = []"
  shows "Together_chat_create pf getApiKey_resolves rnd t params tr =
     (let params1 = AList.update ''model''
                      (Together_getModel rnd (modelAliases t) (js_get (Obj params) ''model'')
                         (defaultModel t)) params;
          requestOptions =
            \<lparr>http_method = Some ''POST'',
             headers = AList.update ''Authorization'' (Str (''Bearer '' @ to_string (apiKey t)))
                         (extraHeaders t),
             payload = Some (Obj params1)\<rparr>
      in (case pf_net pf tr (apiEndpoint t) requestOptions of
            None \<Rightarrow> Inl NetworkError
          | Some response \<Rightarrow> complete pf (js_get (Obj params1) ''stream'') response,
          params1, t, tr @ [(apiEndpoint t, requestOptions)]))"
  using assms
  by (simp add: Together_chat_create_def js_not_def getModelConfig_def js_lookup_def js_or_def
      fetch_def Let_def split: option.splits)

text \<open>
  The catalog of the network below gives the resolved model the stop list \<open></s>\<close>; the
  request leaves without it and the catalog is never asked for.
\<close>

theorem C5_catalog_not_loaded_witness:
  "Together_chat_create (test_pf catalog_net) True 0 test_together
       [(''model'', Str ''deepseek-r1''), (''messages'', Arr [])] []
     = (Inr (Completed (Obj [(''choices'', Arr [])])),
        [(''model'', Str ''deepseek-ai/DeepSeek-R1''), (''messages'', Arr [])],
        test_together,
        [(''https://api.together.xyz/v1/chat/completions'',
          \<lparr>http_method = Some ''POST'',
           headers = [(''Content-Type'', Str ''application/json''), (''Authorization'', Str ''Bearer k'')],
           payload = Some (Obj [(''model'', Str ''deepseek-ai/DeepSeek-R1''), (''messages'', Arr [])])\<rparr>)])"
proof -
  have a: "cachedModels test_together = Arr []" by (simp add: test_together_def)
  have b: "modelConfigs test_together = []" by (simp add: test_together_def)
  show ?thesis
    using C5_catalog_not_loaded [OF a b, of "test_pf catalog_net" True 0
        "[(''model'', Str ''deepseek-r1''), (''messages'', Arr [])]" "[]"]
    by (simp add: test_together_def test_pf_def catalog_net_def json_response_def
        Together_getModel_def js_lookup_def complete_def regularCompletion_def ok_def Let_def)
qed

text \<open>
  On the same network \<open>_loadModels\<close>, were its \<open>getApiKey\<close> call to resolve, would
  cache that stop list.
\<close>

lemma loadModels_would_configure:
  "Together_loadModels (test_pf catalog_net) True test_together []
     = (Inr test_catalog,
        test_together\<lparr>modelConfigs :=
           [(''deepseek-ai/DeepSeek-R1'',
             Obj [(''stop'', Arr [Str ''</s>'']), (''chatTemplate'', Undefined),
                  (''bosToken'', Undefined), (''eosToken'', Undefined),
                  (''contextLength'', Undefined)])],
          cachedModels := test_catalog\<rparr>,
        [(''https://api.together.xyz/v1/models'',
          \<lparr>http_method = Some ''GET'',
           headers = [(''Content-Type'', Str ''application/json''), (''Authorization'', Str ''Bearer k'')],
           payload = None\<rparr>)])"
  by (simp add: Together_loadModels_def test_together_def test_pf_def catalog_net_def
      json_response_def fetch_def ok_def test_catalog_def add_config_def opt_get_def js_or_def)

text \<open>
  The second half of the claim holds: once the cache and the configs are filled, a call
  without a stop parameter is sent with the cached stop list of the resolved model.
\<close>

lemma filled_cache_injects_stop:
  "fst (snd (Together_chat_create (test_pf catalog_net) False 0
       (test_together\<lparr>modelConfigs :=
           [(''deepseek-ai/DeepSeek-R1'', Obj [(''stop'', Arr [Str ''</s>''])])],
          cachedModels := test_catalog\<rparr>)
       [(''model'', Str ''deepseek-r1''), (''messages'', Arr [])] []))
     = [(''model'', Str ''deepseek-ai/DeepSeek-R1''), (''messages'', Arr []),
        (''stop'', Arr [Str ''</s>''])]"
  by (simp add: Together_chat_create_def Together_loadModels_def test_together_def test_catalog_def
      js_not_def Together_getModel_def js_lookup_def getModelConfig_def js_or_def fetch_def
      test_pf_def catalog_net_def Let_def split: option.splits)

section \<open>PollinationsAI: listing the models\<close>

lemma models_try_substitute:
  "isl text_fetch \<or> isl image_fetch \<Longrightarrow> isl (models_try c text_fetch image_fetch)"
  by (cases text_fetch; cases image_fetch)
     (auto simp: models_try_def split: sum.splits option.splits)

lemma models_list_never_raises:
  "\<exists>models. fst (Pollinations_models_list c text_fetch image_fetch) = Inr models"
  by (simp add: Pollinations_models_list_def split: sum.splits)

text \<open>
  Claim C3, what the code does. With an empty cache, as soon as one of the two catalog
  fetches fails \<open>models.list\<close> returns the static fallback catalog and caches nothing,
  whatever the other fetch delivered: the value substituted for the failed half has no
  \<open>json\<close> method, and calling it lands in the outer \<open>catch\<close>. The call never raises.
\<close>

theorem C3_one_failure_gives_fallback:
  assumes "cached_models c = []" and "isl text_fetch \<or> isl image_fetch"
  shows "Pollinations_models_list c text_fetch image_fetch = (Inr static_fallback, c)"
proof -
  from models_try_substitute [OF assms(2), where c = c] obtain e where
    "models_try c text_fetch image_fetch = Inl e"
    by (cases "models_try c text_fetch image_fetch") simp_all
  then show ?thesis using assms(1) by (simp add: Pollinations_models_list_def)
qed

text \<open>
  The text catalog fails on all proxies and the image catalog arrives with \<open>flux\<close> and
  \<open>turbo\<close>: the two image records are lost.
\<close>

theorem C3_one_failure_gives_fallback_witness:
  "Pollinations_models_list test_client
       (Inl (ProxyExhausted ''https://text.pollinations.ai/models''))
       (Inr (json_response 200 (Arr [Str ''flux'', Str ''turbo''])))
     = (Inr [Obj [(''id'', Str ''gpt-4.1-mini''), (''type'', Str ''chat'')],
             Obj [(''id'', Str ''deepseek-v3''), (''type'', Str ''chat'')],
             Obj [(''id'', Str ''flux''), (''type'', Str ''image'')],
             Obj [(''id'', Str ''gpt-image''), (''type'', Str ''image'')]], test_client)"
proof -
  have a: "cached_models test_client = []" by (simp add: test_client_def)
  have b: "isl (Inl (ProxyExhausted ''https://text.pollinations.ai/models'') :: error + response)
           \<or> isl (Inr (json_response 200 (Arr [Str ''flux'', Str ''turbo''])) :: error + response)"
    by simp
  show ?thesis
    using C3_one_failure_gives_fallback [OF a b] by (simp add: static_fallback_def)
qed

text \<open>When both fetches succeed the records are tagged and the inverse aliases applied.\<close>

lemma both_succeed:
  "fst (Pollinations_models_list test_client
       (Inr (json_response 200 (Arr [Obj [(''name'', Str ''deepseek'')]])))
       (Inr (json_response 200 (Arr [Str ''flux'', Str ''turbo'']))))
     = Inr [Obj [(''name'', Str ''deepseek''), (''id'', Str ''deepseek-v3''), (''type'', Str ''chat'')],
            Obj [(''id'', Str ''flux''), (''type'', Str ''image'')],
            Obj [(''id'', Str ''sdxl-turbo''), (''type'', Str ''image'')]]"
  by (simp add: Pollinations_models_list_def models_try_def test_client_def json_response_def
      js_or_def js_lookup_def make_swapAliases_def tag_image_model_def)

text \<open>
  With the first of two proxies down and the second one serving both catalogs,
  \<open>models.list\<close> still returns the static catalog: the two calls move the one index,
  the call whose failure is handled second is sent back to the first proxy and gives up,
  and its substitute has no \<open>json\<close> method. This holds for either order of the two
  failures.
\<close>

lemma models_list_first_proxy_down:
  "fst (models_list backup_net [0, 1, 0, 1] test_client []) = Inr static_fallback
   \<and> fst (models_list backup_net [1, 0, 1, 0] test_client []) = Inr static_fallback
   \<and> fst (models_list backup_net [] test_client []) = Inr static_fallback"
  by (simp add: models_list_def Pollinations_models_list_def models_try_def test_client_def
      await_all_def run_def settle_def fetchWithProxyRotation_def loop_head_def
      test_pm_def getProxiedUrl_def rotateProxy_def enc_text enc_image fetch_def backup_net_def
      proxy_try_def ok_def test_response_def json_response_def numeral_2_eq_2 Let_def)
section \<open>HuggingFace: provider routing\<close>

lemma getMapping_hit:
  "truthy (js_lookup (providerMapping h) model) \<Longrightarrow>
   HuggingFace_getMapping pf h model tr = (Inr (js_lookup (providerMapping h) model), h, tr)"
  by (simp add: HuggingFace_getMapping_def)

lemma js_lookup_update:
  "js_lookup (AList.update (to_string model) m kvs) model = m"
  by (simp add: js_lookup_def update_conv')

lemma getMapping_cached:
  assumes "HuggingFace_getMapping pf h model tr = (Inr m, h1, tr1)"
  shows "js_lookup (providerMapping h1) model = m"
proof (cases "truthy (js_lookup (providerMapping h) model)")
  case True
  with assms show ?thesis by (auto simp: HuggingFace_getMapping_def)
next
  case False
  with assms show ?thesis
    by (auto simp: HuggingFace_getMapping_def fetch_def Let_def js_lookup_update
             split: option.splits if_splits)
qed

lemma create_after_mapping:
  assumes g: "HuggingFace_getMapping pf h (HuggingFace_model h params) tr = (Inr m, h1, tr1)"
  shows "HuggingFace_chat_create pf h params tr =
     (if \<not> truthy m
      then (Inl (ModelResolutionFailed
                   (''Model is not supported: '' @ to_string (HuggingFace_model h params))), h1, tr1)
      else (case route (HuggingFace_model h params) m of
              Inl e \<Rightarrow> (Inl e, h1, tr1)
            | Inr (apiBase, model1) \<Rightarrow>
                (case pf_net pf tr1 (apiBase @ ''/chat/completions'')
                        \<lparr>http_method = Some ''POST'', headers = extraHeaders h1,
                         payload = Some (Obj ((''model'', model1) # AList.delete ''model'' params))\<rparr> of
                   None \<Rightarrow> Inl NetworkError
                 | Some response \<Rightarrow> complete pf (js_get (Obj params) ''stream'') response,
                 h1,
                 tr1 @ [(apiBase @ ''/chat/completions'',
                         \<lparr>http_method = Some ''POST'', headers = extraHeaders h1,
                          payload = Some (Obj ((''model'', model1) # AList.delete ''model'' params))\<rparr>)])))"
  using g
  by (simp add: HuggingFace_chat_create_def fetch_def Let_def split: sum.splits prod.splits option.splits)

text \<open>
  Claim C6, as amended. \<open>chat.completions.create\<close> resolves the routing map of the
  resolved model. A map that is cached (truthy) is returned without a fetch, any other
  call fetches it, and a truthy map once obtained is cached under the model id, so that
  from then on no call fetches it again. When the map obtained is absent (falsy) the call fails with
  ModelResolutionFailed, before any chat request. When the map has a first entry, only
  that entry is looked at: if its task is not \<open>conversational\<close> the call fails with
  ModelResolutionFailed; otherwise the request goes to the router path of that provider
  and carries the entry's \<open>providerId\<close> as its model.
\<close>

theorem C6_provider_routing:
  "(truthy (js_lookup (providerMapping h) model) \<longrightarrow>
      HuggingFace_getMapping pf h model tr = (Inr (js_lookup (providerMapping h) model), h, tr))
   \<and> (\<not> truthy (js_lookup (providerMapping h) model) \<longrightarrow>
        snd (snd (HuggingFace_getMapping pf h model tr))
          = tr @ [(mapping_url model,
                   \<lparr>http_method = None, headers = extraHeaders h, payload = None\<rparr>)])
   \<and> (HuggingFace_getMapping pf h model tr = (Inr m, h1, tr1) \<and> truthy m \<longrightarrow>
        js_lookup (providerMapping h1) model = m
        \<and> (\<forall>tr2. HuggingFace_getMapping pf h1 model tr2 = (Inr m, h1, tr2)))
   \<and> (HuggingFace_getMapping pf h (HuggingFace_model h params) tr = (Inr m, h1, tr1) \<longrightarrow>
        (\<not> truthy m \<longrightarrow>
           HuggingFace_chat_create pf h params tr =
             (Inl (ModelResolutionFailed
                     (''Model is not supported: '' @ to_string (HuggingFace_model h params))), h1, tr1))
        \<and> (\<forall>key entry. truthy m \<and> first_entry m = Some (key, entry) \<and> \<not> nullish entry
               \<and> js_get entry ''task'' \<noteq> Str ''conversational'' \<longrightarrow>
             (\<exists>msg. HuggingFace_chat_create pf h params tr = (Inl (ModelResolutionFailed msg), h1, tr1)))
        \<and> (\<forall>key entry. truthy m \<and> first_entry m = Some (key, entry)
               \<and> js_get entry ''task'' = Str ''conversational'' \<longrightarrow>
             HuggingFace_chat_create pf h params tr =
               (let u = router_base key (HuggingFace_model h params) @ ''/chat/completions'';
                    init = \<lparr>http_method = Some ''POST'', headers = extraHeaders h1,
                            payload = Some (Obj ((''model'', js_get entry ''providerId'')
                                                   # AList.delete ''model'' params))\<rparr>
                in (case pf_net pf tr1 u init of
                      None \<Rightarrow> Inl NetworkError
                    | Some response \<Rightarrow> complete pf (js_get (Obj params) ''stream'') response,
                    h1, tr1 @ [(u, init)]))))"
proof -
  have a: "HuggingFace_getMapping pf h model tr = (Inr (js_lookup (providerMapping h) model), h, tr)"
    if "truthy (js_lookup (providerMapping h) model)"
    using that by (rule getMapping_hit)
  have a': "snd (snd (HuggingFace_getMapping pf h model tr))
          = tr @ [(mapping_url model,
                   \<lparr>http_method = None, headers = extraHeaders h, payload = None\<rparr>)]"
    if "\<not> truthy (js_lookup (providerMapping h) model)"
    using that
    by (simp add: HuggingFace_getMapping_def fetch_def Let_def split: option.splits)
  have b: "js_lookup (providerMapping h1) model = m
        \<and> (\<forall>tr2. HuggingFace_getMapping pf h1 model tr2 = (Inr m, h1, tr2))"
    if "HuggingFace_getMapping pf h model tr = (Inr m, h1, tr1)" "truthy m"
  proof -
    have l: "js_lookup (providerMapping h1) model = m" using that(1) by (rule getMapping_cached)
    then have "truthy (js_lookup (providerMapping h1) model)" using that(2) by simp
    then have "HuggingFace_getMapping pf h1 model tr2 = (Inr m, h1, tr2)" for tr2
      using getMapping_hit [of h1 model pf tr2] l by simp
    with l show ?thesis by blast
  qed
  have c: "(\<not> truthy m \<longrightarrow>
           HuggingFace_chat_create pf h params tr =
             (Inl (ModelResolutionFailed
                     (''Model is not supported: '' @ to_string (HuggingFace_model h params))), h1, tr1))
        \<and> (\<forall>key entry. truthy m \<and> first_entry m = Some (key, entry) \<and> \<not> nullish entry
               \<and> js_get entry ''task'' \<noteq> Str ''conversational'' \<longrightarrow>
             (\<exists>msg. HuggingFace_chat_create pf h params tr = (Inl (ModelResolutionFailed msg), h1, tr1)))
        \<and> (\<forall>key entry. truthy m \<and> first_entry m = Some (key, entry)
               \<and> js_get entry ''task'' = Str ''conversational'' \<longrightarrow>
             HuggingFace_chat_create pf h params tr =
               (let u = router_base key (HuggingFace_model h params) @ ''/chat/completions'';
                    init = \<lparr>http_method = Some ''POST'', headers = extraHeaders h1,
                            payload = Some (Obj ((''model'', js_get entry ''providerId'')
                                                   # AList.delete ''model'' params))\<rparr>
                in (case pf_net pf tr1 u init of
                      None \<Rightarrow> Inl NetworkError
                    | Some response \<Rightarrow> complete pf (js_get (Obj params) ''stream'') response,
                    h1, tr1 @ [(u, init)])))"
    if g: "HuggingFace_getMapping pf h (HuggingFace_model h params) tr = (Inr m, h1, tr1)"
  proof (intro conjI allI impI)
    assume "\<not> truthy m"
    then show "HuggingFace_chat_create pf h params tr =
             (Inl (ModelResolutionFailed
                     (''Model is not supported: '' @ to_string (HuggingFace_model h params))), h1, tr1)"
      by (simp add: create_after_mapping [OF g])
  next
    fix key entry
    assume "truthy m \<and> first_entry m = Some (key, entry) \<and> \<not> nullish entry
               \<and> js_get entry ''task'' \<noteq> Str ''conversational''"
    then show "\<exists>msg. HuggingFace_chat_create pf h params tr = (Inl (ModelResolutionFailed msg), h1, tr1)"
      by (simp add: create_after_mapping [OF g] route_def)
  next
    fix key entry
    assume e: "truthy m \<and> first_entry m = Some (key, entry)
               \<and> js_get entry ''task'' = Str ''conversational''"
    then have "\<not> nullish entry" by (cases entry) auto
    with e show "HuggingFace_chat_create pf h params tr =
               (let u = router_base key (HuggingFace_model h params) @ ''/chat/completions'';
                    init = \<lparr>http_method = Some ''POST'', headers = extraHeaders h1,
                            payload = Some (Obj ((''model'', js_get entry ''providerId'')
                                                   # AList.delete ''model'' params))\<rparr>
                in (case pf_net pf tr1 u init of
                      None \<Rightarrow> Inl NetworkError
                    | Some response \<Rightarrow> complete pf (js_get (Obj params) ''stream'') response,
                    h1, tr1 @ [(u, init)]))"
      by (simp add: create_after_mapping [OF g] route_def Let_def)
  qed
  show ?thesis using a a' b c by blast
qed

theorem C6_provider_routing_witness:
  "HuggingFace_chat_create (test_pf catalog_net) test_hf
       [(''model'', Str ''gemma-3-27b''), (''messages'', Arr [])] []
     = (Inr (Completed (Obj [(''choices'', Arr [])])), test_hf,
        [(''https://router.huggingface.co/hf-inference/models/google/gemma-3-27b-it/v1/chat/completions'',
          \<lparr>http_method = Some ''POST'',
           headers = [(''Content-Type'', Str ''application/json''), (''Authorization'', Str ''Bearer k'')],
           payload = Some (Obj [(''model'', Str ''google/gemma-3-27b-it''), (''messages'', Arr [])])\<rparr>)])"
proof -
  let ?params = "[(''model'', Str ''gemma-3-27b''), (''messages'', Arr [])]"
  let ?m = "Obj [(''hf-inference/models/google/gemma-3-27b-it'',
                Obj [(''task'', Str ''conversational''),
                     (''providerId'', Str ''google/gemma-3-27b-it'')])]"
  let ?entry = "Obj [(''task'', Str ''conversational''), (''providerId'', Str ''google/gemma-3-27b-it'')]"
  have md: "HuggingFace_model test_hf ?params = Str ''google/gemma-3-27b-it''"
    by (simp add: HuggingFace_model_def test_hf_def js_lookup_def)
  have g: "HuggingFace_getMapping (test_pf catalog_net) test_hf (HuggingFace_model test_hf ?params) []
            = (Inr ?m, test_hf, [])"
    unfolding md by (simp add: HuggingFace_getMapping_def test_hf_def js_lookup_def)
  have e: "truthy ?m \<and> first_entry ?m = Some (''hf-inference/models/google/gemma-3-27b-it'', ?entry)
           \<and> js_get ?entry ''task'' = Str ''conversational''"
    by simp
  from C6_provider_routing [where pf = "test_pf catalog_net" and h = test_hf and params = ?params
      and tr = "[]" and m = ?m and ?h1.0 = test_hf and ?tr1.0 = "[]"] g e
  have "HuggingFace_chat_create (test_pf catalog_net) test_hf ?params [] =
               (let u = router_base ''hf-inference/models/google/gemma-3-27b-it''
                          (HuggingFace_model test_hf ?params) @ ''/chat/completions'';
                    init = \<lparr>http_method = Some ''POST'', headers = extraHeaders test_hf,
                            payload = Some (Obj ((''model'', js_get ?entry ''providerId'')
                                                   # AList.delete ''model'' ?params))\<rparr>
                in (case pf_net (test_pf catalog_net) [] u init of
                      None \<Rightarrow> Inl NetworkError
                    | Some response \<Rightarrow> complete (test_pf catalog_net) (js_get (Obj ?params) ''stream'') response,
                    test_hf, [] @ [(u, init)]))"
    by blast
  then show ?thesis
    by (simp add: md router_base_def test_hf_def test_pf_def catalog_net_def json_response_def
        complete_def regularCompletion_def ok_def Let_def)
qed

text \<open>
  The claim as stated fails: for a model whose data carries no provider mapping nothing
  is cached, and two calls for the same model id fetch the map twice.
\<close>

theorem C6_refetch_counterexample:
  "HuggingFace_chat_create (test_pf nomap_net) test_hf [(''model'', Str ''x/y'')] []
     = (Inl (ModelResolutionFailed ''Model is not supported: x/y''),
        test_hf\<lparr>providerMapping := providerMapping test_hf @ [(''x/y'', Undefined)]\<rparr>,
        [(''https://huggingface.co/api/models/x/y?expand[]=inferenceProviderMapping'', hf_headers)])
   \<and> HuggingFace_chat_create (test_pf nomap_net)
        (test_hf\<lparr>providerMapping := providerMapping test_hf @ [(''x/y'', Undefined)]\<rparr>)
        [(''model'', Str ''x/y'')]
        [(''https://huggingface.co/api/models/x/y?expand[]=inferenceProviderMapping'', hf_headers)]
     = (Inl (ModelResolutionFailed ''Model is not supported: x/y''),
        test_hf\<lparr>providerMapping := providerMapping test_hf @ [(''x/y'', Undefined)]\<rparr>,
        [(''https://huggingface.co/api/models/x/y?expand[]=inferenceProviderMapping'', hf_headers),
         (''https://huggingface.co/api/models/x/y?expand[]=inferenceProviderMapping'', hf_headers)])"
  by (simp add: HuggingFace_chat_create_def HuggingFace_model_def HuggingFace_getMapping_def
      test_hf_def test_pf_def nomap_net_def json_response_def fetch_def ok_def js_lookup_def
      mapping_url_def hf_headers_def Let_def)

section \<open>Client: the template image path\<close>

lemma js_get_update:
  "js_get (Obj (AList.update k v kvs)) k' = (if k' = k then v else js_get (Obj kvs) k')"
  by (simp add: update_conv')

lemma split_on_single: "x \<notin> set s \<Longrightarrow> split_on x s = [s]"
  by (induction s) auto

lemma split_on_two:
  "x \<notin> set w \<Longrightarrow> x \<notin> set h \<Longrightarrow> split_on x (w @ x # h) = [w, h]"
  by (induction w) (auto simp: split_on_single)

text \<open>
  The prompt in the path, character by character: a space is \<open>+\<close>, an unreserved
  character is itself, any other byte is its percent escape. No \<open>$\<close> occurs in it, so
  \<open>replace\<close> inserts it literally.
\<close>

lemma hex_digit_cases: "hex_digit n \<in> set ''0123456789ABCDEF''"
proof -
  have "n mod 16 < length ''0123456789ABCDEF''" by simp
  then show ?thesis unfolding hex_digit_def by (rule nth_mem)
qed

lemma hex_digit_not_pct: "hex_digit n \<noteq> CHR ''%''"
  using hex_digit_cases [of n] by auto

lemma hex_digit_eq:
  assumes "i < 16" "j < 16"
  shows "hex_digit i = hex_digit j \<longleftrightarrow> i = j"
proof -
  have d: "distinct ''0123456789ABCDEF''" by simp
  have "(''0123456789ABCDEF'' ! i = ''0123456789ABCDEF'' ! j) = (i = j)"
    by (rule nth_eq_iff_index_eq [OF d]) (use assms in simp_all)
  then show ?thesis using assms by (simp add: hex_digit_def)
qed

lemma pct_is_space:
  "(hex_digit (of_char c div 16) = CHR ''2'' \<and> hex_digit (of_char c mod 16) = CHR ''0'') \<longleftrightarrow> c = CHR '' ''"
proof -
  have lt: "(of_char c :: nat) < 256" by (rule nat_of_char_less_256)
  have two: "hex_digit 2 = CHR ''2''" and zero: "hex_digit 0 = CHR ''0''"
    by (simp_all add: hex_digit_def)
  have d16: "(of_char c :: nat) div 16 < 16" using lt by presburger
  have m16: "(of_char c :: nat) mod 16 < 16" by simp
  have a: "hex_digit (of_char c div 16) = CHR ''2'' \<longleftrightarrow> (of_char c :: nat) div 16 = 2"
    using hex_digit_eq [OF d16, of 2] two by auto
  have b: "hex_digit (of_char c mod 16) = CHR ''0'' \<longleftrightarrow> (of_char c :: nat) mod 16 = 0"
    using hex_digit_eq [OF m16, of 0] zero by auto
  have "((of_char c :: nat) div 16 = 2 \<and> (of_char c :: nat) mod 16 = 0) \<longleftrightarrow> (of_char c :: nat) = 32"
    by presburger
  moreover have "(of_char c :: nat) = 32 \<longleftrightarrow> c = CHR '' ''"
  proof
    assume "(of_char c :: nat) = 32"
    then have "(of_char c :: nat) = of_char (CHR '' '')" by simp
    then show "c = CHR '' ''" by (simp only: of_char_eq_iff)
  next
    assume "c = CHR '' ''" then show "(of_char c :: nat) = 32" by simp
  qed
  ultimately show ?thesis using a b by simp
qed

lemma replace_plain:
  "c \<noteq> CHR ''%'' \<Longrightarrow>
   replaceAll_from ''%20'' ''+'' 0 (c # rest) = c # replaceAll_from ''%20'' ''+'' 0 rest"
  by simp

lemma replace_pct:
  "replaceAll_from ''%20'' ''+'' 0 (pct c @ rest)
     = (if c = CHR '' '' then ''+'' else pct c) @ replaceAll_from ''%20'' ''+'' 0 rest"
proof (cases "c = CHR '' ''")
  case True
  then show ?thesis by (simp add: pct_def hex_digit_def)
next
  case False
  then have n: "\<not> (hex_digit (of_char c div 16) = CHR ''2'' \<and> hex_digit (of_char c mod 16) = CHR ''0'')"
    using pct_is_space [of c] by simp
  show ?thesis
    using False n hex_digit_not_pct [of "of_char c div 16"] hex_digit_not_pct [of "of_char c mod 16"]
    by (auto simp: pct_def)
qed

lemma unreserved_not_pct: "uri_unreserved c \<Longrightarrow> c \<noteq> CHR ''%''"
  by (auto simp: uri_unreserved_def)

lemma unreserved_not_space: "uri_unreserved c \<Longrightarrow> c \<noteq> CHR '' ''"
  by (auto simp: uri_unreserved_def)

lemma plus_encoding:
  "replaceAll ''%20'' ''+'' (encodeURIComponent s)
     = concat (map (\<lambda>c. if c = CHR '' '' then ''+'' else if uri_unreserved c then [c] else pct c) s)"
proof -
  have "replaceAll_from ''%20'' ''+'' 0 (encodeURIComponent s)
     = concat (map (\<lambda>c. if c = CHR '' '' then ''+'' else if uri_unreserved c then [c] else pct c) s)"
  proof (induction s)
    case Nil
    then show ?case by (simp add: encodeURIComponent_def)
  next
    case (Cons c cs)
    have e: "encodeURIComponent (c # cs) = (if uri_unreserved c then [c] else pct c) @ encodeURIComponent cs"
      by (simp add: encodeURIComponent_def)
    show ?case
    proof (cases "uri_unreserved c")
      case True
      then show ?thesis
        using Cons.IH unreserved_not_pct [OF True] unreserved_not_space [OF True]
        by (simp add: e del: replaceAll_from.simps add: replace_plain)
    next
      case False
      then show ?thesis
        using Cons.IH by (simp add: e replace_pct del: replaceAll_from.simps)
    qed
  qed
  then show ?thesis by (simp add: replaceAll_def)
qed

lemma hex_digit_not_dollar: "hex_digit n \<noteq> CHR ''$''"
  using hex_digit_cases [of n] by auto

lemma unreserved_not_dollar: "uri_unreserved c \<Longrightarrow> c \<noteq> CHR ''$''"
  by (auto simp: uri_unreserved_def)

lemma pct_no_dollar: "CHR ''$'' \<notin> set (pct c)"
  using hex_digit_not_dollar [of "of_char c div 16"] hex_digit_not_dollar [of "of_char c mod 16"]
  by (auto simp: pct_def)

lemma no_dollar: "CHR ''$'' \<notin> set (replaceAll ''%20'' ''+'' (encodeURIComponent s))"
proof -
  have "CHR ''$'' \<notin> set (if c = CHR '' '' then ''+'' else if uri_unreserved c then [c] else pct c)" for c
    using unreserved_not_dollar [of c] pct_no_dollar [of c] by auto
  then have "\<forall>c\<in>set s. CHR ''$'' \<notin> set ((\<lambda>c. if c = CHR '' '' then ''+''
               else if uri_unreserved c then [c] else pct c) c)"
    by blast
  then show ?thesis
    unfolding plus_encoding set_concat set_map by blast
qed

lemma image_prompt_chars:
  "image_prompt params =
     concat (map (\<lambda>c. if c = CHR '' '' then ''+'' else if uri_unreserved c then [c] else pct c)
       (to_string (if truthy (js_get (Obj params) ''prompt'')
                   then js_get (Obj params) ''prompt'' else Str [])))"
  by (simp only: image_prompt_def plus_encoding)

lemma image_query_type_error:
  assumes "truthy (js_get (Obj params) ''size'')" "\<forall>s. js_get (Obj params) ''size'' \<noteq> Str s"
  shows "image_query c params = Inl TypeError"
proof -
  define p1 where "p1 = AList.delete ''prompt'' params"
  define p2 where "p2 = (if js_get (Obj p1) ''nologo'' = Undefined
                then AList.update ''nologo'' (Bool True) p1 else p1)"
  define p3 where "p3 = (if truthy (referrer c) then AList.update ''referrer'' (referrer c) p2 else p2)"
  have s3: "js_get (Obj p3) ''size'' = js_get (Obj params) ''size''"
    by (simp add: p3_def p2_def p1_def update_conv' delete_conv')
  show ?thesis
    unfolding image_query_def Let_def p1_def [symmetric] p2_def [symmetric] p3_def [symmetric] s3
    using assms by (cases "js_get (Obj params) ''size''") simp_all
qed

lemma image_query_folds:
  assumes "\<not> truthy (js_get (Obj params) ''size'') \<or> (\<exists>s. js_get (Obj params) ''size'' = Str s)"
  shows "\<exists>q. image_query c params = Inr q
      \<and> map_of q ''prompt'' = None
      \<and> map_of q ''nologo'' = (if js_get (Obj params) ''nologo'' = Undefined then Some (Bool True)
                                else map_of params ''nologo'')
      \<and> map_of q ''referrer'' = (if truthy (referrer c) then Some (referrer c)
                                  else map_of params ''referrer'')
      \<and> (\<forall>k. k \<notin> {''prompt'', ''size'', ''width'', ''height'', ''nologo'', ''referrer''} \<longrightarrow>
             map_of q k = map_of params k)
      \<and> (\<not> truthy (js_get (Obj params) ''size'') \<longrightarrow>
             map_of q ''size'' = map_of params ''size''
             \<and> map_of q ''width'' = map_of params ''width''
             \<and> map_of q ''height'' = map_of params ''height'')
      \<and> (\<forall>s. js_get (Obj params) ''size'' = Str s \<and> s \<noteq> [] \<longrightarrow>
             map_of q ''size'' = None
             \<and> map_of q ''width'' = Some (js_nth (map Str (split_on CHR ''x'' s)) 0)
             \<and> map_of q ''height'' = Some (js_nth (map Str (split_on CHR ''x'' s)) 1))"
proof -
  define p1 where "p1 = AList.delete ''prompt'' params"
  define p2 where "p2 = (if js_get (Obj p1) ''nologo'' = Undefined
                then AList.update ''nologo'' (Bool True) p1 else p1)"
  define p3 where "p3 = (if truthy (referrer c) then AList.update ''referrer'' (referrer c) p2 else p2)"
  have s3: "js_get (Obj p3) ''size'' = js_get (Obj params) ''size''"
    by (simp add: p3_def p2_def p1_def update_conv' delete_conv')
  have n1: "js_get (Obj p1) ''nologo'' = js_get (Obj params) ''nologo''"
    by (simp add: p1_def delete_conv')
  have m3: "map_of p3 ''prompt'' = None"
    "map_of p3 ''nologo'' = (if js_get (Obj params) ''nologo'' = Undefined then Some (Bool True)
                              else map_of params ''nologo'')"
    "map_of p3 ''referrer'' = (if truthy (referrer c) then Some (referrer c)
                                else map_of params ''referrer'')"
    unfolding p3_def p2_def n1 by (simp_all add: p1_def update_conv' delete_conv')
  have o3: "map_of p3 k = map_of params k" if "k \<notin> {''prompt'', ''nologo'', ''referrer''}" for k
    using that by (simp add: p3_def p2_def p1_def update_conv' delete_conv')
  show ?thesis
  proof (cases "truthy (js_get (Obj params) ''size'')")
    case False
    have iq: "image_query c params = Inr p3"
      unfolding image_query_def Let_def p1_def [symmetric] p2_def [symmetric] p3_def [symmetric] s3
      using False by simp
    have nos: "\<not> (js_get (Obj params) ''size'' = Str s \<and> s \<noteq> [])" for s
      using False by auto
    have same: "map_of p3 ''size'' = map_of params ''size''"
      "map_of p3 ''width'' = map_of params ''width''"
      "map_of p3 ''height'' = map_of params ''height''"
      by (simp_all add: o3)
    have oth: "\<forall>k. k \<notin> {''prompt'', ''size'', ''width'', ''height'', ''nologo'', ''referrer''} \<longrightarrow>
             map_of p3 k = map_of params k"
      by (simp add: o3)
    show ?thesis
      using iq m3 same oth nos by blast
  next
    case True
    then obtain s where s: "js_get (Obj params) ''size'' = Str s" using assms by blast
    then have ne: "s \<noteq> []" using True by auto
    define q where "q = AList.delete ''size''
        (AList.update ''height'' (js_nth (map Str (split_on CHR ''x'' s)) 1)
           (AList.update ''width'' (js_nth (map Str (split_on CHR ''x'' s)) 0) p3))"
    have iq: "image_query c params = Inr q"
      unfolding image_query_def Let_def p1_def [symmetric] p2_def [symmetric] p3_def [symmetric] s3
      using True s by (simp add: q_def)
    have mq: "map_of q ''prompt'' = map_of p3 ''prompt''"
      "map_of q ''nologo'' = map_of p3 ''nologo''"
      "map_of q ''referrer'' = map_of p3 ''referrer''"
      "map_of q ''size'' = None"
      "map_of q ''width'' = Some (js_nth (map Str (split_on CHR ''x'' s)) 0)"
      "map_of q ''height'' = Some (js_nth (map Str (split_on CHR ''x'' s)) 1)"
      by (simp_all add: q_def update_conv' delete_conv')
    have oq: "map_of q k = map_of params k"
      if "k \<notin> {''prompt'', ''size'', ''width'', ''height'', ''nologo'', ''referrer''}" for k
    proof -
      have "map_of q k = map_of p3 k" using that by (simp add: q_def update_conv' delete_conv')
      then show ?thesis using o3 [of k] that by simp
    qed
    have mq3: "map_of q ''prompt'' = None"
      "map_of q ''nologo'' = (if js_get (Obj params) ''nologo'' = Undefined then Some (Bool True)
                                else map_of params ''nologo'')"
      "map_of q ''referrer'' = (if truthy (referrer c) then Some (referrer c)
                                  else map_of params ''referrer'')"
      using mq(1-3) m3 by (simp_all only:)
    have oth: "\<forall>k. k \<notin> {''prompt'', ''size'', ''width'', ''height'', ''nologo'', ''referrer''} \<longrightarrow>
             map_of q k = map_of params k"
      using oq by blast
    have sp: "\<forall>s'. js_get (Obj params) ''size'' = Str s' \<and> s' \<noteq> [] \<longrightarrow>
             map_of q ''size'' = None
             \<and> map_of q ''width'' = Some (js_nth (map Str (split_on CHR ''x'' s')) 0)
             \<and> map_of q ''height'' = Some (js_nth (map Str (split_on CHR ''x'' s')) 1)"
      using mq(4-6) s by (simp only: jsval.inject) blast
    show ?thesis
      using iq mq3 oth sp True by blast
  qed
qed

lemma size_parts:
  "CHR ''x'' \<notin> set W \<Longrightarrow> CHR ''x'' \<notin> set H \<Longrightarrow>
   js_nth (map Str (split_on CHR ''x'' (W @ ''x'' @ H))) 0 = Str W
   \<and> js_nth (map Str (split_on CHR ''x'' (W @ ''x'' @ H))) 1 = Str H"
  using split_on_two [of "CHR ''x''" W H] by (simp add: js_nth_def)

lemma generate_template:
  assumes "str_includes (imageEndpoint c) ''{prompt}''"
  shows "Client_images_generate pf c params tr =
      (fst (defaultImageGeneration pf c
             (AList.update ''model''
                (resolve_alias (modelAliases c) (js_get (Obj params) ''model'') (defaulImageModel c))
                params)
             \<lparr>http_method = None, headers = extraHeaders c, payload = None\<rparr> tr),
       AList.update ''model''
         (resolve_alias (modelAliases c) (js_get (Obj params) ''model'') (defaulImageModel c)) params,
       snd (defaultImageGeneration pf c
             (AList.update ''model''
                (resolve_alias (modelAliases c) (js_get (Obj params) ''model'') (defaulImageModel c))
                params)
             \<lparr>http_method = None, headers = extraHeaders c, payload = None\<rparr> tr))"
  using assms by (simp add: Client_images_generate_def Let_def split: prod.splits)

lemma defaultImageGeneration_request:
  assumes "image_query c params = Inr q"
  shows "defaultImageGeneration pf c params init tr =
          (let u = replace_first ''{prompt}''
                     (replaceAll ''%20'' ''+''
                        (encodeURIComponent
                           (to_string (if truthy (js_get (Obj params) ''prompt'')
                                       then js_get (Obj params) ''prompt'' else Str ''''))))
                     (imageEndpoint c)
                   @ ''?'' @ urlencoded (search_params q)
           in (case pf_net pf tr u init of
                 None \<Rightarrow> Inl NetworkError
               | Some response \<Rightarrow>
                   if ok response then Inr (Obj [(''data'', Arr [Obj [(''url'', Str (final_url response))]])])
                   else Inl (UpstreamStatus (status response)),
               tr @ [(u, init)]))"
  using assms
  by (simp add: defaultImageGeneration_def image_prompt_def image_result_def fetch_def Let_def
      split: option.splits)

text \<open>
  Claim C9, as amended. For an image endpoint that contains \<open>{prompt}\<close>, \<open>images.generate\<close>
  takes the template path, whatever the parameters. A size that is truthy and not a
  string raises a TypeError before any request. In every other call the object
  serialised into the query string has no \<open>prompt\<close>, the resolved model, \<open>nologo\<close> (set to
  \<open>true\<close> when the caller left it undefined) and \<open>referrer\<close> (the client's, when it has
  one) and every other parameter of the caller as it was; a size that is absent or
  falsy leaves \<open>size\<close>, \<open>width\<close> and \<open>height\<close> as the caller gave them, while a size string
  is removed and split at \<open>x\<close> into \<open>width\<close> and \<open>height\<close>, so that a size of the form
  \<open>WxH\<close> becomes \<open>width = W\<close> and \<open>height = H\<close>. The request is a GET (no method is set)
  to the endpoint with \<open>{prompt}\<close> replaced by the percent-encoded prompt in which every
  \<open>%20\<close> has become \<open>+\<close>, followed by \<open>?\<close> and the query string; and when the response
  status is a success the call returns \<open>{data: [{url: response.url}]}\<close>, while a rejected
  fetch or a failure status is raised.
\<close>

theorem C9_template_image:
  assumes tmpl: "str_includes (imageEndpoint c) ''{prompt}''"
  shows
   "(truthy (js_get (Obj params) ''size'') \<and> (\<forall>s. js_get (Obj params) ''size'' \<noteq> Str s) \<longrightarrow>
       Client_images_generate pf c params tr =
         (Inl TypeError,
          AList.update ''model''
            (resolve_alias (modelAliases c) (js_get (Obj params) ''model'') (defaulImageModel c))
            params,
          tr))
    \<and> (\<not> truthy (js_get (Obj params) ''size'') \<or> (\<exists>s. js_get (Obj params) ''size'' = Str s) \<longrightarrow>
       (\<exists>q. image_query c
             (AList.update ''model''
                (resolve_alias (modelAliases c) (js_get (Obj params) ''model'') (defaulImageModel c))
                params) = Inr q
          \<and> map_of q ''prompt'' = None
          \<and> js_get (Obj q) ''model''
                = resolve_alias (modelAliases c) (js_get (Obj params) ''model'') (defaulImageModel c)
          \<and> map_of q ''nologo'' = (if js_get (Obj params) ''nologo'' = Undefined then Some (Bool True)
                                    else map_of params ''nologo'')
          \<and> map_of q ''referrer'' = (if truthy (referrer c) then Some (referrer c)
                                      else map_of params ''referrer'')
          \<and> (\<forall>k. k \<notin> {''model'', ''prompt'', ''size'', ''width'', ''height'', ''nologo'', ''referrer''} \<longrightarrow>
                 map_of q k = map_of params k)
          \<and> (\<not> truthy (js_get (Obj params) ''size'') \<longrightarrow>
                 map_of q ''size'' = map_of params ''size''
                 \<and> map_of q ''width'' = map_of params ''width''
                 \<and> map_of q ''height'' = map_of params ''height'')
          \<and> (\<forall>s. js_get (Obj params) ''size'' = Str s \<and> s \<noteq> [] \<longrightarrow>
                 map_of q ''size'' = None
                 \<and> map_of q ''width'' = Some (js_nth (map Str (split_on CHR ''x'' s)) 0)
                 \<and> map_of q ''height'' = Some (js_nth (map Str (split_on CHR ''x'' s)) 1))
          \<and> (\<forall>W H. js_get (Obj params) ''size'' = Str (W @ ''x'' @ H)
                    \<and> CHR ''x'' \<notin> set W \<and> CHR ''x'' \<notin> set H \<longrightarrow>
                 map_of q ''size'' = None
                 \<and> js_get (Obj q) ''width'' = Str W \<and> js_get (Obj q) ''height'' = Str H)
          \<and> Client_images_generate pf c params tr =
              (let u = replace_first ''{prompt}''
                         (replaceAll ''%20'' ''+''
                            (encodeURIComponent
                               (to_string (if truthy (js_get (Obj params) ''prompt'')
                                           then js_get (Obj params) ''prompt'' else Str ''''))))
                         (imageEndpoint c)
                       @ ''?'' @ urlencoded (search_params q);
                   init = \<lparr>http_method = None, headers = extraHeaders c, payload = None\<rparr>
               in (case pf_net pf tr u init of
                     None \<Rightarrow> Inl NetworkError
                   | Some response \<Rightarrow>
                       if ok response then Inr (Obj [(''data'', Arr [Obj [(''url'', Str (final_url response))]])])
                       else Inl (UpstreamStatus (status response)),
                   AList.update ''model''
                     (resolve_alias (modelAliases c) (js_get (Obj params) ''model'') (defaulImageModel c))
                     params,
                   tr @ [(u, init)]))))"
proof -
  define m where "m = resolve_alias (modelAliases c) (js_get (Obj params) ''model'') (defaulImageModel c)"
  define params1 where "params1 = AList.update ''model'' m params"
  let ?init = "\<lparr>http_method = None, headers = extraHeaders c, payload = None\<rparr>"
  have sz1: "js_get (Obj params1) ''size'' = js_get (Obj params) ''size''"
    by (simp add: params1_def update_conv')
  have pr1: "js_get (Obj params1) ''prompt'' = js_get (Obj params) ''prompt''"
    by (simp add: params1_def update_conv')
  have nl1: "js_get (Obj params1) ''nologo'' = js_get (Obj params) ''nologo''"
    by (simp add: params1_def update_conv')
  have mp1: "map_of params1 ''nologo'' = map_of params ''nologo''"
    "map_of params1 ''referrer'' = map_of params ''referrer''"
    "map_of params1 ''size'' = map_of params ''size''"
    "map_of params1 ''width'' = map_of params ''width''"
    "map_of params1 ''height'' = map_of params ''height''"
    "map_of params1 ''model'' = Some m"
    by (simp_all add: params1_def update_conv')
  have gen: "Client_images_generate pf c params tr =
      (fst (defaultImageGeneration pf c params1 ?init tr), params1,
       snd (defaultImageGeneration pf c params1 ?init tr))"
    using generate_template [OF tmpl, of pf params tr] by (simp add: params1_def m_def)
  have bad: "Client_images_generate pf c params tr = (Inl TypeError, params1, tr)"
    if "truthy (js_get (Obj params) ''size'')" "\<forall>s. js_get (Obj params) ''size'' \<noteq> Str s"
  proof -
    have "image_query c params1 = Inl TypeError"
      by (rule image_query_type_error) (use that sz1 in simp_all)
    then show ?thesis unfolding gen by (simp add: defaultImageGeneration_def)
  qed
  have good: "\<exists>q. image_query c params1 = Inr q
          \<and> map_of q ''prompt'' = None
          \<and> js_get (Obj q) ''model'' = m
          \<and> map_of q ''nologo'' = (if js_get (Obj params) ''nologo'' = Undefined then Some (Bool True)
                                    else map_of params ''nologo'')
          \<and> map_of q ''referrer'' = (if truthy (referrer c) then Some (referrer c)
                                      else map_of params ''referrer'')
          \<and> (\<forall>k. k \<notin> {''model'', ''prompt'', ''size'', ''width'', ''height'', ''nologo'', ''referrer''} \<longrightarrow>
                 map_of q k = map_of params k)
          \<and> (\<not> truthy (js_get (Obj params) ''size'') \<longrightarrow>
                 map_of q ''size'' = map_of params ''size''
                 \<and> map_of q ''width'' = map_of params ''width''
                 \<and> map_of q ''height'' = map_of params ''height'')
          \<and> (\<forall>s. js_get (Obj params) ''size'' = Str s \<and> s \<noteq> [] \<longrightarrow>
                 map_of q ''size'' = None
                 \<and> map_of q ''width'' = Some (js_nth (map Str (split_on CHR ''x'' s)) 0)
                 \<and> map_of q ''height'' = Some (js_nth (map Str (split_on CHR ''x'' s)) 1))
          \<and> (\<forall>W H. js_get (Obj params) ''size'' = Str (W @ ''x'' @ H)
                    \<and> CHR ''x'' \<notin> set W \<and> CHR ''x'' \<notin> set H \<longrightarrow>
                 map_of q ''size'' = None
                 \<and> js_get (Obj q) ''width'' = Str W \<and> js_get (Obj q) ''height'' = Str H)
          \<and> Client_images_generate pf c params tr =
              (let u = replace_first ''{prompt}''
                         (replaceAll ''%20'' ''+''
                            (encodeURIComponent
                               (to_string (if truthy (js_get (Obj params) ''prompt'')
                                           then js_get (Obj params) ''prompt'' else Str ''''))))
                         (imageEndpoint c)
                       @ ''?'' @ urlencoded (search_params q);
                   init = ?init
               in (case pf_net pf tr u init of
                     None \<Rightarrow> Inl NetworkError
                   | Some response \<Rightarrow>
                       if ok response then Inr (Obj [(''data'', Arr [Obj [(''url'', Str (final_url response))]])])
                       else Inl (UpstreamStatus (status response)),
                   params1,
                   tr @ [(u, init)]))"
    if h: "\<not> truthy (js_get (Obj params) ''size'') \<or> (\<exists>s. js_get (Obj params) ''size'' = Str s)"
  proof -
    have h1: "\<not> truthy (js_get (Obj params1) ''size'') \<or> (\<exists>s. js_get (Obj params1) ''size'' = Str s)"
      using h sz1 by simp
    from image_query_folds [OF h1, of c] obtain q where
      q: "image_query c params1 = Inr q"
         "map_of q ''prompt'' = None"
         "map_of q ''nologo'' = (if js_get (Obj params1) ''nologo'' = Undefined then Some (Bool True)
                                  else map_of params1 ''nologo'')"
         "map_of q ''referrer'' = (if truthy (referrer c) then Some (referrer c)
                                    else map_of params1 ''referrer'')"
         "\<forall>k. k \<notin> {''prompt'', ''size'', ''width'', ''height'', ''nologo'', ''referrer''} \<longrightarrow>
               map_of q k = map_of params1 k"
         "\<not> truthy (js_get (Obj params1) ''size'') \<longrightarrow>
               map_of q ''size'' = map_of params1 ''size''
               \<and> map_of q ''width'' = map_of params1 ''width''
               \<and> map_of q ''height'' = map_of params1 ''height''"
         "\<forall>s. js_get (Obj params1) ''size'' = Str s \<and> s \<noteq> [] \<longrightarrow>
               map_of q ''size'' = None
               \<and> map_of q ''width'' = Some (js_nth (map Str (split_on CHR ''x'' s)) 0)
               \<and> map_of q ''height'' = Some (js_nth (map Str (split_on CHR ''x'' s)) 1)"
      by blast
    have "map_of q ''model'' = map_of params1 ''model''" using q(5) by simp
    then have qm: "js_get (Obj q) ''model'' = m" by (simp add: mp1)
    have qn: "map_of q ''nologo'' = (if js_get (Obj params) ''nologo'' = Undefined then Some (Bool True)
                                    else map_of params ''nologo'')"
      using q(3) by (simp only: nl1 mp1)
    have qr: "map_of q ''referrer'' = (if truthy (referrer c) then Some (referrer c)
                                      else map_of params ''referrer'')"
      using q(4) by (simp only: mp1)
    have other: "map_of q k = map_of params k"
      if "k \<notin> {''model'', ''prompt'', ''size'', ''width'', ''height'', ''nologo'', ''referrer''}" for k
    proof -
      have "map_of q k = map_of params1 k" using q(5) that by simp
      then show ?thesis using that by (simp add: params1_def update_conv')
    qed
    have nosize: "\<not> truthy (js_get (Obj params) ''size'') \<longrightarrow>
                 map_of q ''size'' = map_of params ''size''
                 \<and> map_of q ''width'' = map_of params ''width''
                 \<and> map_of q ''height'' = map_of params ''height''"
      using q(6) by (simp only: sz1 mp1)
    have split: "\<forall>s. js_get (Obj params) ''size'' = Str s \<and> s \<noteq> [] \<longrightarrow>
                 map_of q ''size'' = None
                 \<and> map_of q ''width'' = Some (js_nth (map Str (split_on CHR ''x'' s)) 0)
                 \<and> map_of q ''height'' = Some (js_nth (map Str (split_on CHR ''x'' s)) 1)"
      using q(7) by (simp only: sz1)
    have wh: "map_of q ''size'' = None \<and> js_get (Obj q) ''width'' = Str W \<and> js_get (Obj q) ''height'' = Str H"
      if "js_get (Obj params) ''size'' = Str (W @ ''x'' @ H)" "CHR ''x'' \<notin> set W" "CHR ''x'' \<notin> set H"
      for W H
    proof -
      have "W @ ''x'' @ H \<noteq> []" by simp
      with split that(1) have
        "map_of q ''size'' = None"
        "map_of q ''width'' = Some (js_nth (map Str (split_on CHR ''x'' (W @ ''x'' @ H))) 0)"
        "map_of q ''height'' = Some (js_nth (map Str (split_on CHR ''x'' (W @ ''x'' @ H))) 1)"
        by blast+
      then show ?thesis using size_parts [OF that(2,3)] by simp
    qed
    have "Client_images_generate pf c params tr =
              (let u = replace_first ''{prompt}''
                         (replaceAll ''%20'' ''+''
                            (encodeURIComponent
                               (to_string (if truthy (js_get (Obj params) ''prompt'')
                                           then js_get (Obj params) ''prompt'' else Str ''''))))
                         (imageEndpoint c)
                       @ ''?'' @ urlencoded (search_params q);
                   init = ?init
               in (case pf_net pf tr u init of
                     None \<Rightarrow> Inl NetworkError
                   | Some response \<Rightarrow>
                       if ok response then Inr (Obj [(''data'', Arr [Obj [(''url'', Str (final_url response))]])])
                       else Inl (UpstreamStatus (status response)),
                   params1,
                   tr @ [(u, init)]))"
      unfolding gen defaultImageGeneration_request [OF q(1)] pr1 by (simp add: Let_def)
    moreover have "\<forall>k. k \<notin> {''model'', ''prompt'', ''size'', ''width'', ''height'', ''nologo'', ''referrer''} \<longrightarrow>
                 map_of q k = map_of params k"
      using other by blast
    moreover have "\<forall>W H. js_get (Obj params) ''size'' = Str (W @ ''x'' @ H)
                    \<and> CHR ''x'' \<notin> set W \<and> CHR ''x'' \<notin> set H \<longrightarrow>
                 map_of q ''size'' = None
                 \<and> js_get (Obj q) ''width'' = Str W \<and> js_get (Obj q) ''height'' = Str H"
      using wh by blast
    moreover note q(1,2) qm qn qr nosize split
    ultimately show ?thesis
      apply -
      apply (intro exI [of _ q] conjI)
               apply assumption+
      done
  qed
  show ?thesis
  proof (intro conjI impI)
    assume "truthy (js_get (Obj params) ''size'') \<and> (\<forall>s. js_get (Obj params) ''size'' \<noteq> Str s)"
    then have "Client_images_generate pf c params tr = (Inl TypeError, params1, tr)"
      using bad by blast
    then show "Client_images_generate pf c params tr =
         (Inl TypeError,
          AList.update ''model''
            (resolve_alias (modelAliases c) (js_get (Obj params) ''model'') (defaulImageModel c))
            params,
          tr)"
      by (simp only: params1_def m_def)
  next
    assume "\<not> truthy (js_get (Obj params) ''size'') \<or> (\<exists>s. js_get (Obj params) ''size'' = Str s)"
    from good [OF this] show "\<exists>q. image_query c
             (AList.update ''model''
                (resolve_alias (modelAliases c) (js_get (Obj params) ''model'') (defaulImageModel c))
                params) = Inr q
          \<and> map_of q ''prompt'' = None
          \<and> js_get (Obj q) ''model''
                = resolve_alias (modelAliases c) (js_get (Obj params) ''model'') (defaulImageModel c)
          \<and> map_of q ''nologo'' = (if js_get (Obj params) ''nologo'' = Undefined then Some (Bool True)
                                    else map_of params ''nologo'')
          \<and> map_of q ''referrer'' = (if truthy (referrer c) then Some (referrer c)
                                      else map_of params ''referrer'')
          \<and> (\<forall>k. k \<notin> {''model'', ''prompt'', ''size'', ''width'', ''height'', ''nologo'', ''referrer''} \<longrightarrow>
                 map_of q k = map_of params k)
          \<and> (\<not> truthy (js_get (Obj params) ''size'') \<longrightarrow>
                 map_of q ''size'' = map_of params ''size''
                 \<and> map_of q ''width'' = map_of params ''width''
                 \<and> map_of q ''height'' = map_of params ''height'')
          \<and> (\<forall>s. js_get (Obj params) ''size'' = Str s \<and> s \<noteq> [] \<longrightarrow>
                 map_of q ''size'' = None
                 \<and> map_of q ''width'' = Some (js_nth (map Str (split_on CHR ''x'' s)) 0)
                 \<and> map_of q ''height'' = Some (js_nth (map Str (split_on CHR ''x'' s)) 1))
          \<and> (\<forall>W H. js_get (Obj params) ''size'' = Str (W @ ''x'' @ H)
                    \<and> CHR ''x'' \<notin> set W \<and> CHR ''x'' \<notin> set H \<longrightarrow>
                 map_of q ''size'' = None
                 \<and> js_get (Obj q) ''width'' = Str W \<and> js_get (Obj q) ''height'' = Str H)
          \<and> Client_images_generate pf c params tr =
              (let u = replace_first ''{prompt}''
                         (replaceAll ''%20'' ''+''
                            (encodeURIComponent
                               (to_string (if truthy (js_get (Obj params) ''prompt'')
                                           then js_get (Obj params) ''prompt'' else Str ''''))))
                         (imageEndpoint c)
                       @ ''?'' @ urlencoded (search_params q);
                   init = \<lparr>http_method = None, headers = extraHeaders c, payload = None\<rparr>
               in (case pf_net pf tr u init of
                     None \<Rightarrow> Inl NetworkError
                   | Some response \<Rightarrow>
                       if ok response then Inr (Obj [(''data'', Arr [Obj [(''url'', Str (final_url response))]])])
                       else Inl (UpstreamStatus (status response)),
                   AList.update ''model''
                     (resolve_alias (modelAliases c) (js_get (Obj params) ''model'') (defaulImageModel c))
                     params,
                   tr @ [(u, init)]))"
      by (simp only: params1_def m_def)
  qed
qed
text \<open>The scenario of the specification.\<close>

lemma cat_query:
  "image_query test_client cat_params
     = Inr [(''model'', Str ''flux''), (''nologo'', Bool True), (''referrer'', Str ''https://g4f.dev''),
            (''width'', Str ''512''), (''height'', Str ''512'')]"
  by (simp add: image_query_def cat_params_def test_client_def js_nth_def)

lemma cat_url:
  "replace_first ''{prompt}'' (image_prompt cat_params) (imageEndpoint test_client)
     @ ''?'' @ urlencoded (search_params
         [(''model'', Str ''flux''), (''nologo'', Bool True), (''referrer'', Str ''https://g4f.dev''),
          (''width'', Str ''512''), (''height'', Str ''512'')])
   = ''https://image.pollinations.ai/prompt/a+cat?model=flux&nologo=true&referrer=https%3A%2F%2Fg4f.dev&width=512&height=512''"
  by (simp add: image_prompt_def cat_params_def test_client_def encodeURIComponent_def
      uri_unreserved_def pct_def hex_digit_def replaceAll_def urlencoded_def search_params_def
      form_encode_def form_unreserved_def)

lemma cat_model:
  "AList.update ''model''
     (resolve_alias (modelAliases test_client) (js_get (Obj cat_params) ''model'')
        (defaulImageModel test_client)) cat_params = cat_params"
  by (simp add: cat_params_def resolve_alias_def js_or_def js_lookup_def test_client_def)

theorem C9_template_image_witness:
  "Client_images_generate (test_pf image_net) test_client cat_params []
     = (Inr (Obj [(''data'', Arr [Obj [(''url'',
          Str ''https://image.pollinations.ai/prompt/a+cat?model=flux&nologo=true&referrer=https%3A%2F%2Fg4f.dev&width=512&height=512'')]])]),
        cat_params,
        [(''https://image.pollinations.ai/prompt/a+cat?model=flux&nologo=true&referrer=https%3A%2F%2Fg4f.dev&width=512&height=512'',
          \<lparr>http_method = None, headers = [(''Content-Type'', Str ''application/json'')], payload = None\<rparr>)])"
proof -
  let ?q = "[(''model'', Str ''flux''), (''nologo'', Bool True), (''referrer'', Str ''https://g4f.dev''),
            (''width'', Str ''512''), (''height'', Str ''512'')]"
  let ?u = "''https://image.pollinations.ai/prompt/a+cat?model=flux&nologo=true&referrer=https%3A%2F%2Fg4f.dev&width=512&height=512''"
  let ?init = "\<lparr>http_method = None, headers = extraHeaders test_client, payload = None\<rparr>"
  have inc: "str_includes (imageEndpoint test_client) ''{prompt}''"
    by (simp add: test_client_def)
  have sz: "\<not> truthy (js_get (Obj cat_params) ''size'')
            \<or> (\<exists>s. js_get (Obj cat_params) ''size'' = Str s)"
    by (simp add: cat_params_def)
  from C9_template_image [OF inc, of cat_params "test_pf image_net" "[]"] sz
  obtain q where q: "image_query test_client cat_params = Inr q"
    and g: "Client_images_generate (test_pf image_net) test_client cat_params [] =
          (let u = replace_first ''{prompt}''
                     (replaceAll ''%20'' ''+''
                        (encodeURIComponent
                           (to_string (if truthy (js_get (Obj cat_params) ''prompt'')
                                       then js_get (Obj cat_params) ''prompt'' else Str ''''))))
                     (imageEndpoint test_client)
                   @ ''?'' @ urlencoded (search_params q);
               init = ?init
           in (case pf_net (test_pf image_net) [] u init of
                 None \<Rightarrow> Inl NetworkError
               | Some response \<Rightarrow>
                   if ok response then Inr (Obj [(''data'', Arr [Obj [(''url'', Str (final_url response))]])])
                   else Inl (UpstreamStatus (status response)),
               cat_params,
               [] @ [(u, init)]))"
    unfolding cat_model by blast
  have qq: "q = ?q" using q cat_query by simp
  have u: "replace_first ''{prompt}''
                     (replaceAll ''%20'' ''+''
                        (encodeURIComponent
                           (to_string (if truthy (js_get (Obj cat_params) ''prompt'')
                                       then js_get (Obj cat_params) ''prompt'' else Str ''''))))
                     (imageEndpoint test_client)
                   @ ''?'' @ urlencoded (search_params ?q) = ?u"
    using cat_url by (simp only: image_prompt_def)
  have n: "pf_net (test_pf image_net) [] ?u ?init
      = Some \<lparr>status = 200, content_type = Some ''image/jpeg'', final_url = ?u,
           json_body = None, body = None\<rparr>"
    by (simp only: test_pf_def image_net_def platform.simps)
  have h: "extraHeaders test_client = [(''Content-Type'', Str ''application/json'')]"
    by (simp add: test_client_def)
  show ?thesis
    unfolding g qq u Let_def n by (simp add: ok_def h)
qed

text \<open>
  A call without a size: the query string has the model and the two additions of the
  function, and nothing about the size.
\<close>

lemma template_image_without_size:
  "Client_images_generate (test_pf image_net) test_client [(''prompt'', Str ''a cat'')] []
     = (Inr (Obj [(''data'', Arr [Obj [(''url'',
          Str ''https://image.pollinations.ai/prompt/a+cat?model=flux&nologo=true&referrer=https%3A%2F%2Fg4f.dev'')]])]),
        [(''prompt'', Str ''a cat''), (''model'', Str ''flux'')],
        [(''https://image.pollinations.ai/prompt/a+cat?model=flux&nologo=true&referrer=https%3A%2F%2Fg4f.dev'',
          \<lparr>http_method = None, headers = [(''Content-Type'', Str ''application/json'')], payload = None\<rparr>)])"
proof -
  let ?p1 = "[(''prompt'', Str ''a cat''), (''model'', Str ''flux'')]"
  let ?u = "''https://image.pollinations.ai/prompt/a+cat?model=flux&nologo=true&referrer=https%3A%2F%2Fg4f.dev''"
  have m: "AList.update ''model''
             (resolve_alias (modelAliases test_client) (js_get (Obj [(''prompt'', Str ''a cat'')]) ''model'')
                (defaulImageModel test_client)) [(''prompt'', Str ''a cat'')] = ?p1"
    by (simp add: resolve_alias_def js_or_def js_lookup_def test_client_def)
  have q: "image_query test_client ?p1
     = Inr [(''model'', Str ''flux''), (''nologo'', Bool True), (''referrer'', Str ''https://g4f.dev'')]"
    by (simp add: image_query_def test_client_def)
  have u: "replace_first ''{prompt}'' (image_prompt ?p1) (imageEndpoint test_client)
     @ ''?'' @ urlencoded (search_params
         [(''model'', Str ''flux''), (''nologo'', Bool True), (''referrer'', Str ''https://g4f.dev'')])
     = ?u"
    by (simp add: image_prompt_def test_client_def encodeURIComponent_def
      uri_unreserved_def pct_def hex_digit_def replaceAll_def urlencoded_def search_params_def
      form_encode_def form_unreserved_def)
  have d: "defaultImageGeneration (test_pf image_net) test_client ?p1
             \<lparr>http_method = None, headers = extraHeaders test_client, payload = None\<rparr> []
           = (Inr (Obj [(''data'', Arr [Obj [(''url'', Str ?u)]])]),
              [(?u, \<lparr>http_method = None, headers = extraHeaders test_client, payload = None\<rparr>)])"
    unfolding defaultImageGeneration_def Let_def q sum.case u
    by (simp add: fetch_def test_pf_def image_net_def ok_def image_result_def)
  have inc: "str_includes (imageEndpoint test_client) ''{prompt}''"
    by (simp add: test_client_def)
  have h: "extraHeaders test_client = [(''Content-Type'', Str ''application/json'')]"
    by (simp add: test_client_def)
  show ?thesis
    unfolding generate_template [OF inc] m d by (simp add: h)
qed

text \<open>
  The claim as stated fails: a call returns no object when the server answers 500 or
  the fetch is rejected, which it raises, and when the size is a number, which has no
  \<open>split\<close>: then no request is made.
\<close>

theorem C9_failure_status_counterexample:
  "str_includes (imageEndpoint test_client) ''{prompt}''
   \<and> js_get (Obj cat_params) ''size'' = Str ''512x512''
   \<and> fst (Client_images_generate (test_pf failing_net) test_client cat_params [])
       = Inl (UpstreamStatus 500)
   \<and> fst (Client_images_generate (test_pf rejecting_net) test_client cat_params [])
       = Inl NetworkError
   \<and> Client_images_generate (test_pf image_net) test_client
        [(''prompt'', Str ''a cat''), (''size'', Num 512)] []
       = (Inl TypeError, [(''prompt'', Str ''a cat''), (''size'', Num 512), (''model'', Str ''flux'')], [])"
proof -
  have inc: "str_includes (imageEndpoint test_client) ''{prompt}''"
    by (simp add: test_client_def)
  have d: "fst (defaultImageGeneration (test_pf failing_net) test_client cat_params ro [])
             = Inl (UpstreamStatus 500)" for ro
    by (simp add: defaultImageGeneration_def cat_query fetch_def Let_def test_pf_def
        failing_net_def test_response_def ok_def)
  have a: "fst (Client_images_generate (test_pf failing_net) test_client cat_params [])
       = Inl (UpstreamStatus 500)"
    unfolding generate_template [OF inc] cat_model using d by simp
  have e: "fst (defaultImageGeneration (test_pf rejecting_net) test_client cat_params ro [])
             = Inl NetworkError" for ro
    by (simp add: defaultImageGeneration_def cat_query fetch_def Let_def test_pf_def
        rejecting_net_def)
  have b: "fst (Client_images_generate (test_pf rejecting_net) test_client cat_params [])
       = Inl NetworkError"
    unfolding generate_template [OF inc] cat_model using e by simp
  have m: "AList.update ''model''
             (resolve_alias (modelAliases test_client)
                (js_get (Obj [(''prompt'', Str ''a cat''), (''size'', Num 512)]) ''model'')
                (defaulImageModel test_client)) [(''prompt'', Str ''a cat''), (''size'', Num 512)]
           = [(''prompt'', Str ''a cat''), (''size'', Num 512), (''model'', Str ''flux'')]"
    by (simp add: resolve_alias_def js_or_def js_lookup_def test_client_def)
  have q: "image_query test_client
             [(''prompt'', Str ''a cat''), (''size'', Num 512), (''model'', Str ''flux'')]
           = Inl TypeError"
    by (simp add: image_query_def test_client_def)
  have c: "Client_images_generate (test_pf image_net) test_client
        [(''prompt'', Str ''a cat''), (''size'', Num 512)] []
       = (Inl TypeError, [(''prompt'', Str ''a cat''), (''size'', Num 512), (''model'', Str ''flux'')], [])"
    unfolding generate_template [OF inc] m
    by (simp add: defaultImageGeneration_def q)
  show ?thesis using inc a b c by (simp add: cat_params_def)
qed
section \<open>Client: what a call writes to the caller's parameters\<close>

text \<open>
  Claim C10, as amended. \<open>chat.completions.create\<close> of the base client leaves the
  caller's \<open>params\<close> with \<open>model\<close> set to the resolved id and, when a (truthy)
  referrer is configured, \<open>referrer\<close> set to it; every other property, \<open>messages\<close>
  among them, reads as before. \<open>images.generate\<close> also writes to the caller's object:
  it sets \<open>model\<close> to the resolved id, and only that; the further edits of the template
  path (prompt, nologo, referrer, size, width, height) are made by
  \<open>_defaultImageGeneration\<close> on its copy and do not reach the caller's object.
\<close>

theorem C10_params_mutation:
  "js_get (Obj (fst (snd (Client_chat_create pf c params tr)))) ''model''
      = resolve_alias (modelAliases c) (js_get (Obj params) ''model'') (defaultModel c)
   \<and> (truthy (referrer c) \<longrightarrow>
        js_get (Obj (fst (snd (Client_chat_create pf c params tr)))) ''referrer'' = referrer c)
   \<and> (\<forall>k. k \<noteq> ''model'' \<and> (truthy (referrer c) \<longrightarrow> k \<noteq> ''referrer'') \<longrightarrow>
        js_get (Obj (fst (snd (Client_chat_create pf c params tr)))) k = js_get (Obj params) k)
   \<and> js_get (Obj (fst (snd (Client_chat_create pf c params tr)))) ''messages''
        = js_get (Obj params) ''messages''
   \<and> fst (snd (Client_images_generate pf c params tr))
        = AList.update ''model''
            (resolve_alias (modelAliases c) (js_get (Obj params) ''model'') (defaulImageModel c)) params
   \<and> (\<forall>k. k \<noteq> ''model'' \<longrightarrow>
        js_get (Obj (fst (snd (Client_images_generate pf c params tr)))) k = js_get (Obj params) k)"
proof -
  have chat: "fst (snd (Client_chat_create pf c params tr)) =
      (if truthy (referrer c)
       then AList.update ''referrer'' (referrer c)
              (AList.update ''model''
                 (resolve_alias (modelAliases c) (js_get (Obj params) ''model'') (defaultModel c)) params)
       else AList.update ''model''
              (resolve_alias (modelAliases c) (js_get (Obj params) ''model'') (defaultModel c)) params)"
    by (simp add: Client_chat_create_def Let_def fetch_def split: option.splits)
  have img: "fst (snd (Client_images_generate pf c params tr))
        = AList.update ''model''
            (resolve_alias (modelAliases c) (js_get (Obj params) ''model'') (defaulImageModel c)) params"
    by (simp add: Client_images_generate_def Let_def split: prod.splits)
  show ?thesis
    unfolding chat img by (simp add: update_conv')
qed

theorem C10_params_mutation_witness:
  "fst (snd (Client_chat_create (test_pf catalog_net) test_client
        [(''messages'', Arr [Obj [(''role'', Str ''user''), (''content'', Str ''hi'')]]),
         (''model'', Str ''deepseek-v3'')] []))
     = [(''messages'', Arr [Obj [(''role'', Str ''user''), (''content'', Str ''hi'')]]),
        (''model'', Str ''deepseek''), (''referrer'', Str ''https://g4f.dev'')]"
proof -
  let ?params = "[(''messages'', Arr [Obj [(''role'', Str ''user''), (''content'', Str ''hi'')]]),
         (''model'', Str ''deepseek-v3'')]"
  have t: "truthy (referrer test_client)" by (simp add: test_client_def)
  have "js_get (Obj (fst (snd (Client_chat_create (test_pf catalog_net) test_client ?params [])))) ''referrer''
          = referrer test_client"
    using C10_params_mutation [of "test_pf catalog_net" test_client ?params "[]"] t by blast
  moreover have "fst (snd (Client_chat_create (test_pf catalog_net) test_client ?params []))
     = [(''messages'', Arr [Obj [(''role'', Str ''user''), (''content'', Str ''hi'')]]),
        (''model'', Str ''deepseek''), (''referrer'', Str ''https://g4f.dev'')]"
    by (simp add: Client_chat_create_def Let_def fetch_def test_client_def resolve_alias_def
        js_or_def js_lookup_def split: option.splits)
  ultimately show ?thesis by simp
qed

text \<open>
  The claim as stated fails: on the template path the caller's object does not stay
  untouched, it comes back with a \<open>model\<close> property it did not have.
\<close>

theorem C10_image_model_counterexample:
  "str_includes (imageEndpoint test_client) ''{prompt}''
   \<and> fst (snd (Client_images_generate (test_pf image_net) test_client [(''prompt'', Str ''a cat'')] []))
       = [(''prompt'', Str ''a cat''), (''model'', Str ''flux'')]"
  by (simp add: Client_images_generate_def Let_def test_client_def resolve_alias_def
        js_or_def js_lookup_def split: prod.splits)


end
